theory Spec2Isabelle
  imports Complex_Main
begin

section \<open>Python values and exceptions\<close>

text \<open>
  The notebooks are straight-line Python around two external solvers. Every exception
  that a modelled statement can raise is a value of \<open>py_error\<close>; a computation that
  may raise returns \<open>py_error + 'a\<close> with \<open>Inl\<close> for the exception. \<open>SolverError\<close>
  stands for whatever the external solver (S4, EMUstack, the optical-constant utility)
  raises; its argument names the failing call.
\<close>

datatype py_error =
  ZeroDivisionError | IndexError | ValueError | AttributeError | SolverError string

text \<open>Sequencing: the second statement runs only when the first did not raise.\<close>

definition bind_err :: "py_error + 'a \<Rightarrow> ('a \<Rightarrow> py_error + 'b) \<Rightarrow> py_error + 'b" where
  "bind_err m f = (case m of Inl e \<Rightarrow> Inl e | Inr x \<Rightarrow> f x)"

text \<open>
  A loop (or comprehension) that builds a list from a body that may raise: the first
  exception ends it.
\<close>

fun traverse :: "('a \<Rightarrow> py_error + 'b) \<Rightarrow> 'a list \<Rightarrow> py_error + 'b list" where
  "traverse f [] = Inr []"
| "traverse f (x # xs) = bind_err (f x) (\<lambda>y. bind_err (traverse f xs) (\<lambda>ys. Inr (y # ys)))"

text \<open>
  Indexing \<open>xs[i]\<close> of a list or of a one-dimensional array: a negative index counts
  from the end, an index outside the sequence raises \<open>IndexError\<close>.
\<close>

definition py_get :: "'a list \<Rightarrow> int \<Rightarrow> py_error + 'a" where
  "py_get xs i =
     (if 0 \<le> i \<and> i < int (length xs) then Inr (xs ! nat i)
      else if i < 0 \<and> - int (length xs) \<le> i then Inr (xs ! nat (int (length xs) + i))
      else Inl IndexError)"

text \<open>
  Division of two Python \<open>float\<close> or \<open>complex\<close> numbers (the entries of the
  dictionaries, the power fluxes that S4 returns): a zero divisor raises
  \<open>ZeroDivisionError\<close>.
\<close>

definition py_float_div :: "real \<Rightarrow> real \<Rightarrow> py_error + real" where
  "py_float_div a b = (if b = 0 then Inl ZeroDivisionError else Inr (a / b))"

definition py_complex_div :: "complex \<Rightarrow> complex \<Rightarrow> py_error + complex" where
  "py_complex_div a b = (if b = 0 then Inl ZeroDivisionError else Inr (a / b))"

section \<open>numpy\<close>

text \<open>
  A \<open>float64\<close> is a finite value, an infinity or not-a-number. Finite values are
  carried by reals; overflow and the sign of zero are outside the model. The array
  arithmetic of this section is on these reals as they are; where a result of the
  notebooks depends on rounding (the three values that \<open>rta\<close> returns, the value of a
  decimal literal), the operation rounds with \<open>float64\<close> below. The arithmetic of
  numpy never raises: an invalid operation yields \<open>NaN\<close>, a division of a non-zero
  value by zero an infinity (numpy prints a \<open>RuntimeWarning\<close> and goes on).
\<close>

datatype npfloat = Fin real | PosInf | NegInf | NaN

text \<open>
  Rounding to the nearest float: 53 significant bits, a tie goes to the even significand.
  In \<open>float64 x\<close> the significand of a non-zero \<open>x\<close> is \<open>x\<close> scaled by the power
  of two that brings it between \<open>2^52\<close> and \<open>2^53\<close>, rounded to an integer. The
  exponent is unbounded here: no overflow to an infinity, no gradual underflow.
\<close>

definition round_half_even :: "real \<Rightarrow> int" where
  "round_half_even x =
     (let n = \<lfloor>x\<rfloor>; d = x - of_int n
      in if d < 1 / 2 then n else if 1 / 2 < d then n + 1 else if even n then n else n + 1)"

definition float64 :: "real \<Rightarrow> real" where
  "float64 x =
     (if x = 0 then 0
      else (let e = \<lfloor>log 2 \<bar>x\<bar>\<rfloor> - 52
            in of_int (round_half_even (x / 2 powr of_int e)) * 2 powr of_int e))"

text \<open>
  \<open>np.abs(a / b)\<close> on two Python \<open>complex\<close> numbers: the quotient raises on a zero
  divisor, the result is the float nearest to the modulus of the quotient (the roundings
  inside the division and the modulus are taken together as one).
\<close>

definition np_abs_div :: "complex \<Rightarrow> complex \<Rightarrow> py_error + real" where
  "np_abs_div a b = bind_err (py_complex_div a b) (\<lambda>q. Inr (float64 (cmod q)))"

fun np_neg :: "npfloat \<Rightarrow> npfloat" where
  "np_neg (Fin x) = Fin (- x)"
| "np_neg PosInf = NegInf"
| "np_neg NegInf = PosInf"
| "np_neg NaN = NaN"

fun np_add :: "npfloat \<Rightarrow> npfloat \<Rightarrow> npfloat" where
  "np_add (Fin x) (Fin y) = Fin (x + y)"
| "np_add NaN b = NaN"
| "np_add a NaN = NaN"
| "np_add PosInf NegInf = NaN"
| "np_add NegInf PosInf = NaN"
| "np_add PosInf b = PosInf"
| "np_add NegInf b = NegInf"
| "np_add (Fin x) b = b"

definition np_sub :: "npfloat \<Rightarrow> npfloat \<Rightarrow> npfloat" where
  "np_sub a b = np_add a (np_neg b)"

fun np_div :: "npfloat \<Rightarrow> npfloat \<Rightarrow> npfloat" where
  "np_div (Fin x) (Fin y) =
     (if y \<noteq> 0 then Fin (x / y)
      else if x = 0 then NaN else if 0 < x then PosInf else NegInf)"
| "np_div NaN b = NaN"
| "np_div a NaN = NaN"
| "np_div (Fin x) b = Fin 0"
| "np_div PosInf (Fin y) = (if 0 \<le> y then PosInf else NegInf)"
| "np_div NegInf (Fin y) = (if 0 \<le> y then NegInf else PosInf)"
| "np_div a b = NaN"

text \<open>
  An arithmetic operator on two one-dimensional arrays: elementwise on equal lengths, an
  array of length one is broadcast, any other pair of shapes raises \<open>ValueError\<close>.
\<close>

definition np_binop ::
  "('a \<Rightarrow> 'a \<Rightarrow> 'a) \<Rightarrow> 'a list \<Rightarrow> 'a list \<Rightarrow> py_error + 'a list" where
  "np_binop f xs ys =
     (if length xs = length ys then Inr (map2 f xs ys)
      else if length xs = 1 then Inr (map (f (hd xs)) ys)
      else if length ys = 1 then Inr (map (\<lambda>x. f x (hd ys)) xs)
      else Inl ValueError)"

text \<open>
  \<open>np.linspace(start, stop, num)\<close>: \<open>num\<close> evenly spaced samples with both end points; a
  negative \<open>num\<close> raises \<open>ValueError\<close>; a single sample is \<open>start\<close>.
\<close>

definition linspace :: "real \<Rightarrow> real \<Rightarrow> int \<Rightarrow> py_error + real list" where
  "linspace start stop num =
     (if num < 0 then Inl ValueError
      else if num = 1 then Inr [start]
      else Inr (map (\<lambda>i. start + real i * ((stop - start) / real (nat num - 1))) [0..<nat num]))"

section \<open>The process pool\<close>

text \<open>
  \<open>list(executor.map(f, xs))\<close> inside \<open>with ProcessPoolExecutor() as executor\<close>: every call
  runs in a worker process, the results are yielded in the order of \<open>xs\<close>, and the
  exception of the first call (in that order) that raised is raised again in the driver.
  The workers share nothing, so the order in which they run does not show; the model
  evaluates the calls in the order of \<open>xs\<close>.
\<close>

definition executor_map :: "('a \<Rightarrow> py_error + 'b) \<Rightarrow> 'a list \<Rightarrow> py_error + 'b list" where
  "executor_map f xs = traverse f xs"

section \<open>Configuration dictionaries\<close>

text \<open>
  The dictionary \<open>struct\<close> of every notebook: the keys that the file names and the
  geometry read, and the four material names that every \<open>struct\<close> holds as well. The
  numeric entries are Python floats, taken here as reals.
\<close>

record struct_cfg =
  inc_shape :: string
  nd_radius :: real
  nd_height :: real
  nd_period_x :: real
  nd_period_y :: real

record mat_struct = struct_cfg +
  nd_inc_mat :: string
  nd_back_mat :: string
  sub_mat :: string
  sup_mat :: string

section \<open>Timestamps and output file names\<close>

text \<open>\<open>datetime.now()\<close>: the fields of a Python \<open>datetime\<close> object.\<close>

record datetime =
  year :: nat
  month :: nat
  day :: nat
  hour :: nat
  minute :: nat
  second :: nat
  microsecond :: nat

definition digit_char :: "nat \<Rightarrow> char" where
  "digit_char n = ''0123456789'' ! (n mod 10)"

text \<open>A zero-padded two-digit decimal field, as \<open>strftime\<close> prints a value below 100.\<close>

definition two_digits :: "nat \<Rightarrow> string" where
  "two_digits n = [digit_char (n div 10), digit_char n]"

text \<open>
  The directives of \<open>strftime\<close> that the notebooks use: \<open>%d %m %y %H %M %S\<close>.
  \<open>%y\<close> is the year without its century. No other directive occurs in the source;
  one is copied unchanged here.
\<close>

definition directive :: "datetime \<Rightarrow> char \<Rightarrow> string" where
  "directive now c =
     (if c = CHR ''d'' then two_digits (day now)
      else if c = CHR ''m'' then two_digits (month now)
      else if c = CHR ''y'' then two_digits (year now mod 100)
      else if c = CHR ''H'' then two_digits (hour now)
      else if c = CHR ''M'' then two_digits (minute now)
      else if c = CHR ''S'' then two_digits (second now)
      else [CHR ''%'', c])"

fun strftime :: "datetime \<Rightarrow> string \<Rightarrow> string" where
  "strftime now (c # d # rest) =
     (if c = CHR ''%'' then directive now d @ strftime now rest
      else c # strftime now (d # rest))"
| "strftime now [c] = [c]"
| "strftime now [] = []"

text \<open>\<open>timestamp = now.strftime("%d%m%y_%H%M%S")\<close>\<close>

definition timestamp :: "datetime \<Rightarrow> string" where
  "timestamp now = strftime now ''%d%m%y_%H%M%S''"

text \<open>
  The expression that every writer cell uses for \<open>out_filename\<close>, with the leading tag
  as its first argument. \<open>py_str\<close> is Python's built-in \<open>str\<close> on the float entries
  of \<open>struct\<close>; it is a parameter of the model.
\<close>

definition out_filename ::
  "string \<Rightarrow> (real \<Rightarrow> string) \<Rightarrow> 'a struct_cfg_scheme \<Rightarrow> datetime \<Rightarrow> string" where
  "out_filename tag py_str struct now =
     tag @ inc_shape struct
     @ ''_px'' @ py_str (nd_period_x struct)
     @ ''_py'' @ py_str (nd_period_y struct)
     @ ''_r'' @ py_str (nd_radius struct)
     @ ''_h'' @ py_str (nd_height struct)
     @ ''_'' @ timestamp now"

text \<open>The five writers: the path each one hands to \<open>to_netcdf\<close> or \<open>open\<close>.\<close>

definition s4_spectra_path :: "(real \<Rightarrow> string) \<Rightarrow> 'a struct_cfg_scheme \<Rightarrow> datetime \<Rightarrow> string" where
  "s4_spectra_path py_str struct now =
     ''data/'' @ out_filename ''S4_AuNdArraySpectra_'' py_str struct now @ ''.nc''"

definition s4_lf_path :: "(real \<Rightarrow> string) \<Rightarrow> 'a struct_cfg_scheme \<Rightarrow> datetime \<Rightarrow> string" where
  "s4_lf_path py_str struct now =
     ''data/'' @ out_filename ''S4_AuNdArrayLF_'' py_str struct now @ ''.nc''"

definition emu_spectra_path :: "(real \<Rightarrow> string) \<Rightarrow> 'a struct_cfg_scheme \<Rightarrow> datetime \<Rightarrow> string" where
  "emu_spectra_path py_str struct now =
     ''data/'' @ out_filename ''EMU_AuNdArraySpectra_'' py_str struct now @ ''.nc''"

definition emu_lf_path :: "(real \<Rightarrow> string) \<Rightarrow> 'a struct_cfg_scheme \<Rightarrow> datetime \<Rightarrow> string" where
  "emu_lf_path py_str struct now =
     ''data/'' @ out_filename ''EMU_AuNdArrayLF_'' py_str struct now @ ''.nc''"

definition emu_sweep_path :: "(real \<Rightarrow> string) \<Rightarrow> 'a struct_cfg_scheme \<Rightarrow> datetime \<Rightarrow> string" where
  "emu_sweep_path py_str struct now =
     out_filename ''EMU_AuNdArraySpectra_'' py_str struct now @ ''.out''"

text \<open>
  The naming convention in the specification's words: engine, sweep kind, shape, the
  string forms of the two periods, of the radius and of the height, a timestamp
  day-month-year, underscore, hour-minute-second, then the extension.
\<close>

definition spec_timestamp :: "datetime \<Rightarrow> string" where
  "spec_timestamp now =
     two_digits (day now) @ two_digits (month now) @ two_digits (year now mod 100)
     @ ''_'' @ two_digits (hour now) @ two_digits (minute now) @ two_digits (second now)"

record name_fields =
  engine :: string
  sweepKind :: string
  shape :: string
  period_x :: string
  period_y :: string
  radius :: string
  height :: string
  stamp :: string
  extension :: string

definition spec_filename :: "name_fields \<Rightarrow> string" where
  "spec_filename f =
     engine f @ ''_'' @ sweepKind f @ ''_'' @ shape f @ ''_px'' @ period_x f @ ''_py'' @ period_y f
     @ ''_r'' @ radius f @ ''_h'' @ height f @ ''_'' @ stamp f @ ''.'' @ extension f"

text \<open>The fields that a writer with the given engine tag, sweep kind and extension fills in.\<close>

definition fields_of ::
  "string \<Rightarrow> string \<Rightarrow> string \<Rightarrow> (real \<Rightarrow> string) \<Rightarrow> 'a struct_cfg_scheme \<Rightarrow> datetime \<Rightarrow> name_fields" where
  "fields_of eng kind e py_str struct now =
     \<lparr>engine = eng, sweepKind = kind, shape = inc_shape struct,
      period_x = py_str (nd_period_x struct), period_y = py_str (nd_period_y struct),
      radius = py_str (nd_radius struct), height = py_str (nd_height struct),
      stamp = spec_timestamp now, extension = e\<rparr>"

section \<open>Python values as text: \<open>str\<close> and \<open>ast.literal_eval\<close>\<close>

text \<open>
  The notebooks attach \<open>str(d)\<close> of each configuration dictionary to the saved array,
  and the data-exploration notebook reads an attribute back with \<open>ast.literal_eval\<close>.
  Both are library code; they are modelled from the Python language reference and the
  documentation of \<open>ast\<close> (Python 3.8, the version of the notebooks).

  The values that the dictionaries hold: integers, floats, strings, booleans, \<open>None\<close>,
  lists, and dictionaries with string keys in insertion order. A character is a code
  point below 256.
\<close>

datatype py_val =
    PyInt int | PyFloat npfloat | PyStr string | PyBool bool | PyNone
  | PyList "py_val list" | PyDict "(string \<times> py_val) list"

subsection \<open>\<open>str\<close> of a value\<close>

text \<open>The decimal digits of a natural number, without leading zeros.\<close>

fun show_nat :: "nat \<Rightarrow> string" where
  "show_nat n = (if n < 10 then [digit_char n] else show_nat (n div 10) @ [digit_char n])"

declare show_nat.simps [simp del]

definition hex_char :: "nat \<Rightarrow> char" where
  "hex_char n = ''0123456789abcdef'' ! (n mod 16)"

text \<open>
  \<open>str.isprintable\<close> on the code points below 256: the ASCII range from the space to
  the tilde, and the Latin-1 range from 161 on without the soft hyphen 173.
\<close>

definition printable :: "char \<Rightarrow> bool" where
  "printable c = (let n = (of_char c :: nat) in (32 \<le> n \<and> n < 127) \<or> (161 \<le> n \<and> n \<noteq> 173))"

text \<open>
  \<open>repr\<close> of a string: single quotes, unless the string holds a single quote and no
  double quote; inside, the backslash and the quote in use are escaped with a backslash,
  tab, newline and carriage return are written as a backslash and \<open>t\<close>, \<open>n\<close> or
  \<open>r\<close>, every other character that is not printable as a backslash, \<open>x\<close> and two
  hexadecimal digits.
\<close>

definition repr_char :: "char \<Rightarrow> char \<Rightarrow> string" where
  "repr_char q c =
     (if c = q \<or> c = CHR 0x5C then [CHR 0x5C, c]
      else if c = CHR 0x09 then [CHR 0x5C, CHR ''t'']
      else if c = CHR 0x0A then [CHR 0x5C, CHR ''n'']
      else if c = CHR 0x0D then [CHR 0x5C, CHR ''r'']
      else if printable c then [c]
      else [CHR 0x5C, CHR ''x'', hex_char (of_char c div 16), hex_char (of_char c)])"

definition repr_str :: "string \<Rightarrow> string" where
  "repr_str s =
     (let q = (if CHR 0x27 \<in> set s \<and> CHR 0x22 \<notin> set s then CHR 0x22 else CHR 0x27)
      in q # concat (map (repr_char q) s) @ [q])"

text \<open>The items of a display, separated by a comma and a space.\<close>

fun commas :: "string list \<Rightarrow> string" where
  "commas [] = []"
| "commas [x] = x"
| "commas (x # y # r) = x @ '', '' @ commas (y # r)"

text \<open>
  \<open>str(v)\<close>, which for a list or a dictionary prints \<open>repr\<close> of every item. The digits of
  a finite float are those of \<open>py_str\<close>, the parameter that also prints the floats of the
  file names; an infinity prints as \<open>inf\<close> or \<open>-inf\<close>, not-a-number as \<open>nan\<close>.
\<close>

fun py_repr :: "(real \<Rightarrow> string) \<Rightarrow> py_val \<Rightarrow> string" where
  "py_repr py_str (PyInt i) = (if i < 0 then CHR ''-'' # show_nat (nat (- i)) else show_nat (nat i))"
| "py_repr py_str (PyFloat (Fin x)) = py_str x"
| "py_repr py_str (PyFloat PosInf) = ''inf''"
| "py_repr py_str (PyFloat NegInf) = ''-inf''"
| "py_repr py_str (PyFloat NaN) = ''nan''"
| "py_repr py_str (PyStr s) = repr_str s"
| "py_repr py_str (PyBool b) = (if b then ''True'' else ''False'')"
| "py_repr py_str PyNone = ''None''"
| "py_repr py_str (PyList vs) = ''['' @ commas (map (py_repr py_str) vs) @ '']''"
| "py_repr py_str (PyDict kvs) =
     ''{'' @ commas (map (\<lambda>kv. repr_str (fst kv) @ '': '' @ py_repr py_str (snd kv)) kvs) @ ''}''"

subsection \<open>\<open>ast.parse\<close> on a fragment of the expressions\<close>

text \<open>
  \<open>ast.literal_eval(text)\<close> parses the text as an expression and converts the syntax
  tree. The nodes that the model knows: a constant, a name, a unary minus, a list display
  and a dictionary display.
\<close>

datatype expr =
    Constant py_val | Name string | USub expr | ListE "expr list" | DictE "(expr \<times> expr) list"

definition is_digit :: "char \<Rightarrow> bool" where
  "is_digit c = (c \<in> set ''0123456789'')"

definition digit_val :: "char \<Rightarrow> nat" where
  "digit_val c = of_char c - 48"

definition digits_val :: "string \<Rightarrow> nat" where
  "digits_val ds = foldl (\<lambda>a c. 10 * a + digit_val c) 0 ds"

definition is_hex :: "char \<Rightarrow> bool" where
  "is_hex c = (c \<in> set ''0123456789abcdefABCDEF'')"

definition hex_val :: "char \<Rightarrow> nat" where
  "hex_val c =
     (let n = (of_char c :: nat) in if n < 58 then n - 48 else if n < 71 then n - 55 else n - 87)"

text \<open>A character of an ASCII identifier: a letter, the underscore or a digit.\<close>

definition is_ident :: "char \<Rightarrow> bool" where
  "is_ident c =
     (let n = (of_char c :: nat)
      in (65 \<le> n \<and> n \<le> 90) \<or> (97 \<le> n \<and> n \<le> 122) \<or> n = 95 \<or> (48 \<le> n \<and> n \<le> 57))"

text \<open>The keywords of Python 3.8 other than \<open>True\<close>, \<open>False\<close> and \<open>None\<close>.\<close>

definition kwlist :: "string list" where
  "kwlist = [''and'', ''as'', ''assert'', ''async'', ''await'', ''break'', ''class'', ''continue'',
     ''def'', ''del'', ''elif'', ''else'', ''except'', ''finally'', ''for'', ''from'', ''global'',
     ''if'', ''import'', ''in'', ''is'', ''lambda'', ''nonlocal'', ''not'', ''or'', ''pass'',
     ''raise'', ''return'', ''try'', ''while'', ''with'', ''yield'']"

text \<open>
  Every reader below returns what it read and the rest of the text, or \<open>None\<close> when the
  text leaves the fragment: \<open>None\<close> stands for a \<open>SyntaxError\<close> as well as for Python
  syntax that is not modelled (tuples, sets, operators, string prefixes, triple quotes,
  other escapes, underscores in numbers, other bases, imaginary numbers, comments, white
  space other than the space). Nothing is claimed about such a text.

  The body of a string literal after its opening quote \<open>q\<close>, up to the closing quote. The
  escapes read are those that \<open>repr\<close> writes, the hexadecimal one with digits of either
  case; a raw character must be printable.
\<close>

fun read_str :: "char \<Rightarrow> string \<Rightarrow> (string \<times> string) option" where
  "read_str q [] = None"
| "read_str q (c # s) =
     (if c = q then Some ([], s)
      else if c = CHR 0x5C then
        (case s of
           [] \<Rightarrow> None
         | d # t \<Rightarrow>
             if d = CHR 0x5C \<or> d = CHR 0x27 \<or> d = CHR 0x22
             then map_option (apfst ((#) d)) (read_str q t)
             else if d = CHR ''t'' then map_option (apfst ((#) (CHR 0x09))) (read_str q t)
             else if d = CHR ''n'' then map_option (apfst ((#) (CHR 0x0A))) (read_str q t)
             else if d = CHR ''r'' then map_option (apfst ((#) (CHR 0x0D))) (read_str q t)
             else if d = CHR ''x'' then
               (case t of
                  h # l # u \<Rightarrow>
                    if is_hex h \<and> is_hex l
                    then map_option (apfst ((#) (char_of (16 * hex_val h + hex_val l)))) (read_str q u)
                    else None
                | _ \<Rightarrow> None)
             else None)
      else if printable c then map_option (apfst ((#) c)) (read_str q s)
      else None)"

text \<open>A string literal after its opening quote; two more quotes would open a triple-quoted one.\<close>

definition read_string :: "char \<Rightarrow> string \<Rightarrow> (expr \<times> string) option" where
  "read_string q s =
     (case s of
        c # d # t \<Rightarrow> if c = q \<and> d = q then None
                      else map_option (apfst (\<lambda>x. Constant (PyStr x))) (read_str q s)
      | _ \<Rightarrow> map_option (apfst (\<lambda>x. Constant (PyStr x))) (read_str q s))"

text \<open>
  A decimal number: digits, then optionally a point and digits, then optionally an
  exponent (\<open>e\<close> or \<open>E\<close>, a sign, digits). An exponent mark that no digit follows does
  not belong to the number.
\<close>

definition read_fraction :: "string \<Rightarrow> string option \<times> string" where
  "read_fraction s =
     (case s of
        c # t \<Rightarrow> if c = CHR ''.'' then (Some (takeWhile is_digit t), dropWhile is_digit t)
                  else (None, s)
      | [] \<Rightarrow> (None, s))"

definition read_exponent :: "string \<Rightarrow> (bool \<times> string) option \<times> string" where
  "read_exponent s =
     (case s of
        c # d # t \<Rightarrow>
          if c = CHR ''e'' \<or> c = CHR ''E'' then
            (if is_digit d then (Some (False, takeWhile is_digit (d # t)), dropWhile is_digit (d # t))
             else if d = CHR ''+'' \<or> d = CHR ''-'' then
               (case t of
                  f # u \<Rightarrow> if is_digit f
                            then (Some (d = CHR ''-'', takeWhile is_digit t), dropWhile is_digit t)
                            else (None, s)
                | [] \<Rightarrow> (None, s))
             else (None, s))
          else (None, s)
      | _ \<Rightarrow> (None, s))"

text \<open>
  The number that the digits of the integer part, of the fraction and of the exponent
  (with the flag of a negative exponent) denote.
\<close>

definition decimal :: "string \<Rightarrow> string \<Rightarrow> bool \<times> string \<Rightarrow> real" where
  "decimal ip fp ex =
     (let m = real (digits_val ip) + real (digits_val fp) / 10 ^ length fp
      in if fst ex then m / 10 ^ digits_val (snd ex) else m * 10 ^ digits_val (snd ex))"

text \<open>
  A decimal value that rounds to zero or to a normal float: there \<open>float64\<close> is the
  rounding of Python. (It leaves out the floats from \<open>2^1023\<close> on.)
\<close>

definition normal_range :: "real \<Rightarrow> bool" where
  "normal_range v = (v = 0 \<or> (1 / 2 ^ 1022 \<le> \<bar>v\<bar> \<and> \<bar>v\<bar> < 2 ^ 1023))"

text \<open>
  A number with neither point nor exponent is an integer constant (one with a leading
  zero and a non-zero value is refused); any other is a float constant, the float nearest
  to the decimal value, read when that value is in the range above.
\<close>

definition read_number :: "string \<Rightarrow> (expr \<times> string) option" where
  "read_number s =
     (let ip = takeWhile is_digit s;
          (fp, s2) = read_fraction (dropWhile is_digit s);
          (ex, s3) = read_exponent s2
      in if ip = [] then None
         else if fp = None \<and> ex = None then
           (if hd ip = CHR ''0'' \<and> digits_val ip \<noteq> 0 then None
            else Some (Constant (PyInt (int (digits_val ip))), s3))
         else (let v = decimal ip (case fp of None \<Rightarrow> [] | Some f \<Rightarrow> f)
                                  (case ex of None \<Rightarrow> (False, []) | Some e \<Rightarrow> e)
               in if normal_range v then Some (Constant (PyFloat (Fin (float64 v))), s3)
                  else None))"

text \<open>
  A name: \<open>True\<close>, \<open>False\<close> and \<open>None\<close> are constants, any other identifier that is not
  a keyword is a \<open>Name\<close> node. A quote right after the name would make it a string prefix.
\<close>

definition read_name :: "string \<Rightarrow> (expr \<times> string) option" where
  "read_name s =
     (let n = takeWhile is_ident s; r = dropWhile is_ident s
      in if n \<in> set kwlist then None
         else if r \<noteq> [] \<and> (hd r = CHR 0x27 \<or> hd r = CHR 0x22) then None
         else if n = ''True'' then Some (Constant (PyBool True), r)
         else if n = ''False'' then Some (Constant (PyBool False), r)
         else if n = ''None'' then Some (Constant PyNone, r)
         else Some (Name n, r))"

definition skip :: "string \<Rightarrow> string" where
  "skip s = dropWhile (\<lambda>c. c = CHR '' '') s"

text \<open>
  An expression, the elements of a list display after its bracket, the items of a
  dictionary display after its brace. A display may end with a comma. After an element
  only a comma or the closing bracket is read. The first argument bounds the number of
  nested calls; \<open>ast_parse\<close> allows two for every character of the text.
\<close>

fun parse_expr :: "nat \<Rightarrow> string \<Rightarrow> (expr \<times> string) option"
  and parse_elts :: "nat \<Rightarrow> string \<Rightarrow> (expr list \<times> string) option"
  and parse_items :: "nat \<Rightarrow> string \<Rightarrow> ((expr \<times> expr) list \<times> string) option" where
  "parse_expr 0 s = None"
| "parse_expr (Suc n) s =
     (case skip s of
        [] \<Rightarrow> None
      | c # t \<Rightarrow>
          if c = CHR ''['' then map_option (apfst ListE) (parse_elts n t)
          else if c = CHR ''{'' then map_option (apfst DictE) (parse_items n t)
          else if c = CHR ''-'' then map_option (apfst USub) (parse_expr n t)
          else if c = CHR 0x27 \<or> c = CHR 0x22 then read_string c t
          else if is_digit c then read_number (c # t)
          else if is_ident c then read_name (c # t)
          else None)"
| "parse_elts 0 s = None"
| "parse_elts (Suc n) s =
     (case skip s of
        [] \<Rightarrow> None
      | c # t \<Rightarrow>
          if c = CHR '']'' then Some ([], t)
          else
            (case parse_expr n (c # t) of
               None \<Rightarrow> None
             | Some (e, r) \<Rightarrow>
                 (case skip r of
                    [] \<Rightarrow> None
                  | d # u \<Rightarrow>
                      if d = CHR '','' then map_option (apfst ((#) e)) (parse_elts n u)
                      else if d = CHR '']'' then Some ([e], u)
                      else None)))"
| "parse_items 0 s = None"
| "parse_items (Suc n) s =
     (case skip s of
        [] \<Rightarrow> None
      | c # t \<Rightarrow>
          if c = CHR ''}'' then Some ([], t)
          else
            (case parse_expr n (c # t) of
               None \<Rightarrow> None
             | Some (k, r) \<Rightarrow>
                 (case skip r of
                    [] \<Rightarrow> None
                  | d # u \<Rightarrow>
                      if d = CHR '':'' then
                        (case parse_expr n u of
                           None \<Rightarrow> None
                         | Some (v, r') \<Rightarrow>
                             (case skip r' of
                                [] \<Rightarrow> None
                              | f # w \<Rightarrow>
                                  if f = CHR '','' then map_option (apfst ((#) (k, v))) (parse_items n w)
                                  else if f = CHR ''}'' then Some ([(k, v)], w)
                                  else None))
                      else None)))"

text \<open>The whole text is one expression; spaces may follow it.\<close>

definition ast_parse :: "string \<Rightarrow> expr option" where
  "ast_parse s =
     (case parse_expr (2 * length s + 2) s of
        None \<Rightarrow> None
      | Some (e, r) \<Rightarrow> if skip r = [] then Some e else None)"

subsection \<open>The conversion of the syntax tree\<close>

text \<open>
  \<open>dict(zip(keys, values))\<close>: the pairs are entered one by one; a key that is there
  already keeps its place and takes the new value.
\<close>

definition dict_set :: "(string \<times> 'a) list \<Rightarrow> string \<Rightarrow> 'a \<Rightarrow> (string \<times> 'a) list" where
  "dict_set d k v =
     (if k \<in> fst ` set d then map (\<lambda>p. if fst p = k then (k, v) else p) d else d @ [(k, v)])"

definition dict_of :: "(string \<times> 'a) list \<Rightarrow> (string \<times> 'a) list" where
  "dict_of kvs = foldl (\<lambda>d p. dict_set d (fst p) (snd p)) [] kvs"

text \<open>
  \<open>_convert\<close> of \<open>ast.literal_eval\<close>: a constant is its value; a unary minus is taken
  of an integer or float constant only; a list or dictionary display converts its parts
  from left to right, key before value; every other node, so every name, raises
  \<open>ValueError\<close> (malformed node or string). \<open>None\<close> is returned for a dictionary with a
  key that is not a string, which the model does not hold.
\<close>

function convert :: "expr \<Rightarrow> (py_error + py_val) option"
  and convert_elts :: "expr list \<Rightarrow> (py_error + py_val list) option"
  and convert_items :: "(expr \<times> expr) list \<Rightarrow> (py_error + (string \<times> py_val) list) option" where
  "convert (Constant c) = Some (Inr c)"
| "convert (Name n) = Some (Inl ValueError)"
| "convert (USub e) =
     (case e of
        Constant (PyInt i) \<Rightarrow> Some (Inr (PyInt (- i)))
      | Constant (PyFloat x) \<Rightarrow> Some (Inr (PyFloat (np_neg x)))
      | _ \<Rightarrow> Some (Inl ValueError))"
| "convert (ListE es) = map_option (map_sum id PyList) (convert_elts es)"
| "convert (DictE kvs) = map_option (map_sum id (\<lambda>items. PyDict (dict_of items))) (convert_items kvs)"
| "convert_elts [] = Some (Inr [])"
| "convert_elts (e # es) =
     (case convert e of
        None \<Rightarrow> None
      | Some (Inl x) \<Rightarrow> Some (Inl x)
      | Some (Inr v) \<Rightarrow> map_option (map_sum id ((#) v)) (convert_elts es))"
| "convert_items [] = Some (Inr [])"
| "convert_items ((ke, ve) # r) =
     (case convert ke of
        None \<Rightarrow> None
      | Some (Inl x) \<Rightarrow> Some (Inl x)
      | Some (Inr k) \<Rightarrow>
          (case convert ve of
             None \<Rightarrow> None
           | Some (Inl x) \<Rightarrow> Some (Inl x)
           | Some (Inr v) \<Rightarrow>
               (case k of
                  PyStr s \<Rightarrow> map_option (map_sum id ((#) (s, v))) (convert_items r)
                | _ \<Rightarrow> None)))"
  by pat_completeness auto

termination
  by (relation "measure (\<lambda>x. case x of
        Inl e \<Rightarrow> size e
      | Inr (Inl es) \<Rightarrow> size_list size es
      | Inr (Inr kvs) \<Rightarrow> size_list (size_prod size size) kvs)") auto

text \<open>
  \<open>ast.literal_eval(text)\<close>: the value, or the exception of the conversion; \<open>None\<close> for
  a text outside the fragment.
\<close>

definition literal_eval :: "string \<Rightarrow> (py_error + py_val) option" where
  "literal_eval s = (case ast_parse s of None \<Rightarrow> None | Some e \<Rightarrow> convert e)"

section \<open>The S4 spectra notebook\<close>

text \<open>
  The dictionaries \<open>light\<close>, \<open>struct\<close> and \<open>s4\<close> of the notebook. \<open>pol\<close> is the list of
  the s and p amplitudes.
\<close>

record light_cfg =
  wl_min :: real
  wl_max :: real
  n_wl :: int
  theta :: real
  phi :: real

record s4_light = light_cfg +
  pol :: "real list"
  NumBasis :: int

record s4_struct = mat_struct +
  materials_stack :: "string list"

record s4_opts =
  PolarizationDecomposition :: bool
  PolarizationBasis :: string

text \<open>
  The simulation object \<open>S\<close>: what the calls of the notebook set on it. \<open>layer_list\<close>
  holds name, thickness and material of each layer, \<open>regions\<close> the circles.
\<close>

record s4_sim =
  lattice :: "(real \<times> real) \<times> (real \<times> real)"
  num_basis :: int
  materials :: "string \<rightharpoonup> complex"
  layer_list :: "(string \<times> real \<times> string) list"
  regions :: "(string \<times> string \<times> (real \<times> real) \<times> real) list"
  excitation :: "(real \<times> real) \<times> complex \<times> complex"
  frequency :: npfloat
  options :: "bool \<times> string"

text \<open>
  What the notebook calls and does not define: \<open>utils.db_to_eps(wl, eps_db, names)\<close>, the
  permittivities of the named materials at a wavelength, and \<open>S.GetPowerFlux(Layer, zOffset)\<close>,
  the forward and backward power flux that S4 computes from the state of \<open>S\<close>.
\<close>

record s4_ext =
  db_to_eps :: "real \<Rightarrow> string list \<Rightarrow> py_error + complex list"
  GetPowerFlux :: "s4_sim \<Rightarrow> string \<Rightarrow> real \<Rightarrow> py_error + (complex \<times> complex)"

text \<open>The cell that builds \<open>S\<close>; the only reader of \<open>light["pol"]\<close>.\<close>

definition s4_build ::
  "s4_ext \<Rightarrow> 'l s4_light_scheme \<Rightarrow> 's s4_struct_scheme \<Rightarrow> s4_opts \<Rightarrow> py_error + s4_sim" where
  "s4_build ext light struct s4 =
     bind_err (db_to_eps ext (wl_min light) (materials_stack struct)) (\<lambda>e_list.
     bind_err (py_get e_list 0) (\<lambda>e0.
     bind_err (py_get e_list 1) (\<lambda>e1.
     bind_err (py_get (pol light) 0) (\<lambda>pol0.
     bind_err (py_get (pol light) 1) (\<lambda>pol1.
     bind_err (py_float_div 1 (wl_min light)) (\<lambda>freq.
     Inr \<lparr>lattice = ((nd_period_x struct, 0), (0, nd_period_y struct)),
          num_basis = NumBasis light,
          materials = [''Air'' \<mapsto> e0, ''Au'' \<mapsto> e1],
          layer_list = [(''Inc'', 0, ''Air''), (''Slab'', nd_height struct, ''Air''),
                        (''Sub'', 0, ''Air'')],
          regions = [(''Slab'', ''Au'', (0, 0), nd_radius struct)],
          excitation = ((theta light, phi light), of_real pol0, of_real pol1),
          frequency = Fin freq,
          options = (PolarizationDecomposition s4, PolarizationBasis s4)\<rparr>))))))"

text \<open>
  \<open>rta(wl)\<close>, first half: the new incident wave, the frequency and the materials at
  \<open>wl\<close> are set on \<open>S\<close>.
\<close>

definition rta_setup ::
  "s4_ext \<Rightarrow> 'l light_cfg_scheme \<Rightarrow> 's s4_struct_scheme \<Rightarrow> s4_sim \<Rightarrow> real \<Rightarrow> py_error + s4_sim" where
  "rta_setup ext light struct S wl =
     (let S1 = S\<lparr>excitation :=
                  ((theta light, phi light), of_real (1 / sqrt 2), - \<i> / of_real (sqrt 2))\<rparr>;
          S2 = S1\<lparr>frequency := np_div (Fin 1) (Fin wl)\<rparr>
      in bind_err (db_to_eps ext wl (materials_stack struct)) (\<lambda>e_list.
         bind_err (py_get e_list 0) (\<lambda>e0.
         bind_err (py_get e_list 1) (\<lambda>e1.
         Inr (S2\<lparr>materials := (materials S2)(''Air'' \<mapsto> e0, ''Au'' \<mapsto> e1)\<rparr>)))))"

text \<open>
  \<open>rta(wl)\<close>, second half: the power fluxes in the incident medium and in the substrate,
  and from them R, T and A. \<open>A = 1 - R - T\<close> is two subtractions of floats, each
  rounded.
\<close>

definition rta_fluxes :: "s4_ext \<Rightarrow> s4_sim \<Rightarrow> py_error + (real \<times> real \<times> real)" where
  "rta_fluxes ext S =
     bind_err (GetPowerFlux ext S ''Inc'' 0) (\<lambda>(forw_1, back_1).
     bind_err (GetPowerFlux ext S ''Sub'' 0) (\<lambda>(forw_2, back_2).
     bind_err (np_abs_div back_1 forw_1) (\<lambda>R.
     bind_err (np_abs_div forw_2 forw_1) (\<lambda>T.
     (let A = float64 (float64 (1 - R) - T) in Inr (R, T, A))))))"

text \<open>\<open>rta(wl)\<close>: the returned triple, and \<open>S\<close> as the call leaves it.\<close>

definition rta ::
  "s4_ext \<Rightarrow> 'l light_cfg_scheme \<Rightarrow> 's s4_struct_scheme \<Rightarrow> s4_sim \<Rightarrow> real
     \<Rightarrow> py_error + ((real \<times> real \<times> real) \<times> s4_sim)" where
  "rta ext light struct S wl =
     bind_err (rta_setup ext light struct S wl) (\<lambda>S'.
     bind_err (rta_fluxes ext S') (\<lambda>res. Inr (res, S')))"

text \<open>
  \<open>v_R, v_T, v_A = np.array(rows).T\<close>: the rows are triples, so the array has three
  columns and its transpose unpacks into three arrays; with no row the array is empty and
  the unpacking raises \<open>ValueError\<close>.
\<close>

definition unpack_columns ::
  "('a \<times> 'a \<times> 'a) list \<Rightarrow> py_error + ('a list \<times> 'a list \<times> 'a list)" where
  "unpack_columns rows =
     (if rows = [] then Inl ValueError
      else Inr (map fst rows, map (\<lambda>r. fst (snd r)) rows, map (\<lambda>r. snd (snd r)) rows))"

text \<open>
  The sweep cell on the wavelengths \<open>v_wl\<close>. Each worker holds its own copy of \<open>S\<close>; what
  a call leaves on that copy is overwritten by the next call before it is read (lemma
  \<open>rta_after_rta\<close>), so every call is evaluated on \<open>S\<close> as the build cell left it.
\<close>

definition s4_sweep ::
  "s4_ext \<Rightarrow> 'l light_cfg_scheme \<Rightarrow> 's s4_struct_scheme \<Rightarrow> s4_sim \<Rightarrow> real list
     \<Rightarrow> py_error + (real list \<times> real list \<times> real list)" where
  "s4_sweep ext light struct S v_wl =
     bind_err (executor_map (\<lambda>wl. bind_err (rta ext light struct S wl) (\<lambda>r. Inr (fst r))) v_wl)
       unpack_columns"

text \<open>
  The labelled array that a notebook saves. Its attributes are texts, each under the key
  that the notebook gives it.
\<close>

record 'v data_array =
  da_path :: string
  da_values :: "'v list list"
  da_wavelength :: "real list"
  da_spectrum :: "string list"
  da_attrs :: "(string \<times> string) list"

text \<open>
  The three dictionaries of the notebook as Python values, the keys in the order in which
  the input cell enters them.
\<close>

definition s4_light_dict :: "s4_light \<Rightarrow> py_val" where
  "s4_light_dict light =
     PyDict [(''wl_min'', PyFloat (Fin (wl_min light))), (''wl_max'', PyFloat (Fin (wl_max light))),
             (''n_wl'', PyInt (n_wl light)), (''theta'', PyFloat (Fin (theta light))),
             (''phi'', PyFloat (Fin (phi light))),
             (''pol'', PyList (map (\<lambda>x. PyFloat (Fin x)) (pol light))),
             (''NumBasis'', PyInt (NumBasis light))]"

definition s4_struct_dict :: "s4_struct \<Rightarrow> py_val" where
  "s4_struct_dict struct =
     PyDict [(''inc_shape'', PyStr (inc_shape struct)),
             (''nd_radius'', PyFloat (Fin (nd_radius struct))),
             (''nd_height'', PyFloat (Fin (nd_height struct))),
             (''nd_period_x'', PyFloat (Fin (nd_period_x struct))),
             (''nd_period_y'', PyFloat (Fin (nd_period_y struct))),
             (''nd_inc_mat'', PyStr (nd_inc_mat struct)),
             (''nd_back_mat'', PyStr (nd_back_mat struct)),
             (''sub_mat'', PyStr (sub_mat struct)), (''sup_mat'', PyStr (sup_mat struct)),
             (''materials_stack'', PyList (map PyStr (materials_stack struct)))]"

definition s4_opts_dict :: "s4_opts \<Rightarrow> py_val" where
  "s4_opts_dict s4 =
     PyDict [(''PolarizationDecomposition'', PyBool (PolarizationDecomposition s4)),
             (''PolarizationBasis'', PyStr (PolarizationBasis s4))]"

text \<open>\<open>np.column_stack((v_R, v_T, v_A))\<close> for three arrays of one length.\<close>

definition column_stack :: "'a list \<Rightarrow> 'a list \<Rightarrow> 'a list \<Rightarrow> 'a list list" where
  "column_stack v_R v_T v_A = map (\<lambda>(r, t, a). [r, t, a]) (zip v_R (zip v_T v_A))"

text \<open>The whole notebook: the wavelengths, \<open>S\<close>, the sweep, the saved array.\<close>

definition s4_spectra ::
  "s4_ext \<Rightarrow> (real \<Rightarrow> string) \<Rightarrow> s4_light \<Rightarrow> s4_struct \<Rightarrow> s4_opts \<Rightarrow> datetime
     \<Rightarrow> py_error + real data_array" where
  "s4_spectra ext py_str light struct s4 now =
     bind_err (linspace (wl_min light) (wl_max light) (n_wl light)) (\<lambda>v_wl.
     bind_err (s4_build ext light struct s4) (\<lambda>S.
     bind_err (s4_sweep ext light struct S v_wl) (\<lambda>(v_R, v_T, v_A).
     Inr \<lparr>da_path = s4_spectra_path py_str struct now,
          da_values = column_stack v_R v_T v_A,
          da_wavelength = v_wl,
          da_spectrum = [''R'', ''T'', ''A''],
          da_attrs = [(''light'', py_repr py_str (s4_light_dict light)),
                      (''struct'', py_repr py_str (s4_struct_dict struct)),
                      (''s4'', py_repr py_str (s4_opts_dict s4))]\<rparr>)))"

section \<open>The EMUstack notebooks\<close>

text \<open>
  The keys of \<open>light\<close> in the two EMUstack spectra notebooks together: the single-angle
  notebook reads \<open>theta\<close> and \<open>pol\<close> (here \<open>pol_mode\<close>, a polarization name), the
  wavelength-angle notebook reads the three \<open>theta_\<close> keys.
\<close>

record emu_light = light_cfg +
  theta_min :: real
  theta_max :: real
  n_theta :: int
  pol_mode :: string
  max_order_PWs :: int

text \<open>The rest of \<open>struct\<close>, and the dictionary \<open>emu\<close>, in the EMUstack notebooks.\<close>

record emu_struct = mat_struct +
  periodicity :: string
  nd_loss :: bool
  sub_loss :: bool
  sup_loss :: bool

record emu_opts =
  plotting_fields :: bool
  make_mesh_now :: bool
  force_mesh :: bool
  lc_bkg :: real
  lc2 :: real
  lc3 :: real

text \<open>\<open>objects.Light(wl, max_order_PWs=..., theta=..., phi=...)\<close>\<close>

datatype light_obj = Light real int real real

text \<open>The three layer objects that the notebooks initialise from \<open>struct\<close>, \<open>mats\<close>, \<open>emu\<close>.\<close>

datatype layer_obj = NDs | superstrate | substrate

text \<open>
  A \<open>Stack\<close> object: its solved layers, and what \<open>calc_scat\<close> last left on it, the
  polarization solved for and the three flux lists.
\<close>

record 'm stack =
  layers :: "'m list"
  scat_pol :: "string option"
  a_list :: "npfloat list"
  t_list :: "npfloat list"
  r_list :: "npfloat list"

text \<open>
  What the notebooks call of EMUstack: \<open>calc_modes\<close> of a layer object, the scattering
  computation behind \<open>Stack.calc_scat\<close> (from the solved layers and the polarization to
  the lists \<open>a_list\<close>, \<open>t_list\<close>, \<open>r_list\<close>),
  \<open>plotting.fields_interpolator_in_plane\<close>, of which the model keeps the last
  component, the interpolator \<open>AbsE\<close> of the field magnitude, evaluated point by point,
  and \<open>repr\<close> of the material object \<open>materials.Au\<close> or \<open>materials.Air\<close>, by its
  name.
\<close>

record 'm emu_ext =
  calc_modes :: "layer_obj \<Rightarrow> light_obj \<Rightarrow> py_error + 'm"
  scat_fluxes :: "'m list \<Rightarrow> string \<Rightarrow> py_error + (npfloat list \<times> npfloat list \<times> npfloat list)"
  fields_interpolator_in_plane :: "'m stack \<Rightarrow> int \<Rightarrow> real \<Rightarrow> py_error + (real \<Rightarrow> real \<Rightarrow> real)"
  material_repr :: "string \<Rightarrow> string"

definition Stack :: "'m list \<Rightarrow> 'm stack" where
  "Stack ls = \<lparr>layers = ls, scat_pol = None, a_list = [], t_list = [], r_list = []\<rparr>"

text \<open>\<open>stack.calc_scat(pol = pol)\<close>: the stack with the new solution on it.\<close>

definition calc_scat :: "'m emu_ext \<Rightarrow> 'm stack \<Rightarrow> string \<Rightarrow> py_error + 'm stack" where
  "calc_scat ext stk p =
     bind_err (scat_fluxes ext (layers stk) p) (\<lambda>(a, t, r).
     Inr (stk\<lparr>scat_pol := Some p, a_list := a, t_list := t, r_list := r\<rparr>))"

definition simulate_stack :: "'m emu_ext \<Rightarrow> light_obj \<Rightarrow> py_error + 'm stack" where
  "simulate_stack ext light =
     bind_err (calc_modes ext NDs light) (\<lambda>sim_NDs.
     bind_err (calc_modes ext superstrate light) (\<lambda>sim_superstrate.
     bind_err (calc_modes ext substrate light) (\<lambda>sim_substrate.
     Inr (Stack [sim_substrate, sim_NDs, sim_superstrate]))))"

text \<open>
  \<open>rta_spectra\<close>, first loop: \<open>calc_scat\<close> on every stack, its three lists appended to
  the running lists. The stacks keep the lists of this call; the next call of
  \<open>calc_scat\<close> replaces them before they are read.
\<close>

fun collect_scat ::
  "'m emu_ext \<Rightarrow> string \<Rightarrow> 'm stack list
     \<Rightarrow> py_error + (npfloat list \<times> npfloat list \<times> npfloat list)" where
  "collect_scat ext p [] = Inr ([], [], [])"
| "collect_scat ext p (stk # rest) =
     bind_err (calc_scat ext stk p) (\<lambda>stk'.
     bind_err (collect_scat ext p rest) (\<lambda>(a, t, r).
     Inr (a_list stk' @ a, t_list stk' @ t, r_list stk' @ r)))"

text \<open>
  \<open>rta_spectra\<close>, second loop, over \<open>range(len(stacks_list))\<close>: entry \<open>i\<close> of the totals
  is read at \<open>layers_steps-1+(i*layers_steps)\<close> of the collected absorption and
  transmission lists and at \<open>i\<close> of the reflection list.
\<close>

fun extract_totals ::
  "'a list \<Rightarrow> 'a list \<Rightarrow> 'a list \<Rightarrow> int \<Rightarrow> nat list \<Rightarrow> py_error + ('a list \<times> 'a list \<times> 'a list)" where
  "extract_totals a_all t_all r_all layers_steps [] = Inr ([], [], [])"
| "extract_totals a_all t_all r_all layers_steps (i # rest) =
     bind_err (py_get a_all (layers_steps - 1 + int i * layers_steps)) (\<lambda>a.
     bind_err (py_get t_all (layers_steps - 1 + int i * layers_steps)) (\<lambda>t.
     bind_err (py_get r_all (int i)) (\<lambda>r.
     bind_err (extract_totals a_all t_all r_all layers_steps rest) (\<lambda>(a_tot, t_tot, r_tot).
     Inr (a # a_tot, t # t_tot, r # r_tot)))))"

text \<open>\<open>rta_spectra(stacks_list, pol)\<close> returns the arrays \<open>r_tot, t_tot, a_tot\<close>.\<close>

definition rta_spectra ::
  "'m emu_ext \<Rightarrow> 'm stack list \<Rightarrow> string
     \<Rightarrow> py_error + (npfloat list \<times> npfloat list \<times> npfloat list)" where
  "rta_spectra ext stacks_list p =
     bind_err (collect_scat ext p stacks_list) (\<lambda>(a_all, t_all, r_all).
     bind_err (py_get stacks_list 0) (\<lambda>stack0.
     bind_err (extract_totals a_all t_all r_all (int (length (layers stack0)) - 1)
                 [0..<length stacks_list]) (\<lambda>(a_tot, t_tot, r_tot).
     Inr (r_tot, t_tot, a_tot))))"

text \<open>The list of incident-light objects, one per wavelength, at one angle.\<close>

definition light_list :: "'l emu_light_scheme \<Rightarrow> real \<Rightarrow> real list \<Rightarrow> light_obj list" where
  "light_list light th v_wl = map (\<lambda>wl. Light wl (max_order_PWs light) th (phi light)) v_wl"

subsection \<open>The single-angle spectra notebook\<close>

definition emu_sweep ::
  "'m emu_ext \<Rightarrow> 'l emu_light_scheme \<Rightarrow> real list
     \<Rightarrow> py_error + (npfloat list \<times> npfloat list \<times> npfloat list)" where
  "emu_sweep ext light v_wl =
     bind_err (executor_map (simulate_stack ext) (light_list light (theta light) v_wl))
       (\<lambda>stacks_list. rta_spectra ext stacks_list (pol_mode light))"

text \<open>
  The dictionaries \<open>light\<close>, \<open>struct\<close> and \<open>emu\<close> of this notebook as Python values, the
  keys in the order in which the input cell enters them, and \<open>str(mats)\<close>, the
  dictionary of the two material objects.
\<close>

definition emu_light_dict :: "emu_light \<Rightarrow> py_val" where
  "emu_light_dict light =
     PyDict [(''wl_min'', PyFloat (Fin (wl_min light))), (''wl_max'', PyFloat (Fin (wl_max light))),
             (''n_wl'', PyInt (n_wl light)), (''theta'', PyFloat (Fin (theta light))),
             (''phi'', PyFloat (Fin (phi light))), (''pol'', PyStr (pol_mode light)),
             (''max_order_PWs'', PyInt (max_order_PWs light))]"

definition emu_struct_dict :: "emu_struct \<Rightarrow> py_val" where
  "emu_struct_dict struct =
     PyDict [(''periodicity'', PyStr (periodicity struct)),
             (''inc_shape'', PyStr (inc_shape struct)),
             (''nd_radius'', PyFloat (Fin (nd_radius struct))),
             (''nd_height'', PyFloat (Fin (nd_height struct))),
             (''nd_period_x'', PyFloat (Fin (nd_period_x struct))),
             (''nd_period_y'', PyFloat (Fin (nd_period_y struct))),
             (''nd_inc_mat'', PyStr (nd_inc_mat struct)),
             (''nd_back_mat'', PyStr (nd_back_mat struct)),
             (''nd_loss'', PyBool (nd_loss struct)),
             (''sub_mat'', PyStr (sub_mat struct)), (''sup_mat'', PyStr (sup_mat struct)),
             (''sub_loss'', PyBool (sub_loss struct)), (''sup_loss'', PyBool (sup_loss struct))]"

definition emu_opts_dict :: "emu_opts \<Rightarrow> py_val" where
  "emu_opts_dict emu =
     PyDict [(''plotting_fields'', PyBool (plotting_fields emu)),
             (''make_mesh_now'', PyBool (make_mesh_now emu)),
             (''force_mesh'', PyBool (force_mesh emu)),
             (''lc_bkg'', PyFloat (Fin (lc_bkg emu))), (''lc2'', PyFloat (Fin (lc2 emu))),
             (''lc3'', PyFloat (Fin (lc3 emu)))]"

definition str_mats :: "'m emu_ext \<Rightarrow> string" where
  "str_mats ext =
     ''{'' @ commas [repr_str ''Au'' @ '': '' @ material_repr ext ''Au'',
                     repr_str ''Air'' @ '': '' @ material_repr ext ''Air''] @ ''}''"

definition emu_spectra ::
  "'m emu_ext \<Rightarrow> (real \<Rightarrow> string) \<Rightarrow> emu_light \<Rightarrow> emu_struct \<Rightarrow> emu_opts \<Rightarrow> datetime
     \<Rightarrow> py_error + npfloat data_array" where
  "emu_spectra ext py_str light struct emu now =
     bind_err (linspace (wl_min light) (wl_max light) (n_wl light)) (\<lambda>v_wl.
     bind_err (emu_sweep ext light v_wl) (\<lambda>(v_R, v_T, v_A).
     Inr \<lparr>da_path = emu_spectra_path py_str struct now,
          da_values = column_stack v_R v_T v_A,
          da_wavelength = v_wl,
          da_spectrum = [''R'', ''T'', ''A''],
          da_attrs = [(''light'', py_repr py_str (emu_light_dict light)),
                      (''struct'', py_repr py_str (emu_struct_dict struct)),
                      (''emu'', py_repr py_str (emu_opts_dict emu)),
                      (''mats'', str_mats ext)]\<rparr>))"

subsection \<open>The data-exploration notebook\<close>

text \<open>
  \<open>ast.literal_eval(da.key)\<close> on a loaded array, for instance
  \<open>ast.literal_eval(emu_spectra.light)\<close>. The netCDF file keeps the attribute texts as
  they were attached, so the loaded array is taken to be the saved one. An attribute that
  is not there raises \<open>AttributeError\<close>.
\<close>

definition literal_attr :: "'v data_array \<Rightarrow> string \<Rightarrow> (py_error + py_val) option" where
  "literal_attr da key =
     (case map_of (da_attrs da) key of
        None \<Rightarrow> Some (Inl AttributeError)
      | Some s \<Rightarrow> literal_eval s)"

subsection \<open>The wavelength-angle notebook and its text table\<close>

text \<open>
  What the notebook has passed to \<open>f.write\<close>: the header block, a data row (wavelength,
  angle, azimuth and the fifteen spectral values of the row; the number formatting is not
  modelled), the final newline.
\<close>

datatype chunk = Header | Row real real real "npfloat list" | Newline

text \<open>\<open>(v_l - v_r) / (v_l + v_r)\<close> on two arrays.\<close>

definition np_cd :: "npfloat list \<Rightarrow> npfloat list \<Rightarrow> py_error + npfloat list" where
  "np_cd v_l v_r =
     bind_err (np_binop np_sub v_l v_r) (\<lambda>d.
     bind_err (np_binop np_add v_l v_r) (\<lambda>s.
     np_binop np_div d s))"

text \<open>
  The fifteen arrays of one angle in the order of the columns of a row: the four calls of
  \<open>rta_spectra\<close>, then the three dichroism arrays.
\<close>

definition angle_columns :: "'m emu_ext \<Rightarrow> 'm stack list \<Rightarrow> py_error + npfloat list list" where
  "angle_columns ext stacks_list =
     bind_err (rta_spectra ext stacks_list ''TE'') (\<lambda>(v_R_te, v_T_te, v_A_te).
     bind_err (rta_spectra ext stacks_list ''TM'') (\<lambda>(v_R_tm, v_T_tm, v_A_tm).
     bind_err (rta_spectra ext stacks_list ''R Circ'') (\<lambda>(v_R_r, v_T_r, v_A_r).
     bind_err (rta_spectra ext stacks_list ''L Circ'') (\<lambda>(v_R_l, v_T_l, v_A_l).
     bind_err (np_cd v_R_l v_R_r) (\<lambda>v_R_cd.
     bind_err (np_cd v_T_l v_T_r) (\<lambda>v_T_cd.
     bind_err (np_cd v_A_l v_A_r) (\<lambda>v_A_cd.
     Inr [v_R_te, v_T_te, v_A_te, v_R_tm, v_T_tm, v_A_tm, v_R_cd, v_T_cd, v_A_cd,
          v_R_r, v_T_r, v_A_r, v_R_l, v_T_l, v_A_l])))))))"

text \<open>The loop over \<open>enumerate(v_wl)\<close> that writes one row per wavelength.\<close>

fun write_rows ::
  "npfloat list list \<Rightarrow> real \<Rightarrow> real \<Rightarrow> (nat \<times> real) list \<Rightarrow> chunk list
     \<Rightarrow> py_error option \<times> chunk list" where
  "write_rows cols th ph [] f = (None, f)"
| "write_rows cols th ph ((i_wl, wl) # rest) f =
     (case traverse (\<lambda>v. py_get v (int i_wl)) cols of
        Inl e \<Rightarrow> (Some e, f)
      | Inr vals \<Rightarrow> write_rows cols th ph rest (f @ [Row wl th ph vals]))"

text \<open>One angle up to the loop that writes: the stacks from the pool, then the arrays.\<close>

definition angle_tables ::
  "'m emu_ext \<Rightarrow> 'l emu_light_scheme \<Rightarrow> real list \<Rightarrow> real \<Rightarrow> py_error + npfloat list list" where
  "angle_tables ext light v_wl th =
     bind_err (executor_map (simulate_stack ext) (light_list light th v_wl)) (angle_columns ext)"

text \<open>The body of the loop over the angles: what has been written when it ends or raises.\<close>

definition theta_step ::
  "'m emu_ext \<Rightarrow> 'l emu_light_scheme \<Rightarrow> real list \<Rightarrow> real \<Rightarrow> chunk list
     \<Rightarrow> py_error option \<times> chunk list" where
  "theta_step ext light v_wl th f =
     (case angle_tables ext light v_wl th of
        Inl e \<Rightarrow> (Some e, f)
      | Inr cols \<Rightarrow> write_rows cols th (phi light) (enumerate 0 v_wl) f)"

fun theta_loop ::
  "'m emu_ext \<Rightarrow> 'l emu_light_scheme \<Rightarrow> real list \<Rightarrow> real list \<Rightarrow> chunk list
     \<Rightarrow> py_error option \<times> chunk list" where
  "theta_loop ext light v_wl [] f = (None, f)"
| "theta_loop ext light v_wl (th # rest) f =
     (case theta_step ext light v_wl th f of
        (Some e, f') \<Rightarrow> (Some e, f')
      | (None, f') \<Rightarrow> theta_loop ext light v_wl rest f')"

text \<open>
  The notebook from the wavelength vector to \<open>f.close()\<close>: the exception that ended the
  run, if any, and everything written to the text table. The table is opened, and its
  header written, after the wavelength vector is built and before the angles are.
\<close>

definition emu_theta_sweep ::
  "'m emu_ext \<Rightarrow> 'l emu_light_scheme \<Rightarrow> py_error option \<times> chunk list" where
  "emu_theta_sweep ext light =
     (case linspace (wl_min light) (wl_max light) (n_wl light) of
        Inl e \<Rightarrow> (Some e, [])
      | Inr v_wl \<Rightarrow>
          (case linspace (theta_min light) (theta_max light) (n_theta light) of
             Inl e \<Rightarrow> (Some e, [Header])
           | Inr v_theta \<Rightarrow>
               (case theta_loop ext light v_wl v_theta [Header] of
                  (Some e, f) \<Rightarrow> (Some e, f)
                | (None, f) \<Rightarrow> (None, f @ [Newline]))))"

text \<open>
  The rows that a completed angle adds to the table: row \<open>i_wl\<close> holds entry \<open>i_wl\<close> of
  each of the fifteen arrays. \<open>angle_rows_of\<close> are the rows of an angle from the solver's
  answers, none when the angle raises.
\<close>

definition angle_rows :: "npfloat list list \<Rightarrow> real \<Rightarrow> real \<Rightarrow> real list \<Rightarrow> chunk list" where
  "angle_rows cols th ph v_wl =
     map (\<lambda>(i_wl, wl). Row wl th ph (map (\<lambda>c. c ! i_wl) cols)) (enumerate 0 v_wl)"

definition angle_rows_of ::
  "'m emu_ext \<Rightarrow> 'l emu_light_scheme \<Rightarrow> real list \<Rightarrow> real \<Rightarrow> chunk list" where
  "angle_rows_of ext light v_wl th =
     (case angle_tables ext light v_wl th of
        Inl e \<Rightarrow> []
      | Inr cols \<Rightarrow> angle_rows cols th (phi light) v_wl)"

text \<open>The data rows among what was written.\<close>

fun is_row :: "chunk \<Rightarrow> bool" where
  "is_row (Row wl th ph vals) = True"
| "is_row c = False"

definition data_rows :: "chunk list \<Rightarrow> chunk list" where
  "data_rows f = filter is_row f"

subsection \<open>The local-field notebook\<close>

text \<open>\<open>a.reshape(r, c)\<close> of a one-dimensional array: \<open>ValueError\<close> unless it has \<open>r * c\<close> entries.\<close>

definition np_reshape :: "'a list \<Rightarrow> nat \<Rightarrow> nat \<Rightarrow> py_error + 'a list list" where
  "np_reshape a r c =
     (if length a = r * c then Inr (map (\<lambda>i. take c (drop (i * c) a)) [0..<r])
      else Inl ValueError)"

text \<open>
  The two nested loops over \<open>x\<close> and \<open>y\<close> that fill \<open>v_x\<close> and \<open>v_y\<close>: the grid
  points in the order of the running index \<open>i\<close>.
\<close>

definition lf_grid :: "real list \<Rightarrow> real list \<Rightarrow> (real \<times> real) list" where
  "lf_grid xs ys = concat (map (\<lambda>x. map (\<lambda>y. (x, y)) ys) xs)"

text \<open>
  \<open>lf(stack, pol, z, n_points, lay_interest)\<close>. The body passes the literal
  \<open>lay_interest=1\<close> to the interpolator and assigns \<open>n_points = 500\<close> before the first
  use of \<open>n_points\<close>. The float division in \<open>y_min\<close> raises on a zero period.
\<close>

definition lf ::
  "'m emu_ext \<Rightarrow> 's struct_cfg_scheme \<Rightarrow> 'm stack \<Rightarrow> string \<Rightarrow> real \<Rightarrow> int \<Rightarrow> int
     \<Rightarrow> py_error + real list list" where
  "lf ext struct stk p z n_points lay_interest =
     bind_err (calc_scat ext stk p) (\<lambda>stk'.
     bind_err (fields_interpolator_in_plane ext stk' 1 z) (\<lambda>AbsE.
     (let n_points' = 500; x_min = 0; x_max = 1 in
      bind_err (py_float_div (nd_period_y struct) (nd_period_x struct)) (\<lambda>ratio.
      (let y_min = - ratio; y_max = 0 in
       bind_err (linspace x_min x_max n_points') (\<lambda>xs.
       bind_err (linspace y_min y_max n_points') (\<lambda>ys.
       (let grid = lf_grid xs ys; v_x = map fst grid; v_y = map snd grid in
        bind_err (np_reshape (map2 AbsE v_x v_y) (nat n_points') (nat n_points')) (\<lambda>m.
        Inr (transpose m))))))))))"

section \<open>Conditions on printed values\<close>

text \<open>
  The text that \<open>py_str\<close> prints for a finite float reads back as that float: it is a
  decimal number (after the sign of a negative float) whose nearest float is \<open>x\<close>. This
  is what Python documents of \<open>repr\<close> on floats (\<open>float(repr(x)) == x\<close>).
\<close>

definition float_text :: "(real \<Rightarrow> string) \<Rightarrow> real \<Rightarrow> bool" where
  "float_text py_str x =
     (case py_str x of
        [] \<Rightarrow> False
      | c # s \<Rightarrow>
          if c = CHR ''-'' then x < 0 \<and> read_number s = Some (Constant (PyFloat (Fin (- x))), [])
          else 0 \<le> x \<and> read_number (c # s) = Some (Constant (PyFloat (Fin x)), []))"

text \<open>
  A value without an infinity or not-a-number in it, whose finite floats print as above
  and whose dictionaries have no key twice (as every Python dictionary).
\<close>

fun literal_ok :: "(real \<Rightarrow> string) \<Rightarrow> py_val \<Rightarrow> bool" where
  "literal_ok py_str (PyFloat (Fin x)) = float_text py_str x"
| "literal_ok py_str (PyFloat y) = False"
| "literal_ok py_str (PyList vs) = list_all (literal_ok py_str) vs"
| "literal_ok py_str (PyDict kvs) =
     (distinct (map fst kvs) \<and> list_all (\<lambda>kv. literal_ok py_str (snd kv)) kvs)"
| "literal_ok py_str v = True"

text \<open>The syntax tree of the text of a value: a negative number is a unary minus.\<close>

fun ast_of :: "py_val \<Rightarrow> expr" where
  "ast_of (PyInt i) = (if i < 0 then USub (Constant (PyInt (- i))) else Constant (PyInt i))"
| "ast_of (PyFloat (Fin x)) =
     (if x < 0 then USub (Constant (PyFloat (Fin (- x)))) else Constant (PyFloat (Fin x)))"
| "ast_of (PyFloat PosInf) = Name ''inf''"
| "ast_of (PyFloat NegInf) = USub (Name ''inf'')"
| "ast_of (PyFloat NaN) = Name ''nan''"
| "ast_of (PyList vs) = ListE (map ast_of vs)"
| "ast_of (PyDict kvs) = DictE (map (\<lambda>kv. (Constant (PyStr (fst kv)), ast_of (snd kv))) kvs)"
| "ast_of v = Constant v"

text \<open>
  What may follow a value in a display (\<open>closes\<close>), what may follow a string
  (\<open>no_quote\<close>), and how the text of a value begins (\<open>opens\<close>).
\<close>

definition closes :: "string \<Rightarrow> bool" where
  "closes r = (case r of [] \<Rightarrow> True | c # t \<Rightarrow> c = CHR '','' \<or> c = CHR '']'' \<or> c = CHR ''}'')"

definition no_quote :: "string \<Rightarrow> bool" where
  "no_quote r = (case r of [] \<Rightarrow> True | c # t \<Rightarrow> c \<noteq> CHR 0x27 \<and> c \<noteq> CHR 0x22)"

definition opens :: "string \<Rightarrow> bool" where
  "opens s = (case s of [] \<Rightarrow> False | c # t \<Rightarrow> c \<noteq> CHR '' '' \<and> c \<noteq> CHR '']'' \<and> c \<noteq> CHR ''}'')"

section \<open>Conditions on the external solvers\<close>

text \<open>A call that returns rather than raises.\<close>

definition returns :: "py_error + 'a \<Rightarrow> bool" where
  "returns m = (case m of Inl e \<Rightarrow> False | Inr x \<Rightarrow> True)"

text \<open>
  EMUstack answers for one incident-light object and one polarization: the three layers
  are solved, the scattering computation returns, and its lists have the lengths that
  EMUstack gives them for a stack of three layers (two entries of absorption and of
  transmission, the last one the total, and one entry of reflection).
\<close>

definition sample_ok :: "'m emu_ext \<Rightarrow> string \<Rightarrow> light_obj \<Rightarrow> bool" where
  "sample_ok ext p l =
     (case simulate_stack ext l of
        Inl e \<Rightarrow> False
      | Inr stk \<Rightarrow>
          (case scat_fluxes ext (layers stk) p of
             Inl e \<Rightarrow> False
           | Inr (a, t, r) \<Rightarrow> length a = 2 \<and> length t = 2 \<and> length r = 1))"

text \<open>The four polarizations of the wavelength-angle notebook, in the order of its calls.\<close>

definition sweep_pols :: "string list" where
  "sweep_pols = [''TE'', ''TM'', ''R Circ'', ''L Circ'']"

definition angle_ok :: "'m emu_ext \<Rightarrow> 'l emu_light_scheme \<Rightarrow> real list \<Rightarrow> real \<Rightarrow> bool" where
  "angle_ok ext light v_wl th =
     list_all (\<lambda>p. list_all (sample_ok ext p) (light_list light th v_wl)) sweep_pols"

text \<open>
  The dichroism ratio of the specification, \<open>(L - R) / (L + R)\<close>, on one pair of values.
\<close>

definition cd_ratio :: "npfloat \<Rightarrow> npfloat \<Rightarrow> npfloat" where
  "cd_ratio l r = np_div (np_sub l r) (np_add l r)"

text \<open>Two calls of \<open>datetime.now()\<close> that fall within the same wall-clock second.\<close>

definition same_second :: "datetime \<Rightarrow> datetime \<Rightarrow> bool" where
  "same_second a b =
     (year a = year b \<and> month a = month b \<and> day a = day b
      \<and> hour a = hour b \<and> minute a = minute b \<and> second a = second b)"

text \<open>The configuration of the notebooks and the moment of one recorded run.\<close>

definition struct_nb :: struct_cfg where
  "struct_nb = \<lparr>inc_shape = ''circle'', nd_radius = 100, nd_height = 100,
                 nd_period_x = 600, nd_period_y = 600\<rparr>"

text \<open>
  \<open>str\<close> on the floats that the notebooks hold; the last one is the float that Python
  reads from \<open>0.15\<close>.
\<close>

definition str_nb :: "real \<Rightarrow> string" where
  "str_nb x =
     (if x = 600 then ''600.0'' else if x = 100 then ''100.0''
      else if x = 400 then ''400.0'' else if x = 800 then ''800.0''
      else if x = 0 then ''0.0'' else if x = 1 then ''1.0'' else if x = 2 then ''2.0''
      else if x = 10 then ''10.0'' else if x = float64 (15 / 100) then ''0.15'' else ''?'')"

definition run_180222 :: datetime where
  "run_180222 = \<lparr>year = 2022, month = 2, day = 18, hour = 17, minute = 58, second = 45,
                  microsecond = 0\<rparr>"

definition run_180222_later :: datetime where
  "run_180222_later = \<lparr>year = 2022, month = 2, day = 18, hour = 17, minute = 58, second = 45,
                        microsecond = 730000\<rparr>"

text \<open>The dictionaries of the S4 spectra notebook, and the same with three wavelengths.\<close>

definition s4_light_nb :: s4_light where
  "s4_light_nb = \<lparr>wl_min = 400, wl_max = 800, n_wl = 80, theta = 0, phi = 0,
                    pol = [0, 1], NumBasis = 100\<rparr>"

definition s4_light_3 :: s4_light where
  "s4_light_3 = s4_light_nb\<lparr>n_wl := 3\<rparr>"

definition s4_struct_nb :: s4_struct where
  "s4_struct_nb = \<lparr>inc_shape = ''circle'', nd_radius = 100, nd_height = 100,
                    nd_period_x = 600, nd_period_y = 600,
                    nd_inc_mat = ''e_au'', nd_back_mat = ''e_vacuum'',
                    sub_mat = ''e_vacuum'', sup_mat = ''e_vacuum'',
                    materials_stack = [''e_vacuum'', ''e_au'', ''e_vacuum'']\<rparr>"

definition s4_opts_nb :: s4_opts where
  "s4_opts_nb = \<lparr>PolarizationDecomposition = True, PolarizationBasis = ''Jones''\<rparr>"

text \<open>
  A stand-in for the solver with fixed answers: two permittivities, and fluxes that give
  R = 1/4 and T = 1/2 at every wavelength.
\<close>

definition s4_ext_const :: s4_ext where
  "s4_ext_const =
     \<lparr>db_to_eps = (\<lambda>wl names. Inr [1, Complex (- 10) 1]),
      GetPowerFlux = (\<lambda>S layer z. if layer = ''Inc'' then Inr (1, - (1 / 4)) else Inr (1 / 2, 0))\<rparr>"

text \<open>
  A stand-in that tells the incident waves apart: with a zero first amplitude (the
  \<open>pol\<close> of the dictionary) it reflects 3/4, with any other (the circular wave) 1/4;
  it transmits 1/8.
\<close>

definition s4_ext_pol :: s4_ext where
  "s4_ext_pol =
     \<lparr>db_to_eps = (\<lambda>wl names. Inr [1, Complex (- 10) 1]),
      GetPowerFlux = (\<lambda>S layer z.
        if layer = ''Inc''
        then Inr (1, if fst (snd (excitation S)) = 0 then - (3 / 4) else - (1 / 4))
        else Inr (1 / 8, 0))\<rparr>"

text \<open>The stand-in for S4 with no incident flux: \<open>back_1/forw_1\<close> divides by zero.\<close>

definition s4_ext_dark :: s4_ext where
  "s4_ext_dark = s4_ext_const\<lparr>GetPowerFlux := (\<lambda>S layer z. Inr (0, 0))\<rparr>"

text \<open>\<open>S\<close> as the build cell leaves it with the stand-in solver.\<close>

definition s4_sim_nb :: s4_sim where
  "s4_sim_nb =
     \<lparr>lattice = ((600, 0), (0, 600)), num_basis = 100,
      materials = [''Air'' \<mapsto> 1, ''Au'' \<mapsto> Complex (- 10) 1],
      layer_list = [(''Inc'', 0, ''Air''), (''Slab'', 100, ''Air''), (''Sub'', 0, ''Air'')],
      regions = [(''Slab'', ''Au'', (0, 0), 100)],
      excitation = ((0, 0), 0, 1),
      frequency = Fin (1 / 400),
      options = (True, ''Jones'')\<rparr>"

text \<open>
  The dictionary \<open>light\<close> of the EMUstack notebooks with three wavelengths and the two
  angles 0 and 10.
\<close>

definition emu_light_3 :: emu_light where
  "emu_light_3 = \<lparr>wl_min = 400, wl_max = 800, n_wl = 3, theta = 0, phi = 0,
                    theta_min = 0, theta_max = 10, n_theta = 2, pol_mode = ''TM'',
                    max_order_PWs = 2\<rparr>"

text \<open>
  Stand-ins for EMUstack. A solved layer is the pair of the wavelength and the angle it
  was solved at. \<open>emu_ext_lin\<close> answers every sample, with totals that grow with the
  wavelength (A = wl/1000, T = wl/2000, R = wl/4000) whatever the polarization;
  \<open>emu_ext_clear\<close> is a fully transmitting structure (R = 0, T = 1, A = 0);
  \<open>emu_ext_fail\<close> is \<open>emu_ext_lin\<close> with a mode solver that raises at every angle above 0.
\<close>

definition emu_ext_lin :: "(real \<times> real) emu_ext" where
  "emu_ext_lin =
     \<lparr>calc_modes = (\<lambda>layer l. case l of Light wl mo th ph \<Rightarrow> Inr (wl, th)),
      scat_fluxes = (\<lambda>ms p. case ms of
          [] \<Rightarrow> Inl (SolverError ''calc_scat'')
        | m # rest \<Rightarrow> Inr ([Fin 0, Fin (fst m / 1000)], [Fin 0, Fin (fst m / 2000)],
                          [Fin (fst m / 4000)])),
      fields_interpolator_in_plane = (\<lambda>stk lay z. Inr (\<lambda>x y. x - y)),
      material_repr = (\<lambda>name. ''<materials.Material object>'')\<rparr>"

definition emu_ext_clear :: "(real \<times> real) emu_ext" where
  "emu_ext_clear = emu_ext_lin\<lparr>scat_fluxes := (\<lambda>ms p. Inr ([Fin 0, Fin 0], [Fin 0, Fin 1], [Fin 0]))\<rparr>"

definition emu_ext_fail :: "(real \<times> real) emu_ext" where
  "emu_ext_fail = emu_ext_lin\<lparr>calc_modes := (\<lambda>layer l. case l of Light wl mo th ph \<Rightarrow>
       if th \<le> 0 then Inr (wl, th) else Inl (SolverError ''calc_modes''))\<rparr>"

text \<open>The same dictionary for a single-angle run at 10 degrees.\<close>

definition emu_light_tilted :: emu_light where
  "emu_light_tilted = emu_light_3\<lparr>theta := 10\<rparr>"

text \<open>The dictionaries \<open>struct\<close> and \<open>emu\<close> of the EMUstack spectra notebook.\<close>

definition emu_struct_nb :: emu_struct where
  "emu_struct_nb = \<lparr>inc_shape = ''circle'', nd_radius = 100, nd_height = 100,
                     nd_period_x = 600, nd_period_y = 600,
                     nd_inc_mat = ''Au'', nd_back_mat = ''Air'', sub_mat = ''Air'', sup_mat = ''Air'',
                     periodicity = ''2D_array'', nd_loss = True, sub_loss = False,
                     sup_loss = False\<rparr>"

definition emu_opts_nb :: emu_opts where
  "emu_opts_nb = \<lparr>plotting_fields = False, make_mesh_now = True, force_mesh = True,
                   lc_bkg = float64 (15 / 100), lc2 = 2, lc3 = 2\<rparr>"


section \<open>Sequencing, loops and the process pool\<close>

lemma bind_err_simps [simp]:
  "bind_err (Inl e) f = Inl e" "bind_err (Inr x) f = f x"
  by (simp_all add: bind_err_def)

lemma bind_err_Inr_iff: "bind_err m f = Inr y \<longleftrightarrow> (\<exists>x. m = Inr x \<and> f x = Inr y)"
  by (cases m) simp_all

lemma bind_err_Inl_iff:
  "bind_err m f = Inl e \<longleftrightarrow> m = Inl e \<or> (\<exists>x. m = Inr x \<and> f x = Inl e)"
  by (cases m) simp_all

lemma traverse_length: "traverse f xs = Inr ys \<Longrightarrow> length ys = length xs"
  by (induction xs arbitrary: ys) (auto simp: bind_err_Inr_iff)

lemma traverse_nth:
  "traverse f xs = Inr ys \<Longrightarrow> i < length xs \<Longrightarrow> f (xs ! i) = Inr (ys ! i)"
proof (induction xs arbitrary: ys i)
  case Nil
  then show ?case by simp
next
  case (Cons x xs)
  then obtain y ys' where y: "f x = Inr y" and ys': "traverse f xs = Inr ys'" and ys: "ys = y # ys'"
    by (auto simp: bind_err_Inr_iff)
  show ?case
  proof (cases i)
    case 0
    then show ?thesis using y ys by simp
  next
    case (Suc j)
    then show ?thesis using Cons.IH [OF ys', of j] Cons.prems(2) ys by simp
  qed
qed

lemma traverse_map:
  "(\<And>x. x \<in> set xs \<Longrightarrow> f x = Inr (g x)) \<Longrightarrow> traverse f xs = Inr (map g xs)"
  by (induction xs) simp_all

lemma traverse_total:
  "(\<And>x. x \<in> set xs \<Longrightarrow> \<exists>y. f x = Inr y) \<Longrightarrow> \<exists>ys. traverse f xs = Inr ys"
proof (induction xs)
  case Nil
  then show ?case by simp
next
  case (Cons x xs)
  then obtain y where "f x = Inr y" by force
  moreover from Cons obtain ys where "traverse f xs = Inr ys" by force
  ultimately show ?case by simp
qed

lemma traverse_first_failure:
  "(\<And>x. x \<in> set pre \<Longrightarrow> \<exists>y. f x = Inr y) \<Longrightarrow> f x = Inl e
   \<Longrightarrow> traverse f (pre @ x # post) = Inl e"
proof (induction pre)
  case Nil
  then show ?case by simp
next
  case (Cons p pre)
  then obtain y where "f p = Inr y" by force
  with Cons show ?case by simp
qed

lemma traverse_Inl: "traverse f xs = Inl e \<Longrightarrow> \<exists>x \<in> set xs. f x = Inl e"
  by (induction xs) (auto simp: bind_err_Inl_iff)

lemma traverse_fails: "x \<in> set xs \<Longrightarrow> f x = Inl e \<Longrightarrow> \<exists>e'. traverse f xs = Inl e'"
proof (induction xs)
  case Nil
  then show ?case by simp
next
  case (Cons a xs)
  show ?case
  proof (cases "f a")
    case (Inl e0)
    then show ?thesis by simp
  next
    case (Inr y)
    with Cons have "x \<in> set xs" by auto
    with Cons obtain e' where "traverse f xs = Inl e'" by blast
    with Inr show ?thesis by simp
  qed
qed

lemma linspace_length: "linspace a b n = Inr v \<Longrightarrow> length v = nat n"
  by (auto simp: linspace_def split: if_splits)

lemma linspace_total: "0 \<le> n \<Longrightarrow> \<exists>v. linspace a b n = Inr v"
  by (simp add: linspace_def)

section \<open>Rounding to the nearest float\<close>

lemma round_half_even_error: "\<bar>of_int (round_half_even x) - x\<bar> \<le> 1 / 2"
  by (auto simp: round_half_even_def Let_def)

lemma round_half_even_int: "round_half_even (of_int n) = n"
  by (simp add: round_half_even_def)

lemma floor_log2:
  assumes "2 powr of_int k \<le> \<bar>x\<bar>" and "\<bar>x\<bar> < 2 powr (of_int k + 1)"
  shows "\<lfloor>log 2 \<bar>x\<bar>\<rfloor> = k"
proof -
  from assms(1) have pos: "0 < \<bar>x\<bar>" by (smt (verit) powr_gt_zero)
  from assms(1) pos have "of_int k \<le> log 2 \<bar>x\<bar>" by (simp add: le_log_iff)
  moreover from assms(2) pos have "log 2 \<bar>x\<bar> < of_int k + 1" by (simp add: log_less_iff)
  ultimately show ?thesis by linarith
qed

text \<open>
  The value of \<open>float64\<close> at a number whose binade is known: this is how the definition
  is evaluated.
\<close>

lemma float64_at:
  assumes "2 powr of_int k \<le> \<bar>x\<bar>" and "\<bar>x\<bar> < 2 powr (of_int k + 1)"
    and "round_half_even (x / 2 powr of_int (k - 52)) = n"
  shows "float64 x = of_int n * 2 powr of_int (k - 52)"
proof -
  from assms(1) have "x \<noteq> 0" by (smt (verit) powr_gt_zero abs_zero)
  with floor_log2 [OF assms(1,2)] assms(3) show ?thesis by (simp add: float64_def)
qed

text \<open>The relative error of a rounding is at most \<open>2^-53\<close>.\<close>

lemma float64_error: "\<bar>float64 x - x\<bar> \<le> 2 powr (- 53) * \<bar>x\<bar>"
proof (cases "x = 0")
  case True
  then show ?thesis by (simp add: float64_def)
next
  case False
  define e0 where "e0 = \<lfloor>log 2 \<bar>x\<bar>\<rfloor>"
  define s :: real where "s = 2 powr of_int (e0 - 52)"
  have s: "0 < s" by (simp add: s_def)
  from False have "of_int e0 \<le> log 2 \<bar>x\<bar>" by (simp add: e0_def)
  with False have lo: "2 powr of_int e0 \<le> \<bar>x\<bar>" by (simp add: le_log_iff)
  have f: "float64 x = of_int (round_half_even (x / s)) * s"
    using False by (simp add: float64_def e0_def s_def)
  have "\<bar>float64 x - x\<bar> = \<bar>of_int (round_half_even (x / s)) - x / s\<bar> * s"
  proof -
    have "float64 x - x = (of_int (round_half_even (x / s)) - x / s) * s"
      using s by (simp add: f field_simps)
    then show ?thesis using s by (simp add: abs_mult)
  qed
  also have "\<dots> \<le> 1 / 2 * s"
    using round_half_even_error [of "x / s"] s by (intro mult_right_mono) simp_all
  also have "1 / 2 * s = 2 powr (- 53) * 2 powr of_int e0"
  proof -
    have "s = 2 powr (of_int e0 - 52)" by (simp add: s_def)
    also have "\<dots> = 2 powr of_int e0 * 2 powr (- 52)"
      by (simp add: powr_diff powr_minus field_simps)
    finally have "s = 2 powr of_int e0 * 2 powr (- 52)" .
    moreover have "(1 / 2 :: real) * 2 powr (- 52) = 2 powr (- 53)"
      by (simp add: powr_minus_divide)
    ultimately show ?thesis by (simp add: mult.assoc [symmetric] mult.commute)
  qed
  also have "\<dots> \<le> 2 powr (- 53) * \<bar>x\<bar>"
    using lo by (intro mult_left_mono) simp_all
  finally show ?thesis .
qed

text \<open>A number with a significand of at most 53 bits is a float: rounding leaves it.\<close>

lemma float64_exact:
  assumes "\<bar>m\<bar> < 2 ^ 53"
  shows "float64 (of_int m * 2 powr of_int j) = of_int m * 2 powr of_int j"
proof (cases "m = 0")
  case True
  then show ?thesis by (simp add: float64_def)
next
  case False
  define x :: real where "x = of_int m * 2 powr of_int j"
  define b where "b = \<lfloor>log 2 \<bar>of_int m :: real\<bar>\<rfloor>"
  from False have x0: "x \<noteq> 0" by (simp add: x_def)
  from False have m1: "1 \<le> \<bar>of_int m :: real\<bar>" by (simp add: abs_if)
  have "log 2 \<bar>x\<bar> = log 2 \<bar>of_int m\<bar> + of_int j"
    using False by (simp add: x_def abs_mult log_mult)
  then have e0: "\<lfloor>log 2 \<bar>x\<bar>\<rfloor> = b + j" by (simp add: b_def)
  have "\<bar>of_int m :: real\<bar> < 2 ^ 53"
    using assms by (metis of_int_abs of_int_less_numeral_power_cancel_iff)
  then have "log 2 \<bar>of_int m :: real\<bar> < 53"
    using m1 by (simp add: log_less_iff powr_realpow)
  then have b52: "b \<le> 52" by (simp add: b_def floor_le_iff)
  define k where "k = nat (52 - b)"
  have k: "of_int j - of_int (b + j - 52) = real k" using b52 by (simp add: k_def)
  have "x / 2 powr of_int (b + j - 52) = of_int m * (2 powr of_int j / 2 powr of_int (b + j - 52))"
    by (simp only: x_def times_divide_eq_right)
  also have "\<dots> = of_int m * 2 powr (of_int j - of_int (b + j - 52))"
    by (simp only: powr_diff)
  also have "\<dots> = of_int m * 2 ^ k" by (simp only: k powr_realpow)
  also have "\<dots> = of_int (m * 2 ^ k)" by simp
  finally have q: "x / 2 powr of_int (b + j - 52) = of_int (m * 2 ^ k)" .
  have "float64 x = of_int (round_half_even (x / 2 powr of_int (b + j - 52))) * 2 powr of_int (b + j - 52)"
    using x0 e0 by (simp add: float64_def)
  also have "\<dots> = x / 2 powr of_int (b + j - 52) * 2 powr of_int (b + j - 52)"
    by (simp only: q round_half_even_int)
  also have "\<dots> = x" by simp
  finally show ?thesis by (simp add: x_def)
qed

lemma float64_dyadic: "\<bar>m\<bar> < 2 ^ 53 \<Longrightarrow> float64 (of_int m / 2 ^ k) = of_int m / 2 ^ k"
  using float64_exact [of m "- int k"] by (simp add: powr_minus_divide powr_realpow)

lemma float64_int: "\<bar>m\<bar> < 2 ^ 53 \<Longrightarrow> float64 (of_int m) = of_int m"
  using float64_exact [of m 0] by simp

lemma float64_eighths:
  "float64 (1 / 8) = 1 / 8" "float64 (1 / 4) = 1 / 4" "float64 (1 / 2) = 1 / 2"
  "float64 (5 / 8) = 5 / 8" "float64 (3 / 4) = 3 / 4" "float64 (7 / 8) = 7 / 8"
  using float64_dyadic [of 1 3] float64_dyadic [of 1 2] float64_dyadic [of 1 1]
    float64_dyadic [of 5 3] float64_dyadic [of 3 2] float64_dyadic [of 7 3]
  by simp_all

lemma float64_nb:
  "float64 0 = 0" "float64 1 = 1" "float64 2 = 2" "float64 10 = 10" "float64 100 = 100"
  "float64 400 = 400" "float64 600 = 600" "float64 800 = 800"
  using float64_int [of 1] float64_int [of 2] float64_int [of 10] float64_int [of 100]
    float64_int [of 400] float64_int [of 600] float64_int [of 800]
  by (simp_all add: float64_def)


lemma float64_0445: "float64 (445 / 1000) = 8016407336719483 / 2 ^ 54"
  using float64_at [of "- 2" "445 / 1000" 8016407336719483]
  by (simp add: powr_minus_divide round_half_even_def)

lemma float64_04: "float64 (4 / 10) = 7205759403792794 / 2 ^ 54"
  using float64_at [of "- 2" "4 / 10" 7205759403792794]
  by (simp add: powr_minus_divide round_half_even_def)

text \<open>
  \<open>A = 1 - R - T\<close> in floats: with R the float of 0.445 and T the float of 0.4, A is
  0.15499999999999992 and the three values add up to \<open>1 - 2^-54\<close>, not to 1.
\<close>

lemma absorption_not_exact:
  "float64 (float64 (1 - 8016407336719483 / 2 ^ 54) - 7205759403792794 / 2 ^ 54)
     = 2792231768969706 / 2 ^ 54"
  "8016407336719483 / 2 ^ 54 + 7205759403792794 / 2 ^ 54 + 2792231768969706 / 2 ^ 54
     = (1 - 1 / 2 ^ 54 :: real)"
proof -
  have a: "float64 (1 - 8016407336719483 / 2 ^ 54) = 4998995586381250 / 2 ^ 53"
    using float64_at [of "- 1" "1 - 8016407336719483 / 2 ^ 54" 4998995586381250]
    by (simp add: powr_minus_divide round_half_even_def)
  have b: "float64 (4998995586381250 / 2 ^ 53 - 7205759403792794 / 2 ^ 54) = 2792231768969706 / 2 ^ 54"
    using float64_dyadic [of 2792231768969706 54] by simp
  show "float64 (float64 (1 - 8016407336719483 / 2 ^ 54) - 7205759403792794 / 2 ^ 54)
     = 2792231768969706 / 2 ^ 54"
    by (simp only: a b)
  show "8016407336719483 / 2 ^ 54 + 7205759403792794 / 2 ^ 54 + 2792231768969706 / 2 ^ 54
     = (1 - 1 / 2 ^ 54 :: real)"
    by simp
qed

text \<open>The two roundings of \<open>1 - R - T\<close> are all that separates R + T + A from 1.\<close>

lemma absorption_rounding:
  "\<bar>R + T + float64 (float64 (1 - R) - T) - 1\<bar>
     \<le> 2 powr (- 53) * (\<bar>1 - R\<bar> + \<bar>float64 (1 - R) - T\<bar>)"
proof -
  define y where "y = float64 (1 - R)"
  have "R + T + float64 (y - T) - 1 = (float64 (y - T) - (y - T)) + (y - (1 - R))" by simp
  then have "\<bar>R + T + float64 (y - T) - 1\<bar> \<le> \<bar>float64 (y - T) - (y - T)\<bar> + \<bar>y - (1 - R)\<bar>"
    by linarith
  also have "\<dots> \<le> 2 powr (- 53) * \<bar>y - T\<bar> + 2 powr (- 53) * \<bar>1 - R\<bar>"
    using float64_error [of "y - T"] float64_error [of "1 - R"] by (simp add: y_def)
  finally show ?thesis by (simp add: y_def algebra_simps)
qed

section \<open>Reading back the text of a value\<close>

lemma digit_char_cases:
  "d < 10 \<Longrightarrow> is_digit (digit_char d) \<and> digit_val (digit_char d) = d
      \<and> (digit_char d = CHR ''0'' \<longleftrightarrow> d = 0)"
proof -
  assume "d < 10"
  then have "d = 0 \<or> d = 1 \<or> d = 2 \<or> d = 3 \<or> d = 4 \<or> d = 5 \<or> d = 6 \<or> d = 7 \<or> d = 8
      \<or> d = 9"
    by arith
  then show ?thesis
    by (elim disjE) (simp_all add: digit_char_def is_digit_def digit_val_def)
qed

lemma digits_val_snoc: "digits_val (ds @ [c]) = 10 * digits_val ds + digit_val c"
  by (simp add: digits_val_def)

lemma show_nat_digits:
  "show_nat n \<noteq> [] \<and> (\<forall>c \<in> set (show_nat n). is_digit c) \<and> digits_val (show_nat n) = n
     \<and> (hd (show_nat n) = CHR ''0'' \<longrightarrow> n = 0)"
proof (induction n rule: show_nat.induct)
  case (1 n)
  have m: "n mod 10 < 10" by simp
  note dc = digit_char_cases [OF m]
  have dm: "digit_char n = digit_char (n mod 10)" by (simp add: digit_char_def)
  show ?case
  proof (cases "n < 10")
    case True
    with digit_char_cases [of n] show ?thesis
      by (simp add: show_nat.simps [of n] digits_val_def)
  next
    case False
    with 1 have ih: "show_nat (n div 10) \<noteq> []" "\<forall>c \<in> set (show_nat (n div 10)). is_digit c"
      "digits_val (show_nat (n div 10)) = n div 10"
      "hd (show_nat (n div 10)) = CHR ''0'' \<longrightarrow> n div 10 = 0"
      by simp_all
    from False have "n div 10 \<noteq> 0" by simp
    with False ih dc dm show ?thesis
      by (simp add: show_nat.simps [of n] digits_val_snoc)
  qed
qed

lemma closes_hd:
  "closes r \<Longrightarrow> r = [] \<or> (\<exists>c t. r = c # t \<and> (c = CHR '','' \<or> c = CHR '']'' \<or> c = CHR ''}''))"
  by (cases r) (simp_all add: closes_def)

lemma closes_not_digit: "closes r \<Longrightarrow> takeWhile is_digit r = [] \<and> dropWhile is_digit r = r"
  by (cases r) (auto simp: closes_def is_digit_def)

lemma read_fraction_closes: "closes r \<Longrightarrow> read_fraction r = (None, r)"
  by (cases r) (auto simp: closes_def read_fraction_def)

lemma read_exponent_closes: "closes r \<Longrightarrow> read_exponent r = (None, r)"
  by (cases r) (auto simp: closes_def read_exponent_def split: list.splits)

lemma read_number_show_nat:
  assumes "closes r"
  shows "read_number (show_nat n @ r) = Some (Constant (PyInt (int n)), r)"
proof -
  note d = show_nat_digits [of n]
  from d closes_not_digit [OF assms]
  have tw: "takeWhile is_digit (show_nat n @ r) = show_nat n"
    and dw: "dropWhile is_digit (show_nat n @ r) = r"
    by (simp_all add: takeWhile_append dropWhile_append)
  from d show ?thesis
    by (auto simp add: read_number_def tw dw read_fraction_closes [OF assms]
        read_exponent_closes [OF assms])
qed

lemma takeWhile_all: "\<forall>x \<in> set xs. P x \<Longrightarrow> takeWhile P xs = xs"
  by simp

lemma span_digits_all:
  assumes "dropWhile is_digit s = []" and "closes r"
  shows "takeWhile is_digit (s @ r) = s \<and> dropWhile is_digit (s @ r) = r"
proof -
  from assms(1) have "\<forall>c \<in> set s. is_digit c" by (simp add: dropWhile_eq_Nil_conv)
  with closes_not_digit [OF assms(2)] show ?thesis
    by (simp add: takeWhile_append dropWhile_append)
qed

lemma span_digits_stop:
  assumes "dropWhile is_digit s \<noteq> []"
  shows "takeWhile is_digit (s @ r) = takeWhile is_digit s
       \<and> dropWhile is_digit (s @ r) = dropWhile is_digit s @ r"
proof -
  from assms have "\<not> (\<forall>c \<in> set s. is_digit c)" by (simp add: dropWhile_eq_Nil_conv)
  then show ?thesis
    by (auto simp add: takeWhile_append dropWhile_append)
qed

lemma read_exponent_append:
  assumes "read_exponent s = (ex, [])" and "closes r"
  shows "read_exponent (s @ r) = (ex, r)"
proof (cases s)
  case Nil
  with assms show ?thesis by (simp add: read_exponent_closes) (simp add: read_exponent_def)
next
  case (Cons c s')
  note c = Cons
  show ?thesis
  proof (cases s')
    case Nil
    with c assms show ?thesis by (simp add: read_exponent_def)
  next
    case (Cons d t)
    note d = Cons
    show ?thesis
    proof (cases "is_digit d")
      case True
      with c d assms(1) have e: "c = CHR ''e'' \<or> c = CHR ''E''" and dw: "dropWhile is_digit t = []"
        and ex: "ex = Some (False, d # takeWhile is_digit t)"
        by (auto simp: read_exponent_def split: if_splits)
      from dw have tw: "takeWhile is_digit t = t" by (simp add: dropWhile_eq_Nil_conv)
      from span_digits_all [OF dw assms(2)] dw e ex True c d tw show ?thesis
        by (auto simp: read_exponent_def takeWhile_all)
    next
      case False
      with c d assms(1) obtain f u where e: "c = CHR ''e'' \<or> c = CHR ''E''"
        and sg: "d = CHR ''+'' \<or> d = CHR ''-''" and t: "t = f # u" and f: "is_digit f"
        and dw: "dropWhile is_digit t = []"
        and ex: "ex = Some (d = CHR ''-'', takeWhile is_digit t)"
        by (auto simp: read_exponent_def split: if_splits list.splits)
      from dw have tw: "takeWhile is_digit t = t" by (simp add: dropWhile_eq_Nil_conv)
      from span_digits_all [OF dw assms(2)] False e sg t f ex c d dw tw show ?thesis
        by (auto simp: read_exponent_def takeWhile_all)
    qed
  qed
qed

lemma read_fraction_all:
  assumes "read_fraction s = (fp, [])" and "closes r"
  shows "read_fraction (s @ r) = (fp, r)"
proof (cases s)
  case Nil
  with assms show ?thesis by (simp add: read_fraction_closes) (simp add: read_fraction_def)
next
  case (Cons c t)
  with assms(1) have dot: "c = CHR ''.''" and dw: "dropWhile is_digit t = []"
    and fp: "fp = Some (takeWhile is_digit t)"
    by (auto simp: read_fraction_def split: if_splits)
  from dw have tw: "takeWhile is_digit t = t" by (simp add: dropWhile_eq_Nil_conv)
  from span_digits_all [OF dw assms(2)] dot fp dw Cons tw show ?thesis
    by (auto simp: read_fraction_def takeWhile_all)
qed

lemma read_fraction_stop:
  assumes "read_fraction s = (fp, s2)" and "s2 \<noteq> []"
  shows "read_fraction (s @ r) = (fp, s2 @ r)"
proof (cases s)
  case Nil
  with assms show ?thesis by (simp add: read_fraction_def)
next
  case (Cons c t)
  show ?thesis
  proof (cases "c = CHR ''.''")
    case True
    with Cons assms have dw: "dropWhile is_digit t \<noteq> []" and s2: "s2 = dropWhile is_digit t"
      and fp: "fp = Some (takeWhile is_digit t)"
      by (auto simp: read_fraction_def)
    from span_digits_stop [OF dw, of r] True Cons s2 fp show ?thesis
      by (simp add: read_fraction_def)
  next
    case False
    with Cons assms show ?thesis by (auto simp: read_fraction_def)
  qed
qed

lemma read_number_append:
  assumes rd: "read_number s = Some (e, [])" and cl: "closes r"
  shows "read_number (s @ r) = Some (e, r)"
proof -
  obtain fp s2 where fr: "read_fraction (dropWhile is_digit s) = (fp, s2)"
    by (cases "read_fraction (dropWhile is_digit s)")
  obtain ex s3 where er: "read_exponent s2 = (ex, s3)" by (cases "read_exponent s2")
  from rd fr er have s3: "s3 = []"
    by (auto simp: read_number_def Let_def split: if_splits)
  have "takeWhile is_digit (s @ r) = takeWhile is_digit s
      \<and> read_fraction (dropWhile is_digit (s @ r)) = (fp, s2 @ r)
      \<and> read_exponent (s2 @ r) = (ex, r)"
  proof (cases "dropWhile is_digit s = []")
    case True
    with fr have "fp = None" "s2 = []" by (simp_all add: read_fraction_def)
    moreover from this er have "ex = None" by (simp add: read_exponent_def)
    ultimately show ?thesis
      using span_digits_all [OF True cl] True cl er s3
      by (simp add: read_fraction_closes read_exponent_closes dropWhile_eq_Nil_conv takeWhile_all)
  next
    case False
    note sp = span_digits_stop [OF False, of r]
    show ?thesis
    proof (cases "s2 = []")
      case True
      with er have "ex = None" by (simp add: read_exponent_def)
      with True fr read_fraction_all [OF _ cl, of "dropWhile is_digit s" fp] sp cl
      show ?thesis by (simp add: read_exponent_closes)
    next
      case False
      from read_fraction_stop [OF fr False, of r] read_exponent_append [OF _ cl, of s2 ex] er s3 sp
      show ?thesis by simp
    qed
  qed
  with rd fr er s3 show ?thesis
    by (auto simp add: read_number_def Let_def split: if_splits)
qed

lemma hex_char_cases:
  "k < 16 \<Longrightarrow> is_hex (hex_char k) \<and> hex_val (hex_char k) = k"
proof -
  assume "k < 16"
  then have "k = 0 \<or> k = 1 \<or> k = 2 \<or> k = 3 \<or> k = 4 \<or> k = 5 \<or> k = 6 \<or> k = 7 \<or> k = 8
      \<or> k = 9 \<or> k = 10 \<or> k = 11 \<or> k = 12 \<or> k = 13 \<or> k = 14 \<or> k = 15"
    by arith
  then show ?thesis
    by (elim disjE) (simp_all add: hex_char_def is_hex_def hex_val_def)
qed

lemma hex_escape:
  "is_hex (hex_char (of_char c div 16)) \<and> is_hex (hex_char (of_char c))
     \<and> char_of (16 * hex_val (hex_char (of_char c div 16)) + hex_val (hex_char (of_char c))) = c"
proof -
  have lt: "(of_char c :: nat) < 256" by simp
  then have hi: "(of_char c :: nat) div 16 < 16" by presburger
  have lo: "(of_char c :: nat) mod 16 < 16" by simp
  have m: "hex_char (of_char c) = hex_char (of_char c mod 16)" by (simp add: hex_char_def)
  have "16 * ((of_char c :: nat) div 16) + of_char c mod 16 = of_char c" by simp
  with hex_char_cases [OF hi] hex_char_cases [OF lo] m show ?thesis by simp
qed

lemma read_str_repr_char:
  assumes q: "q = CHR 0x27 \<or> q = CHR 0x22"
  shows "read_str q (repr_char q c @ s) = map_option (apfst ((#) c)) (read_str q s)"
proof -
  note h = hex_escape [of c]
  consider "c = q \<or> c = CHR 0x5C" | "c = CHR 0x09" | "c = CHR 0x0A" | "c = CHR 0x0D"
    | "c \<noteq> q" "c \<noteq> CHR 0x5C" "c \<noteq> CHR 0x09" "c \<noteq> CHR 0x0A" "c \<noteq> CHR 0x0D" "printable c"
    | "c \<noteq> q" "c \<noteq> CHR 0x5C" "c \<noteq> CHR 0x09" "c \<noteq> CHR 0x0A" "c \<noteq> CHR 0x0D" "\<not> printable c"
    by blast
  then show ?thesis
  proof cases
    case 1
    with q show ?thesis by (auto simp: repr_char_def)
  next
    case 2
    with q show ?thesis by (auto simp: repr_char_def)
  next
    case 3
    with q show ?thesis by (auto simp: repr_char_def)
  next
    case 4
    with q show ?thesis by (auto simp: repr_char_def)
  next
    case 5
    with q show ?thesis by (simp add: repr_char_def)
  next
    case 6
    with q h show ?thesis by (auto simp: repr_char_def)
  qed
qed

lemma read_str_body:
  assumes q: "q = CHR 0x27 \<or> q = CHR 0x22"
  shows "read_str q (concat (map (repr_char q) s) @ q # r) = Some (s, r)"
proof (induction s)
  case Nil
  show ?case by simp
next
  case (Cons c s)
  then show ?case by (simp add: read_str_repr_char [OF q])
qed

lemma repr_char_hd:
  "q = CHR 0x27 \<or> q = CHR 0x22 \<Longrightarrow> repr_char q c \<noteq> [] \<and> hd (repr_char q c) \<noteq> q"
  by (auto simp: repr_char_def)

lemma read_string_repr:
  assumes q: "q = CHR 0x27 \<or> q = CHR 0x22" and r: "r = [] \<or> hd r \<noteq> q"
  shows "read_string q (concat (map (repr_char q) s) @ q # r) = Some (Constant (PyStr s), r)"
proof (cases s)
  case Nil
  with r show ?thesis by (cases r) (auto simp: read_string_def)
next
  case (Cons c s')
  from repr_char_hd [OF q, of c] obtain a b where ab: "repr_char q c = a # b" "a \<noteq> q"
    by (cases "repr_char q c") auto
  have "read_string q (concat (map (repr_char q) s) @ q # r)
          = map_option (apfst (\<lambda>x. Constant (PyStr x))) (read_str q (concat (map (repr_char q) s) @ q # r))"
    using ab Cons by (cases "b @ concat (map (repr_char q) s') @ q # r") (simp_all add: read_string_def)
  then show ?thesis by (simp add: read_str_body [OF q])
qed

lemma parse_expr_repr_str:
  assumes "no_quote r"
  shows "parse_expr (Suc n) (repr_str s @ r) = Some (Constant (PyStr s), r)"
proof -
  obtain q where q: "q = CHR 0x27 \<or> q = CHR 0x22"
    and rs: "repr_str s = q # concat (map (repr_char q) s) @ [q]"
    by (cases "CHR 0x27 \<in> set s \<and> CHR 0x22 \<notin> set s") (auto simp: repr_str_def Let_def)
  from assms q have r: "r = [] \<or> hd r \<noteq> q" by (cases r) (auto simp: no_quote_def)
  from q have sk: "skip (q # x) = q # x" for x by (auto simp: skip_def)
  from q read_string_repr [OF q r, of s] show ?thesis
    by (auto simp: rs sk is_digit_def)
qed

lemma is_digit_not_special:
  "is_digit c \<Longrightarrow> c \<noteq> CHR '' '' \<and> c \<noteq> CHR ''['' \<and> c \<noteq> CHR '']'' \<and> c \<noteq> CHR ''{'' \<and> c \<noteq> CHR ''}''
     \<and> c \<noteq> CHR ''-'' \<and> c \<noteq> CHR 0x27 \<and> c \<noteq> CHR 0x22"
  by (auto simp: is_digit_def)

lemma skip_simps:
  "skip (CHR '' '' # s) = skip s" "c \<noteq> CHR '' '' \<Longrightarrow> skip (c # s) = c # s" "skip [] = []"
  by (simp_all add: skip_def)

lemma parse_expr_digit: "is_digit c \<Longrightarrow> parse_expr (Suc n) (c # t) = read_number (c # t)"
  using is_digit_not_special [of c] by (simp add: skip_simps)

lemma parse_expr_minus:
  "parse_expr (Suc n) (CHR ''-'' # t) = map_option (apfst USub) (parse_expr n t)"
  by (simp add: skip_simps)

lemma parse_expr_space: "parse_expr n (CHR '' '' # s) = parse_expr n s"
  by (cases n) (simp_all add: skip_simps)

lemma parse_elts_space: "parse_elts n (CHR '' '' # s) = parse_elts n s"
  by (cases n) (simp_all add: skip_simps)

lemma parse_items_space: "parse_items n (CHR '' '' # s) = parse_items n s"
  by (cases n) (simp_all add: skip_simps)

lemma read_number_hd: "read_number s = Some y \<Longrightarrow> s \<noteq> [] \<and> is_digit (hd s)"
  by (cases s) (auto simp: read_number_def Let_def split: if_splits prod.splits)

lemma closes_not_ident:
  "closes r \<Longrightarrow> takeWhile is_ident r = [] \<and> dropWhile is_ident r = r \<and> no_quote r"
  by (cases r) (auto simp: closes_def is_ident_def no_quote_def)

lemma parse_expr_names:
  assumes "closes r"
  shows "parse_expr (Suc n) (''True'' @ r) = Some (Constant (PyBool True), r)"
    and "parse_expr (Suc n) (''False'' @ r) = Some (Constant (PyBool False), r)"
    and "parse_expr (Suc n) (''None'' @ r) = Some (Constant PyNone, r)"
  using closes_not_ident [OF assms]
  by (cases r; simp add: skip_simps is_digit_def is_ident_def read_name_def kwlist_def no_quote_def)+

lemma repr_str_opens: "\<exists>q b. repr_str s = q # b \<and> (q = CHR 0x27 \<or> q = CHR 0x22)"
  by (auto simp: repr_str_def Let_def)

lemma py_repr_opens: "literal_ok py_str v \<Longrightarrow> opens (py_repr py_str v)"
proof (cases v)
  case (PyInt i)
  from show_nat_digits [of "nat i"] is_digit_not_special [of "hd (show_nat (nat i))"]
  have "opens (show_nat (nat i))" by (cases "show_nat (nat i)") (auto simp: opens_def)
  with PyInt show ?thesis by (simp add: opens_def)
next
  case (PyFloat y)
  assume ok: "literal_ok py_str v"
  with PyFloat obtain x where y: "y = Fin x" and ft: "float_text py_str x"
    by (cases y) simp_all
  from ft obtain c s where cs: "py_str x = c # s" by (cases "py_str x") (simp_all add: float_text_def)
  show ?thesis
  proof (cases "c = CHR ''-''")
    case True
    with cs PyFloat y show ?thesis by (simp add: opens_def)
  next
    case False
    with ft cs have "read_number (c # s) = Some (Constant (PyFloat (Fin x)), [])"
      by (simp add: float_text_def)
    from read_number_hd [OF this] is_digit_not_special [of c] cs PyFloat y
    show ?thesis by (simp add: opens_def)
  qed
next
  case (PyStr s)
  with repr_str_opens [of s] show ?thesis by (auto simp: opens_def)
next
  case (PyBool b)
  then show ?thesis by (simp add: opens_def)
next
  case PyNone
  then show ?thesis by (simp add: opens_def)
next
  case (PyList vs)
  then show ?thesis by (simp add: opens_def)
next
  case (PyDict kvs)
  then show ?thesis by (simp add: opens_def)
qed

lemma opens_skip: "opens s \<Longrightarrow> \<exists>c t. s = c # t \<and> skip (s @ r) = c # t @ r \<and> c \<noteq> CHR '']'' \<and> c \<noteq> CHR ''}''"
  by (cases s) (auto simp: opens_def skip_simps)

lemma commas_Cons: "xs \<noteq> [] \<Longrightarrow> commas (x # xs) = x @ '', '' @ commas xs"
  by (cases xs) simp_all

lemma parse_elts_commas:
  assumes ih: "\<And>x n r. x \<in> set vs \<Longrightarrow> closes r \<Longrightarrow> length (f x) < n
                 \<Longrightarrow> parse_expr n (f x @ r) = Some (g x, r)"
    and op: "\<And>x. x \<in> set vs \<Longrightarrow> opens (f x)"
    and len: "length (commas (map f vs)) + 1 < m"
  shows "parse_elts m (commas (map f vs) @ CHR '']'' # r) = Some (map g vs, r)"
  using ih op len
proof (induction vs arbitrary: m)
  case Nil
  then obtain m' where "m = Suc m'" by (cases m) simp_all
  then show ?case by (simp add: skip_simps)
next
  case (Cons x xs)
  from Cons.prems(3) obtain m' where m: "m = Suc m'" by (cases m) simp_all
  from Cons.prems(2) [of x] have ox: "opens (f x)" by simp
  then have ne: "f x \<noteq> []" by (auto simp: opens_def)
  show ?case
  proof (cases "xs = []")
    case True
    with Cons.prems(3) m have l: "length (f x) < m'" by simp
    have cl: "closes (CHR '']'' # r)" by (simp add: closes_def)
    from opens_skip [OF ox, of "CHR '']'' # r"] obtain c t where
      ct: "f x = c # t" "skip (f x @ CHR '']'' # r) = c # t @ CHR '']'' # r" "c \<noteq> CHR '']''"
      by auto
    from Cons.prems(1) [of x, OF _ cl l] ct
    have "parse_expr m' (c # t @ CHR '']'' # r) = Some (g x, CHR '']'' # r)" by simp
    with ct True m show ?thesis by (simp add: skip_simps)
  next
    case False
    let ?rest = "CHR '','' # CHR '' '' # commas (map f xs) @ CHR '']'' # r"
    from False have eq: "commas (map f (x # xs)) @ CHR '']'' # r = f x @ ?rest"
      by (simp add: commas_Cons)
    from False Cons.prems(3) m ne have l: "length (f x) < m'"
      and l': "length (commas (map f xs)) + 1 < m'"
      by (simp_all add: commas_Cons)
    have cl: "closes ?rest" by (simp add: closes_def)
    from opens_skip [OF ox, of ?rest] obtain c t where
      ct: "f x = c # t" "skip (f x @ ?rest) = c # t @ ?rest" "c \<noteq> CHR '']''"
      by auto
    from Cons.prems(1) [of x, OF _ cl l] ct
    have p: "parse_expr m' (c # t @ ?rest) = Some (g x, ?rest)" by simp
    have "parse_elts m' (commas (map f xs) @ CHR '']'' # r) = Some (map g xs, r)"
      by (rule Cons.IH [OF _ _ l']) (use Cons.prems in auto)
    with p ct m show ?thesis
      unfolding eq by (simp add: skip_simps parse_elts_space)
  qed
qed

lemma parse_items_commas:
  assumes ih: "\<And>kv n r. kv \<in> set kvs \<Longrightarrow> closes r \<Longrightarrow> length (f (snd kv)) < n
                 \<Longrightarrow> parse_expr n (f (snd kv) @ r) = Some (g (snd kv), r)"
    and len: "length (commas (map (\<lambda>kv. repr_str (fst kv) @ '': '' @ f (snd kv)) kvs)) + 1 < m"
  shows "parse_items m (commas (map (\<lambda>kv. repr_str (fst kv) @ '': '' @ f (snd kv)) kvs) @ CHR ''}'' # r)
           = Some (map (\<lambda>kv. (Constant (PyStr (fst kv)), g (snd kv))) kvs, r)"
  using ih len
proof (induction kvs arbitrary: m)
  case Nil
  then obtain m' where "m = Suc m'" by (cases m) simp_all
  then show ?case by (simp add: skip_simps)
next
  case (Cons kv kvs)
  let ?item = "\<lambda>kv. repr_str (fst kv) @ '': '' @ f (snd kv)"
  obtain q b where qb: "repr_str (fst kv) = q # b" "q = CHR 0x27 \<or> q = CHR 0x22"
    using repr_str_opens [of "fst kv"] by blast
  from Cons.prems(2) qb obtain m'' where m: "m = Suc (Suc m'')"
    by (cases m; cases "m - 1"; cases kvs; simp)
  have key: "parse_expr (Suc m'') (repr_str (fst kv) @ CHR '':'' # x)
               = Some (Constant (PyStr (fst kv)), CHR '':'' # x)" for x
    by (rule parse_expr_repr_str) (simp add: no_quote_def)
  have sk: "skip (q # x) = q # x" "q \<noteq> CHR ''}''" for x
    using qb(2) by (auto simp: skip_simps)
  show ?case
  proof (cases "kvs = []")
    case True
    with Cons.prems(2) m have l: "length (f (snd kv)) < Suc m''" by simp
    have cl: "closes (CHR ''}'' # r)" by (simp add: closes_def)
    from Cons.prems(1) [of kv, OF _ cl l]
    have v: "parse_expr (Suc m'') (f (snd kv) @ CHR ''}'' # r) = Some (g (snd kv), CHR ''}'' # r)"
      by simp
    have "parse_items (Suc (Suc m'')) (q # b @ CHR '':'' # CHR '' '' # f (snd kv) @ CHR ''}'' # r)
            = Some ([(Constant (PyStr (fst kv)), g (snd kv))], r)"
      using key [of "CHR '' '' # f (snd kv) @ CHR ''}'' # r"] v sk
      by (simp add: qb(1) skip_simps parse_expr_space del: parse_expr.simps)
    with True m qb(1) show ?thesis by simp
  next
    case False
    let ?rest = "CHR '','' # CHR '' '' # commas (map ?item kvs) @ CHR ''}'' # r"
    from False have eq: "commas (map ?item (kv # kvs)) @ CHR ''}'' # r
        = q # b @ CHR '':'' # CHR '' '' # f (snd kv) @ ?rest"
      by (simp add: commas_Cons qb(1))
    from False Cons.prems(2) m have l: "length (f (snd kv)) < Suc m''"
      and l': "length (commas (map ?item kvs)) + 1 < Suc m''"
      by (simp_all add: commas_Cons)
    have cl: "closes ?rest" by (simp add: closes_def)
    from Cons.prems(1) [of kv, OF _ cl l]
    have v: "parse_expr (Suc m'') (f (snd kv) @ ?rest) = Some (g (snd kv), ?rest)" by simp
    have t: "parse_items (Suc m'') (commas (map ?item kvs) @ CHR ''}'' # r)
               = Some (map (\<lambda>kv. (Constant (PyStr (fst kv)), g (snd kv))) kvs, r)"
      by (rule Cons.IH [OF _ l']) (use Cons.prems in auto)
    have "parse_items (Suc (Suc m'')) (q # b @ CHR '':'' # CHR '' '' # f (snd kv) @ ?rest)
            = Some ((Constant (PyStr (fst kv)), g (snd kv))
                      # map (\<lambda>kv. (Constant (PyStr (fst kv)), g (snd kv))) kvs, r)"
      using key [of "CHR '' '' # f (snd kv) @ ?rest"] v sk t
      by (subst parse_items.simps(2))
        (simp add: qb(1) skip_simps parse_expr_space parse_items_space
           del: parse_expr.simps parse_items.simps(2))
    with m show ?thesis unfolding eq by simp
  qed
qed

lemma parse_expr_repr:
  "literal_ok py_str v \<Longrightarrow> closes r \<Longrightarrow> length (py_repr py_str v) < n
     \<Longrightarrow> parse_expr n (py_repr py_str v @ r) = Some (ast_of v, r)"
proof (induction v arbitrary: n r)
  case (PyInt i)
  then obtain n' where n: "n = Suc n'" by (cases n) simp_all
  note d = show_nat_digits
  show ?case
  proof (cases "i < 0")
    case True
    from d [of "nat (- i)"] obtain c t where ct: "show_nat (nat (- i)) = c # t" "is_digit c"
      by (cases "show_nat (nat (- i))") auto
    with PyInt.prems(3) True n obtain n'' where n': "n' = Suc n''" by (cases n') simp_all
    from read_number_show_nat [OF PyInt.prems(2), of "nat (- i)"] ct True
    have "parse_expr (Suc n'') (c # t @ r) = Some (Constant (PyInt (- i)), r)"
      by (simp add: parse_expr_digit del: parse_expr.simps)
    with True n n' ct show ?thesis by (simp add: parse_expr_minus del: parse_expr.simps)
  next
    case False
    from d [of "nat i"] obtain c t where ct: "show_nat (nat i) = c # t" "is_digit c"
      by (cases "show_nat (nat i)") auto
    from read_number_show_nat [OF PyInt.prems(2), of "nat i"] ct False
    have "parse_expr (Suc n') (c # t @ r) = Some (Constant (PyInt i), r)"
      by (simp add: parse_expr_digit del: parse_expr.simps)
    with False n ct show ?thesis by simp
  qed
next
  case (PyFloat y)
  then obtain x where y: "y = Fin x" and ft: "float_text py_str x" by (cases y) simp_all
  from PyFloat.prems(3) obtain n' where n: "n = Suc n'" by (cases n) simp_all
  from ft obtain c s where cs: "py_str x = c # s" by (cases "py_str x") (simp_all add: float_text_def)
  show ?case
  proof (cases "c = CHR ''-''")
    case True
    with ft cs have neg: "x < 0" and rd: "read_number s = Some (Constant (PyFloat (Fin (- x))), [])"
      by (simp_all add: float_text_def)
    from read_number_hd [OF rd] obtain d u where du: "s = d # u" "is_digit d" by (cases s) auto
    with PyFloat.prems(3) y cs n obtain n'' where n': "n' = Suc n''" by (cases n') simp_all
    from read_number_append [OF rd PyFloat.prems(2)] du
    have "parse_expr (Suc n'') (d # u @ r) = Some (Constant (PyFloat (Fin (- x))), r)"
      by (simp add: parse_expr_digit del: parse_expr.simps)
    with True neg y cs n n' du show ?thesis by (simp add: parse_expr_minus del: parse_expr.simps)
  next
    case False
    with ft cs have pos: "0 \<le> x" and rd: "read_number (c # s) = Some (Constant (PyFloat (Fin x)), [])"
      by (simp_all add: float_text_def)
    from read_number_hd [OF rd] have dc: "is_digit c" by simp
    from read_number_append [OF rd PyFloat.prems(2)] dc
    have "parse_expr (Suc n') (c # s @ r) = Some (Constant (PyFloat (Fin x)), r)"
      by (simp add: parse_expr_digit del: parse_expr.simps)
    with pos y cs n show ?thesis by simp
  qed
next
  case (PyStr s)
  then obtain n' where n: "n = Suc n'" by (cases n) simp_all
  from closes_not_ident [OF PyStr.prems(2)] show ?case
    unfolding n by (simp add: parse_expr_repr_str del: parse_expr.simps)
next
  case (PyBool b)
  then obtain n' where n: "n = Suc n'" by (cases n) simp_all
  from parse_expr_names [OF PyBool.prems(2), of n'] show ?case
    unfolding n by (cases b) (simp_all del: parse_expr.simps)
next
  case PyNone
  then obtain n' where n: "n = Suc n'" by (cases n) simp_all
  from parse_expr_names [OF PyNone.prems(2), of n'] show ?case
    unfolding n by (simp del: parse_expr.simps)
next
  case (PyList vs)
  then obtain n' where n: "n = Suc n'" by (cases n) simp_all
  have "parse_elts n' (commas (map (py_repr py_str) vs) @ CHR '']'' # r) = Some (map ast_of vs, r)"
  proof (rule parse_elts_commas)
    fix x m q
    assume x: "x \<in> set vs" and q: "closes q" and m: "length (py_repr py_str x) < m"
    from x PyList.prems(1) have "literal_ok py_str x" by (simp add: list_all_iff)
    from PyList.IH [OF x this q m]
    show "parse_expr m (py_repr py_str x @ q) = Some (ast_of x, q)" .
  next
    fix x assume "x \<in> set vs"
    with PyList.prems(1) show "opens (py_repr py_str x)"
      by (simp add: list_all_iff py_repr_opens)
  next
    from PyList.prems(3) n show "length (commas (map (py_repr py_str) vs)) + 1 < n'" by simp
  qed
  then show ?case unfolding n by (simp add: skip_simps)
next
  case (PyDict kvs)
  then obtain n' where n: "n = Suc n'" by (cases n) simp_all
  let ?item = "\<lambda>kv. repr_str (fst kv) @ '': '' @ py_repr py_str (snd kv)"
  have "parse_items n' (commas (map ?item kvs) @ CHR ''}'' # r)
          = Some (map (\<lambda>kv. (Constant (PyStr (fst kv)), ast_of (snd kv))) kvs, r)"
  proof (rule parse_items_commas)
    fix kv m q
    assume kv: "kv \<in> set kvs" and q: "closes q" and m: "length (py_repr py_str (snd kv)) < m"
    have s: "snd kv \<in> Basic_BNFs.snds kv" by (cases kv) simp
    from kv PyDict.prems(1) have "literal_ok py_str (snd kv)" by (simp add: list_all_iff)
    from PyDict.IH [OF kv s this q m]
    show "parse_expr m (py_repr py_str (snd kv) @ q) = Some (ast_of (snd kv), q)" .
  next
    from PyDict.prems(3) n show "length (commas (map ?item kvs)) + 1 < n'" by simp
  qed
  then show ?case unfolding n by (simp add: skip_simps)
qed

lemma dict_of_distinct:
  "distinct (map fst kvs) \<Longrightarrow> dict_of kvs = kvs"
proof -
  have "distinct (map fst (d @ kvs))
          \<Longrightarrow> foldl (\<lambda>d p. dict_set d (fst p) (snd p)) d kvs = d @ kvs" for d :: "(string \<times> 'a) list"
  proof (induction kvs arbitrary: d)
    case Nil
    show ?case by simp
  next
    case (Cons kv kvs)
    from Cons.prems have "fst kv \<notin> fst ` set d" by auto
    then have "dict_set d (fst kv) (snd kv) = d @ [kv]" by (simp add: dict_set_def)
    with Cons.IH [of "d @ [kv]"] Cons.prems show ?case by simp
  qed
  from this [of "[]"] show "distinct (map fst kvs) \<Longrightarrow> dict_of kvs = kvs"
    by (simp add: dict_of_def)
qed

lemma convert_ast_of: "literal_ok py_str v \<Longrightarrow> convert (ast_of v) = Some (Inr v)"
proof (induction v)
  case (PyFloat y)
  then show ?case by (cases y) simp_all
next
  case (PyList vs)
  have "convert_elts (map ast_of xs) = Some (Inr xs)" if "set xs \<subseteq> set vs" for xs
    using that
  proof (induction xs)
    case Nil
    show ?case by simp
  next
    case (Cons x xs)
    with PyList.IH [of x] PyList.prems show ?case by (simp add: list_all_iff subset_iff)
  qed
  then show ?case by simp
next
  case (PyDict kvs)
  have "convert_items (map (\<lambda>kv. (Constant (PyStr (fst kv)), ast_of (snd kv))) xs) = Some (Inr xs)"
    if "set xs \<subseteq> set kvs" for xs
    using that
  proof (induction xs)
    case Nil
    show ?case by simp
  next
    case (Cons x xs)
    obtain k v where x: "x = (k, v)" by (cases x)
    with Cons.prems have "(k, v) \<in> set kvs" by simp
    with PyDict.IH [of "(k, v)" v] PyDict.prems have "convert (ast_of v) = Some (Inr v)"
      by (auto simp: list_all_iff)
    with Cons x show ?case by simp
  qed
  with PyDict.prems dict_of_distinct [of kvs] show ?case by simp
qed simp_all

lemma literal_eval_repr:
  assumes "literal_ok py_str v"
  shows "literal_eval (py_repr py_str v) = Some (Inr v)"
proof -
  have "closes []" by (simp add: closes_def)
  from parse_expr_repr [OF assms this, of "2 * length (py_repr py_str v) + 2"]
  have "ast_parse (py_repr py_str v) = Some (ast_of v)"
    by (simp add: ast_parse_def skip_simps)
  with convert_ast_of [OF assms] show ?thesis by (simp add: literal_eval_def)
qed



lemma float_text_nb:
  "float_text str_nb 0" "float_text str_nb 1" "float_text str_nb 2" "float_text str_nb 10"
  "float_text str_nb 100" "float_text str_nb 400" "float_text str_nb 600" "float_text str_nb 800"
  by (simp_all add: float_text_def str_nb_def read_number_def read_fraction_def read_exponent_def
      is_digit_def decimal_def digits_val_def digit_val_def normal_range_def float64_nb)



lemma s4_dicts_ok:
  "literal_ok str_nb (s4_light_dict s4_light_3)" "literal_ok str_nb (s4_struct_dict s4_struct_nb)"
  by (simp_all add: s4_light_dict_def s4_light_3_def s4_light_nb_def s4_struct_dict_def
      s4_struct_nb_def float_text_nb)

section \<open>Properties of the S4 spectra notebook\<close>

lemma unpack_columns_Inr:
  "unpack_columns rows = Inr (v_R, v_T, v_A) \<Longrightarrow>
     rows \<noteq> [] \<and> v_R = map fst rows \<and> v_T = map (\<lambda>r. fst (snd r)) rows
     \<and> v_A = map (\<lambda>r. snd (snd r)) rows"
  by (auto simp: unpack_columns_def split: if_splits)

text \<open>
  What a call of \<open>rta\<close> returns: the fluxes are read on \<open>S\<close> as the first half of the
  call left it, R and T are the two ratios, A the rounded rest.
\<close>

lemma rta_fluxes_Inr:
  assumes "rta_fluxes ext S = Inr (R, T, A)"
  shows "\<exists>forw_1 back_1 forw_2 back_2.
           GetPowerFlux ext S ''Inc'' 0 = Inr (forw_1, back_1)
         \<and> GetPowerFlux ext S ''Sub'' 0 = Inr (forw_2, back_2)
         \<and> np_abs_div back_1 forw_1 = Inr R
         \<and> np_abs_div forw_2 forw_1 = Inr T
         \<and> A = float64 (float64 (1 - R) - T)"
  using assms by (auto simp: rta_fluxes_def bind_err_Inr_iff Let_def split: prod.splits)

lemma rta_Inr:
  "rta ext light struct S wl = Inr (res, S') \<Longrightarrow>
     rta_setup ext light struct S wl = Inr S' \<and> rta_fluxes ext S' = Inr res"
  by (auto simp: rta_def bind_err_Inr_iff)

lemma rta_setup_Inr:
  "rta_setup ext light struct S wl = Inr S' \<Longrightarrow>
     excitation S' = ((theta light, phi light), of_real (1 / sqrt 2), - \<i> / of_real (sqrt 2))
     \<and> frequency S' = np_div (Fin 1) (Fin wl)
     \<and> layer_list S' = layer_list S \<and> regions S' = regions S"
  by (auto simp: rta_setup_def bind_err_Inr_iff Let_def)

lemma rta_ignores_pol:
  "rta ext (light\<lparr>pol := p\<rparr>) struct S wl = rta ext light struct S wl"
  by (simp add: rta_def rta_setup_def)

lemma s4_build_Inr:
  "s4_build ext light struct s4 = Inr S \<Longrightarrow>
     (\<exists>pol0 pol1. py_get (pol light) 0 = Inr pol0 \<and> py_get (pol light) 1 = Inr pol1
        \<and> excitation S = ((theta light, phi light), of_real pol0, of_real pol1))
     \<and> layer_list S = [(''Inc'', 0, ''Air''), (''Slab'', nd_height struct, ''Air''),
                        (''Sub'', 0, ''Air'')]
     \<and> regions S = [(''Slab'', ''Au'', (0, 0), nd_radius struct)]"
  by (auto simp: s4_build_def bind_err_Inr_iff)

text \<open>
  What a call of \<open>rta\<close> leaves on \<open>S\<close> (excitation, frequency, the two materials) is set
  anew by the next call before the solver reads it: a worker may serve any number of
  wavelengths in any order.
\<close>

lemma rta_setup_overwrites:
  "rta_setup ext light struct (S\<lparr>excitation := x, frequency := f,
       materials := (materials S)(''Air'' := a, ''Au'' := b)\<rparr>) wl
   = rta_setup ext light struct S wl"
  by (simp add: rta_setup_def Let_def fun_upd_twist)

lemma rta_after_rta:
  assumes "rta ext light struct S wl0 = Inr (res0, S0)"
  shows "rta ext light struct S0 wl = rta ext light struct S wl"
proof -
  from assms obtain e0 e1 where
    "S0 = S\<lparr>excitation := ((theta light, phi light), of_real (1 / sqrt 2), - \<i> / of_real (sqrt 2)),
             frequency := np_div (Fin 1) (Fin wl0),
             materials := (materials S)(''Air'' \<mapsto> e0, ''Au'' \<mapsto> e1)\<rparr>"
    by (auto simp: rta_def rta_setup_def bind_err_Inr_iff Let_def)
  then have "rta_setup ext light struct S0 wl = rta_setup ext light struct S wl"
    by (simp only: rta_setup_overwrites)
  then show ?thesis
    by (simp only: rta_def)
qed

lemma s4_sweep_Inr:
  assumes "s4_sweep ext light struct S v_wl = Inr (v_R, v_T, v_A)"
  shows "length v_R = length v_wl" "length v_T = length v_wl" "length v_A = length v_wl"
    "v_wl \<noteq> []"
    "i < length v_wl \<Longrightarrow>
       \<exists>S'. rta ext light struct S (v_wl ! i) = Inr ((v_R ! i, v_T ! i, v_A ! i), S')"
proof -
  let ?f = "\<lambda>wl. bind_err (rta ext light struct S wl) (\<lambda>r. Inr (fst r))"
  from assms obtain rows where rows: "traverse ?f v_wl = Inr rows"
    and u: "unpack_columns rows = Inr (v_R, v_T, v_A)"
    by (auto simp: s4_sweep_def executor_map_def bind_err_Inr_iff)
  note len = traverse_length [OF rows]
  note cols = unpack_columns_Inr [OF u]
  show "length v_R = length v_wl" "length v_T = length v_wl" "length v_A = length v_wl"
    using len cols by simp_all
  show "v_wl \<noteq> []" using len cols by auto
  assume i: "i < length v_wl"
  from traverse_nth [OF rows i]
  have "\<exists>r. rta ext light struct S (v_wl ! i) = Inr r \<and> fst r = rows ! i"
    by (simp add: bind_err_Inr_iff)
  then obtain r where "rta ext light struct S (v_wl ! i) = Inr r" and "fst r = rows ! i"
    by blast
  then show "\<exists>S'. rta ext light struct S (v_wl ! i) = Inr ((v_R ! i, v_T ! i, v_A ! i), S')"
    using cols len i by (cases r) (auto simp: prod_eq_iff)
qed

lemma s4_sweep_total:
  assumes "v_wl \<noteq> []" and "\<And>wl. wl \<in> set v_wl \<Longrightarrow> \<exists>r. rta ext light struct S wl = Inr r"
  shows "\<exists>v_R v_T v_A. s4_sweep ext light struct S v_wl = Inr (v_R, v_T, v_A)"
proof -
  let ?f = "\<lambda>wl. bind_err (rta ext light struct S wl) (\<lambda>r. Inr (fst r))"
  have "\<exists>y. ?f wl = Inr y" if "wl \<in> set v_wl" for wl
    using assms(2) [OF that] by auto
  from traverse_total [of v_wl ?f, OF this] obtain rows where rows: "traverse ?f v_wl = Inr rows"
    by blast
  with assms(1) have "rows \<noteq> []" using traverse_length [OF rows] by auto
  with rows show ?thesis
    by (simp add: s4_sweep_def executor_map_def unpack_columns_def)
qed

section \<open>Properties of the file names\<close>

lemma timestamp_eq: "timestamp now = spec_timestamp now"
  by (simp add: timestamp_def spec_timestamp_def directive_def)

lemma timestamp_same_second: "same_second a b \<Longrightarrow> timestamp a = timestamp b"
  by (simp add: timestamp_eq spec_timestamp_def same_second_def)

lemma two_digits_nb:
  "two_digits 18 = ''18''" "two_digits 2 = ''02''" "two_digits 22 = ''22''"
  "two_digits 17 = ''17''" "two_digits 58 = ''58''" "two_digits 45 = ''45''"
  by (simp_all add: two_digits_def digit_char_def)

lemma timestamp_run_180222: "timestamp run_180222 = ''180222_175845''"
  by (simp add: timestamp_eq spec_timestamp_def run_180222_def two_digits_nb)

text \<open>
  Claim C9. Every writer names its file
  engine, sweep kind, shape, \<open>_px\<close> period x, \<open>_py\<close> period y, \<open>_r\<close> radius, \<open>_h\<close> height,
  the timestamp DDMMYY_HHMMSS and the extension; the four netCDF writers put it under
  \<open>data/\<close>, the text table is written in the working directory.
\<close>

theorem out_filename_convention:
  "s4_spectra_path py_str struct now =
     ''data/'' @ spec_filename (fields_of ''S4'' ''AuNdArraySpectra'' ''nc'' py_str struct now)
   \<and> s4_lf_path py_str struct now =
     ''data/'' @ spec_filename (fields_of ''S4'' ''AuNdArrayLF'' ''nc'' py_str struct now)
   \<and> emu_spectra_path py_str struct now =
     ''data/'' @ spec_filename (fields_of ''EMU'' ''AuNdArraySpectra'' ''nc'' py_str struct now)
   \<and> emu_lf_path py_str struct now =
     ''data/'' @ spec_filename (fields_of ''EMU'' ''AuNdArrayLF'' ''nc'' py_str struct now)
   \<and> emu_sweep_path py_str struct now =
     spec_filename (fields_of ''EMU'' ''AuNdArraySpectra'' ''out'' py_str struct now)"
  by (simp add: s4_spectra_path_def s4_lf_path_def emu_spectra_path_def emu_lf_path_def
      emu_sweep_path_def out_filename_def spec_filename_def fields_of_def timestamp_eq)

text \<open>
  The file that the data-exploration notebook loads is the name the EMUstack spectra
  writer builds for the notebook's geometry at 18 February 2022, 17:58:45.
\<close>

lemma emu_spectra_path_run_180222:
  "emu_spectra_path str_nb struct_nb run_180222 =
     ''data/EMU_AuNdArraySpectra_circle_px600.0_py600.0_r100.0_h100.0_180222_175845.nc''"
  by (simp add: emu_spectra_path_def out_filename_def timestamp_run_180222 struct_nb_def
      str_nb_def)

text \<open>
  Claim C6. File names are not unique within one second: two runs with the same geometry
  whose timestamps fall within the same second build the same name, in every writer.
\<close>

theorem out_filename_collision:
  assumes "same_second now1 now2"
  shows "s4_spectra_path py_str struct now1 = s4_spectra_path py_str struct now2
       \<and> s4_lf_path py_str struct now1 = s4_lf_path py_str struct now2
       \<and> emu_spectra_path py_str struct now1 = emu_spectra_path py_str struct now2
       \<and> emu_lf_path py_str struct now1 = emu_lf_path py_str struct now2
       \<and> emu_sweep_path py_str struct now1 = emu_sweep_path py_str struct now2"
  using timestamp_same_second [OF assms]
  by (simp add: s4_spectra_path_def s4_lf_path_def emu_spectra_path_def emu_lf_path_def
      emu_sweep_path_def out_filename_def)

theorem out_filename_collision_witness:
  "run_180222 \<noteq> run_180222_later
   \<and> same_second run_180222 run_180222_later
   \<and> s4_spectra_path str_nb struct_nb run_180222 = s4_spectra_path str_nb struct_nb run_180222_later
   \<and> emu_sweep_path str_nb struct_nb run_180222 = emu_sweep_path str_nb struct_nb run_180222_later"
proof -
  have s: "same_second run_180222 run_180222_later"
    by (simp add: same_second_def run_180222_def run_180222_later_def)
  have d: "run_180222 \<noteq> run_180222_later"
    by (simp add: run_180222_def run_180222_later_def)
  from out_filename_collision [OF s, of str_nb struct_nb] s d show ?thesis
    by simp
qed

section \<open>The S4 spectra run\<close>

lemma column_stack_length:
  "length v_T = length v_R \<Longrightarrow> length v_A = length v_R \<Longrightarrow> length (column_stack v_R v_T v_A) = length v_R"
  by (simp add: column_stack_def)

lemma column_stack_nth:
  "length v_T = length v_R \<Longrightarrow> length v_A = length v_R \<Longrightarrow> i < length v_R \<Longrightarrow>
     column_stack v_R v_T v_A ! i = [v_R ! i, v_T ! i, v_A ! i]"
  by (simp add: column_stack_def)

lemma s4_spectra_Inr:
  assumes "s4_spectra ext py_str light struct s4 now = Inr out"
  shows "\<exists>v_wl S v_R v_T v_A.
           linspace (wl_min light) (wl_max light) (n_wl light) = Inr v_wl
         \<and> s4_build ext light struct s4 = Inr S
         \<and> s4_sweep ext light struct S v_wl = Inr (v_R, v_T, v_A)
         \<and> da_values out = column_stack v_R v_T v_A
         \<and> da_wavelength out = v_wl
         \<and> da_attrs out = [(''light'', py_repr py_str (s4_light_dict light)),
                            (''struct'', py_repr py_str (s4_struct_dict struct)),
                            (''s4'', py_repr py_str (s4_opts_dict s4))]"
  using assms by (auto simp: s4_spectra_def bind_err_Inr_iff split: prod.splits)

text \<open>
  Row \<open>i\<close> of a sweep: the fluxes are those that the solver returns on \<open>S\<close> after
  \<open>rta\<close> has set the circular wave and the wavelength \<open>i\<close> on it.
\<close>

lemma s4_sweep_rows:
  assumes sw: "s4_sweep ext light struct S v_wl = Inr (v_R, v_T, v_A)" and i: "i < length v_wl"
  shows "\<exists>S' forw_1 back_1 forw_2 back_2 R T.
           rta_setup ext light struct S (v_wl ! i) = Inr S'
         \<and> snd (excitation S') = (of_real (1 / sqrt 2), - \<i> / of_real (sqrt 2))
         \<and> GetPowerFlux ext S' ''Inc'' 0 = Inr (forw_1, back_1)
         \<and> GetPowerFlux ext S' ''Sub'' 0 = Inr (forw_2, back_2)
         \<and> np_abs_div back_1 forw_1 = Inr R
         \<and> np_abs_div forw_2 forw_1 = Inr T
         \<and> column_stack v_R v_T v_A ! i = [R, T, float64 (float64 (1 - R) - T)]"
proof -
  note L = s4_sweep_Inr(1-3) [OF sw]
  from s4_sweep_Inr(5) [OF sw i] obtain S' where
    r: "rta ext light struct S (v_wl ! i) = Inr ((v_R ! i, v_T ! i, v_A ! i), S')" by blast
  note st = rta_Inr [OF r]
  from rta_fluxes_Inr [OF st [THEN conjunct2]] obtain forw_1 back_1 forw_2 back_2 where
    f: "GetPowerFlux ext S' ''Inc'' 0 = Inr (forw_1, back_1)"
      "GetPowerFlux ext S' ''Sub'' 0 = Inr (forw_2, back_2)"
      "np_abs_div back_1 forw_1 = Inr (v_R ! i)" "np_abs_div forw_2 forw_1 = Inr (v_T ! i)"
      "v_A ! i = float64 (float64 (1 - v_R ! i) - v_T ! i)"
    by blast
  from rta_setup_Inr [OF st [THEN conjunct1]]
  have e: "snd (excitation S') = (of_real (1 / sqrt 2), - \<i> / of_real (sqrt 2))" by simp
  have c: "column_stack v_R v_T v_A ! i = [v_R ! i, v_T ! i, float64 (float64 (1 - v_R ! i) - v_T ! i)]"
    using L i f(5) by (simp add: column_stack_nth)
  from st [THEN conjunct1] e f(1-4) c show ?thesis by blast
qed

lemma upt_3: "[0..<3] = [0, 1, 2]"
  by (simp add: upt_rec numeral_3_eq_3)

lemma linspace_3: "linspace a b 3 = Inr [a, a + (b - a) / 2, b]"
proof -
  have "a + 2 * ((b - a) / 2) = b" by (simp add: diff_divide_distrib)
  then show ?thesis by (simp add: linspace_def upt_3 del: times_divide_eq_right)
qed

lemma s4_build_nb: "s4_build s4_ext_const s4_light_3 s4_struct_nb s4_opts_nb = Inr s4_sim_nb"
  by (simp add: s4_build_def s4_ext_const_def py_get_def py_float_div_def s4_light_3_def
      s4_light_nb_def s4_struct_nb_def s4_opts_nb_def s4_sim_nb_def)

lemma s4_build_pol: "s4_build s4_ext_pol s4_light_3 s4_struct_nb s4_opts_nb = Inr s4_sim_nb"
  by (simp add: s4_build_def s4_ext_pol_def py_get_def py_float_div_def s4_light_3_def
      s4_light_nb_def s4_struct_nb_def s4_opts_nb_def s4_sim_nb_def)

lemma linspace_light_3:
  "linspace (wl_min s4_light_3) (wl_max s4_light_3) (n_wl s4_light_3) = Inr [400, 600, 800]"
  by (simp add: s4_light_3_def s4_light_nb_def linspace_3)

lemma s4_ext_const_sel:
  "db_to_eps s4_ext_const = (\<lambda>wl names. Inr [1, Complex (- 10) 1])"
  "GetPowerFlux s4_ext_const S layer z = (if layer = ''Inc'' then Inr (1, - (1 / 4)) else Inr (1 / 2, 0))"
  by (simp_all add: s4_ext_const_def)

lemma rta_const:
  "\<exists>S'. rta s4_ext_const light s4_struct_nb S wl = Inr ((1 / 4, 1 / 2, 1 / 4), S')"
  by (simp add: rta_def rta_setup_def rta_fluxes_def s4_ext_const_sel py_get_def
      np_abs_div_def py_complex_div_def Let_def float64_eighths)

text \<open>The run with the stand-in solver, evaluated.\<close>

lemma s4_spectra_const_values:
  "map_sum id da_values (s4_spectra s4_ext_const str_nb s4_light_3 s4_struct_nb s4_opts_nb run_180222)
     = Inr [[1 / 4, 1 / 2, 1 / 4], [1 / 4, 1 / 2, 1 / 4], [1 / 4, 1 / 2, 1 / 4]]"
  by (simp add: s4_spectra_def s4_sweep_def executor_map_def linspace_light_3 s4_build_nb
      rta_def rta_setup_def rta_fluxes_def s4_ext_const_sel py_get_def np_abs_div_def
      py_complex_div_def Let_def float64_eighths unpack_columns_def column_stack_def)

text \<open>
  Claim C4. A sweep over three wavelengths, for which \<open>S\<close> was built (one patterned
  layer \<open>Slab\<close> with one region of \<open>Au\<close>) and the solver answered at each of the three,
  returns and saves exactly three rows R, T, A. In row \<open>i\<close>, R and T are the two flux
  ratios that the solver gives at wavelength \<open>i\<close>, and A is the float \<open>1 - R - T\<close>: the
  absorption term is what R + T lacks to 1, so that R + T + A differs from 1 by the
  rounding of the two subtractions only.
\<close>

theorem three_point_sweep:
  assumes n: "n_wl light = 3"
    and v: "linspace (wl_min light) (wl_max light) (n_wl light) = Inr v_wl"
    and S: "s4_build ext light struct s4 = Inr S"
    and ok: "\<And>wl. wl \<in> set v_wl \<Longrightarrow> \<exists>r. rta ext light struct S wl = Inr r"
  shows "\<exists>out. s4_spectra ext py_str light struct s4 now = Inr out
           \<and> length (da_values out) = 3 \<and> da_wavelength out = v_wl \<and> length v_wl = 3
           \<and> layer_list S = [(''Inc'', 0, ''Air''), (''Slab'', nd_height struct, ''Air''),
                              (''Sub'', 0, ''Air'')]
           \<and> regions S = [(''Slab'', ''Au'', (0, 0), nd_radius struct)]
           \<and> (\<forall>i < 3. \<exists>S' forw_1 back_1 forw_2 back_2 R T A.
                  rta_setup ext light struct S (v_wl ! i) = Inr S'
                \<and> GetPowerFlux ext S' ''Inc'' 0 = Inr (forw_1, back_1)
                \<and> GetPowerFlux ext S' ''Sub'' 0 = Inr (forw_2, back_2)
                \<and> np_abs_div back_1 forw_1 = Inr R
                \<and> np_abs_div forw_2 forw_1 = Inr T
                \<and> A = float64 (float64 (1 - R) - T)
                \<and> da_values out ! i = [R, T, A]
                \<and> \<bar>R + T + A - 1\<bar> \<le> 2 powr (- 53) * (\<bar>1 - R\<bar> + \<bar>float64 (1 - R) - T\<bar>))"
proof -
  have len: "length v_wl = 3" using linspace_length [OF v] n by simp
  then have "v_wl \<noteq> []" by auto
  from s4_sweep_total [OF this ok] obtain v_R v_T v_A
    where sw: "s4_sweep ext light struct S v_wl = Inr (v_R, v_T, v_A)" by blast
  note L = s4_sweep_Inr(1-3) [OF sw]
  let ?out = "\<lparr>da_path = s4_spectra_path py_str struct now,
          da_values = column_stack v_R v_T v_A,
          da_wavelength = v_wl,
          da_spectrum = [''R'', ''T'', ''A''],
          da_attrs = [(''light'', py_repr py_str (s4_light_dict light)),
                      (''struct'', py_repr py_str (s4_struct_dict struct)),
                      (''s4'', py_repr py_str (s4_opts_dict s4))]\<rparr>"
  have run: "s4_spectra ext py_str light struct s4 now = Inr ?out"
    using v S sw by (simp add: s4_spectra_def)
  have rows: "length (column_stack v_R v_T v_A) = 3"
    using L len by (simp add: column_stack_length)
  have "\<exists>S' forw_1 back_1 forw_2 back_2 R T A.
                  rta_setup ext light struct S (v_wl ! i) = Inr S'
                \<and> GetPowerFlux ext S' ''Inc'' 0 = Inr (forw_1, back_1)
                \<and> GetPowerFlux ext S' ''Sub'' 0 = Inr (forw_2, back_2)
                \<and> np_abs_div back_1 forw_1 = Inr R
                \<and> np_abs_div forw_2 forw_1 = Inr T
                \<and> A = float64 (float64 (1 - R) - T)
                \<and> column_stack v_R v_T v_A ! i = [R, T, A]
                \<and> \<bar>R + T + A - 1\<bar> \<le> 2 powr (- 53) * (\<bar>1 - R\<bar> + \<bar>float64 (1 - R) - T\<bar>)"
    if i: "i < 3" for i
  proof -
    from i len have il: "i < length v_wl" by simp
    from s4_sweep_rows [OF sw il] obtain S' forw_1 back_1 forw_2 back_2 R T where
      r: "rta_setup ext light struct S (v_wl ! i) = Inr S'"
        "GetPowerFlux ext S' ''Inc'' 0 = Inr (forw_1, back_1)"
        "GetPowerFlux ext S' ''Sub'' 0 = Inr (forw_2, back_2)"
        "np_abs_div back_1 forw_1 = Inr R" "np_abs_div forw_2 forw_1 = Inr T"
        "column_stack v_R v_T v_A ! i = [R, T, float64 (float64 (1 - R) - T)]"
      by blast
    with absorption_rounding [of R T] show ?thesis by blast
  qed
  with run rows len s4_build_Inr [OF S] show ?thesis by simp
qed

theorem three_point_sweep_witness:
  "map_sum id da_values (s4_spectra s4_ext_const str_nb s4_light_3 s4_struct_nb s4_opts_nb run_180222)
     = Inr [[1 / 4, 1 / 2, 1 / 4], [1 / 4, 1 / 2, 1 / 4], [1 / 4, 1 / 2, 1 / 4]]
   \<and> (\<exists>out. s4_spectra s4_ext_const str_nb s4_light_3 s4_struct_nb s4_opts_nb run_180222 = Inr out
         \<and> length (da_values out) = 3 \<and> da_wavelength out = [400, 600, 800]
         \<and> (\<exists>S' forw_1 back_1 forw_2 back_2 R T A.
                rta_setup s4_ext_const s4_light_3 s4_struct_nb s4_sim_nb 600 = Inr S'
              \<and> GetPowerFlux s4_ext_const S' ''Inc'' 0 = Inr (forw_1, back_1)
              \<and> GetPowerFlux s4_ext_const S' ''Sub'' 0 = Inr (forw_2, back_2)
              \<and> np_abs_div back_1 forw_1 = Inr R
              \<and> np_abs_div forw_2 forw_1 = Inr T
              \<and> A = float64 (float64 (1 - R) - T)
              \<and> da_values out ! 1 = [R, T, A]
              \<and> \<bar>R + T + A - 1\<bar> \<le> 2 powr (- 53) * (\<bar>1 - R\<bar> + \<bar>float64 (1 - R) - T\<bar>)))"
proof -
  have n: "n_wl s4_light_3 = 3" by (simp add: s4_light_3_def)
  have ok: "\<exists>r. rta s4_ext_const s4_light_3 s4_struct_nb s4_sim_nb wl = Inr r" for wl
    using rta_const [of s4_light_3 s4_sim_nb wl] by blast
  from three_point_sweep [OF n linspace_light_3 s4_build_nb ok, of str_nb run_180222]
  obtain out where
    o: "s4_spectra s4_ext_const str_nb s4_light_3 s4_struct_nb s4_opts_nb run_180222 = Inr out"
      "length (da_values out) = 3" "da_wavelength out = [400, 600, 800]"
    and all: "\<forall>i < 3. \<exists>S' forw_1 back_1 forw_2 back_2 R T A.
                  rta_setup s4_ext_const s4_light_3 s4_struct_nb s4_sim_nb ([400, 600, 800] ! i) = Inr S'
                \<and> GetPowerFlux s4_ext_const S' ''Inc'' 0 = Inr (forw_1, back_1)
                \<and> GetPowerFlux s4_ext_const S' ''Sub'' 0 = Inr (forw_2, back_2)
                \<and> np_abs_div back_1 forw_1 = Inr R
                \<and> np_abs_div forw_2 forw_1 = Inr T
                \<and> A = float64 (float64 (1 - R) - T)
                \<and> da_values out ! i = [R, T, A]
                \<and> \<bar>R + T + A - 1\<bar> \<le> 2 powr (- 53) * (\<bar>1 - R\<bar> + \<bar>float64 (1 - R) - T\<bar>)"
    by blast
  from all [rule_format, of 1] have
    "\<exists>S' forw_1 back_1 forw_2 back_2 R T A.
                rta_setup s4_ext_const s4_light_3 s4_struct_nb s4_sim_nb 600 = Inr S'
              \<and> GetPowerFlux s4_ext_const S' ''Inc'' 0 = Inr (forw_1, back_1)
              \<and> GetPowerFlux s4_ext_const S' ''Sub'' 0 = Inr (forw_2, back_2)
              \<and> np_abs_div back_1 forw_1 = Inr R
              \<and> np_abs_div forw_2 forw_1 = Inr T
              \<and> A = float64 (float64 (1 - R) - T)
              \<and> da_values out ! 1 = [R, T, A]
              \<and> \<bar>R + T + A - 1\<bar> \<le> 2 powr (- 53) * (\<bar>1 - R\<bar> + \<bar>float64 (1 - R) - T\<bar>)"
    by simp
  with o s4_spectra_const_values show ?thesis by blast
qed

lemma s4_ext_pol_sel:
  "db_to_eps s4_ext_pol = (\<lambda>wl names. Inr [1, Complex (- 10) 1])"
  "GetPowerFlux s4_ext_pol S layer z =
     (if layer = ''Inc''
      then Inr (1, if fst (snd (excitation S)) = 0 then - (3 / 4) else - (1 / 4))
      else Inr (1 / 8, 0))"
  by (simp_all add: s4_ext_pol_def)

lemma rta_fluxes_pol:
  "rta_fluxes s4_ext_pol s4_sim_nb = Inr (3 / 4, 1 / 8, 1 / 8)"
  by (simp add: rta_fluxes_def s4_ext_pol_sel s4_sim_nb_def np_abs_div_def py_complex_div_def
      float64_eighths)

lemma s4_spectra_pol_values:
  "map_sum id da_values (s4_spectra s4_ext_pol str_nb s4_light_3 s4_struct_nb s4_opts_nb run_180222)
     = Inr [[1 / 4, 1 / 8, 5 / 8], [1 / 4, 1 / 8, 5 / 8], [1 / 4, 1 / 8, 5 / 8]]"
  by (simp add: s4_spectra_def s4_sweep_def executor_map_def linspace_light_3 s4_build_pol
      rta_def rta_setup_def rta_fluxes_def s4_ext_pol_sel py_get_def np_abs_div_def
      py_complex_div_def Let_def float64_eighths unpack_columns_def column_stack_def)

lemma s4_light_3_text:
  "py_repr str_nb (s4_light_dict s4_light_3)
     = ''{'wl_min': 400.0, 'wl_max': 800.0, 'n_wl': 3, 'theta': 0.0, 'phi': 0.0, 'pol': [0.0, 1.0], 'NumBasis': 100}''"
  by (simp add: s4_light_dict_def s4_light_3_def s4_light_nb_def str_nb_def repr_str_def
      repr_char_def printable_def Let_def show_nat.simps digit_char_def)

text \<open>
  Claim C5. In every saved run whose dictionary has \<open>pol = [0.0, 1.0]\<close>, the attribute
  \<open>light\<close> is the text of the dictionary with these amplitudes (and reads back as that
  dictionary), and \<open>S\<close> is built with them. Every stored row is computed from the fluxes
  that the solver returns on \<open>S\<close> after \<open>rta\<close> has set the amplitudes 1/sqrt 2 and
  -i/sqrt 2 on it, which are not those of the dictionary; and \<open>rta\<close> returns the same for
  any other value \<open>p\<close> of \<open>pol\<close>.
\<close>

theorem rta_ignores_configured_pol:
  assumes run: "s4_spectra ext py_str light struct s4 now = Inr out"
    and cfg: "pol light = [0, 1]"
  shows "map_of (da_attrs out) ''light'' = Some (py_repr py_str (s4_light_dict light))
       \<and> s4_light_dict light =
           PyDict [(''wl_min'', PyFloat (Fin (wl_min light))), (''wl_max'', PyFloat (Fin (wl_max light))),
                   (''n_wl'', PyInt (n_wl light)), (''theta'', PyFloat (Fin (theta light))),
                   (''phi'', PyFloat (Fin (phi light))),
                   (''pol'', PyList [PyFloat (Fin 0), PyFloat (Fin 1)]),
                   (''NumBasis'', PyInt (NumBasis light))]
       \<and> (literal_ok py_str (s4_light_dict light)
            \<longrightarrow> literal_attr out ''light'' = Some (Inr (s4_light_dict light)))
       \<and> (\<exists>S. s4_build ext light struct s4 = Inr S
             \<and> snd (excitation S) = (0, 1)
             \<and> (\<forall>i < length (da_wavelength out). \<exists>S' forw_1 back_1 forw_2 back_2 R T.
                    rta_setup ext light struct S (da_wavelength out ! i) = Inr S'
                  \<and> snd (excitation S') = (of_real (1 / sqrt 2), - \<i> / of_real (sqrt 2))
                  \<and> GetPowerFlux ext S' ''Inc'' 0 = Inr (forw_1, back_1)
                  \<and> GetPowerFlux ext S' ''Sub'' 0 = Inr (forw_2, back_2)
                  \<and> np_abs_div back_1 forw_1 = Inr R
                  \<and> np_abs_div forw_2 forw_1 = Inr T
                  \<and> da_values out ! i = [R, T, float64 (float64 (1 - R) - T)]
                  \<and> rta ext (light\<lparr>pol := p\<rparr>) struct S (da_wavelength out ! i)
                      = rta ext light struct S (da_wavelength out ! i)))
       \<and> (of_real (1 / sqrt 2), - \<i> / of_real (sqrt 2)) \<noteq> (0 :: complex, 1 :: complex)"
proof -
  from s4_spectra_Inr [OF run] obtain v_wl S v_R v_T v_A where
    S: "s4_build ext light struct s4 = Inr S"
    and sw: "s4_sweep ext light struct S v_wl = Inr (v_R, v_T, v_A)"
    and vals: "da_values out = column_stack v_R v_T v_A"
    and wls: "da_wavelength out = v_wl"
    and att: "da_attrs out = [(''light'', py_repr py_str (s4_light_dict light)),
                            (''struct'', py_repr py_str (s4_struct_dict struct)),
                            (''s4'', py_repr py_str (s4_opts_dict s4))]"
    by blast
  from att have a1: "map_of (da_attrs out) ''light'' = Some (py_repr py_str (s4_light_dict light))"
    by simp
  from cfg have a2: "s4_light_dict light =
           PyDict [(''wl_min'', PyFloat (Fin (wl_min light))), (''wl_max'', PyFloat (Fin (wl_max light))),
                   (''n_wl'', PyInt (n_wl light)), (''theta'', PyFloat (Fin (theta light))),
                   (''phi'', PyFloat (Fin (phi light))),
                   (''pol'', PyList [PyFloat (Fin 0), PyFloat (Fin 1)]),
                   (''NumBasis'', PyInt (NumBasis light))]"
    by (simp add: s4_light_dict_def)
  have a3: "literal_attr out ''light'' = Some (Inr (s4_light_dict light))"
    if "literal_ok py_str (s4_light_dict light)"
    using literal_eval_repr [OF that] a1 by (simp add: literal_attr_def)
  from s4_build_Inr [OF S] cfg have e: "snd (excitation S) = (0, 1)"
    by (auto simp: py_get_def)
  have rows: "\<exists>S' forw_1 back_1 forw_2 back_2 R T.
                    rta_setup ext light struct S (v_wl ! i) = Inr S'
                  \<and> snd (excitation S') = (of_real (1 / sqrt 2), - \<i> / of_real (sqrt 2))
                  \<and> GetPowerFlux ext S' ''Inc'' 0 = Inr (forw_1, back_1)
                  \<and> GetPowerFlux ext S' ''Sub'' 0 = Inr (forw_2, back_2)
                  \<and> np_abs_div back_1 forw_1 = Inr R
                  \<and> np_abs_div forw_2 forw_1 = Inr T
                  \<and> column_stack v_R v_T v_A ! i = [R, T, float64 (float64 (1 - R) - T)]
                  \<and> rta ext (light\<lparr>pol := p\<rparr>) struct S (v_wl ! i)
                      = rta ext light struct S (v_wl ! i)"
    if i: "i < length v_wl" for i
    using s4_sweep_rows [OF sw i]
      rta_ignores_pol [where ext = ext and light = light and p = p and struct = struct and S = S
        and wl = "v_wl ! i"]
    by blast
  have ne: "(of_real (1 / sqrt 2), - \<i> / of_real (sqrt 2)) \<noteq> (0 :: complex, 1 :: complex)"
    by simp
  from S e rows have "\<exists>S. s4_build ext light struct s4 = Inr S
             \<and> snd (excitation S) = (0, 1)
             \<and> (\<forall>i < length (da_wavelength out). \<exists>S' forw_1 back_1 forw_2 back_2 R T.
                    rta_setup ext light struct S (da_wavelength out ! i) = Inr S'
                  \<and> snd (excitation S') = (of_real (1 / sqrt 2), - \<i> / of_real (sqrt 2))
                  \<and> GetPowerFlux ext S' ''Inc'' 0 = Inr (forw_1, back_1)
                  \<and> GetPowerFlux ext S' ''Sub'' 0 = Inr (forw_2, back_2)
                  \<and> np_abs_div back_1 forw_1 = Inr R
                  \<and> np_abs_div forw_2 forw_1 = Inr T
                  \<and> da_values out ! i = [R, T, float64 (float64 (1 - R) - T)]
                  \<and> rta ext (light\<lparr>pol := p\<rparr>) struct S (da_wavelength out ! i)
                      = rta ext light struct S (da_wavelength out ! i))"
    unfolding vals wls by blast
  with a1 a2 a3 ne show ?thesis by blast
qed

theorem rta_ignores_configured_pol_witness:
  "map_sum id da_values (s4_spectra s4_ext_pol str_nb s4_light_3 s4_struct_nb s4_opts_nb run_180222)
     = Inr [[1 / 4, 1 / 8, 5 / 8], [1 / 4, 1 / 8, 5 / 8], [1 / 4, 1 / 8, 5 / 8]]
   \<and> rta_fluxes s4_ext_pol s4_sim_nb = Inr (3 / 4, 1 / 8, 1 / 8)
   \<and> pol s4_light_3 = [0, 1]
   \<and> (\<exists>out. s4_spectra s4_ext_pol str_nb s4_light_3 s4_struct_nb s4_opts_nb run_180222 = Inr out
        \<and> map_of (da_attrs out) ''light''
            = Some ''{'wl_min': 400.0, 'wl_max': 800.0, 'n_wl': 3, 'theta': 0.0, 'phi': 0.0, 'pol': [0.0, 1.0], 'NumBasis': 100}''
        \<and> literal_attr out ''light'' = Some (Inr (s4_light_dict s4_light_3))
        \<and> s4_build s4_ext_pol s4_light_3 s4_struct_nb s4_opts_nb = Inr s4_sim_nb
        \<and> snd (excitation s4_sim_nb) = (0, 1)
        \<and> (\<exists>S' forw_1 back_1 forw_2 back_2 R T.
              rta_setup s4_ext_pol s4_light_3 s4_struct_nb s4_sim_nb 600 = Inr S'
            \<and> snd (excitation S') = (of_real (1 / sqrt 2), - \<i> / of_real (sqrt 2))
            \<and> GetPowerFlux s4_ext_pol S' ''Inc'' 0 = Inr (forw_1, back_1)
            \<and> GetPowerFlux s4_ext_pol S' ''Sub'' 0 = Inr (forw_2, back_2)
            \<and> np_abs_div back_1 forw_1 = Inr R
            \<and> np_abs_div forw_2 forw_1 = Inr T
            \<and> da_values out ! 1 = [R, T, float64 (float64 (1 - R) - T)]))"
proof -
  let ?out = "\<lparr>da_path = s4_spectra_path str_nb s4_struct_nb run_180222,
          da_values = [[1 / 4, 1 / 8, 5 / 8], [1 / 4, 1 / 8, 5 / 8], [1 / 4, 1 / 8, 5 / 8 :: real]],
          da_wavelength = [400, 600, 800],
          da_spectrum = [''R'', ''T'', ''A''],
          da_attrs = [(''light'', py_repr str_nb (s4_light_dict s4_light_3)),
                      (''struct'', py_repr str_nb (s4_struct_dict s4_struct_nb)),
                      (''s4'', py_repr str_nb (s4_opts_dict s4_opts_nb))]\<rparr>"
  have run: "s4_spectra s4_ext_pol str_nb s4_light_3 s4_struct_nb s4_opts_nb run_180222 = Inr ?out"
    by (simp add: s4_spectra_def s4_sweep_def executor_map_def linspace_light_3 s4_build_pol
      rta_def rta_setup_def rta_fluxes_def s4_ext_pol_sel py_get_def np_abs_div_def
      py_complex_div_def Let_def float64_eighths unpack_columns_def column_stack_def)
  have cfg: "pol s4_light_3 = [0, 1]"
    by (simp add: s4_light_3_def s4_light_nb_def)
  note T = rta_ignores_configured_pol [OF run cfg, of "[1, 0]"]
  from T [THEN conjunct1] have att: "map_of (da_attrs ?out) ''light''
      = Some ''{'wl_min': 400.0, 'wl_max': 800.0, 'n_wl': 3, 'theta': 0.0, 'phi': 0.0, 'pol': [0.0, 1.0], 'NumBasis': 100}''"
    by (simp only: s4_light_3_text)
  from T [THEN conjunct2, THEN conjunct2, THEN conjunct1, THEN mp, OF s4_dicts_ok(1)]
  have rd: "literal_attr ?out ''light'' = Some (Inr (s4_light_dict s4_light_3))" .
  from T [THEN conjunct2, THEN conjunct2, THEN conjunct2, THEN conjunct1] s4_build_pol
  have S: "snd (excitation s4_sim_nb) = (0, 1)"
    and all: "\<forall>i < length (da_wavelength ?out). \<exists>S' forw_1 back_1 forw_2 back_2 R T.
                    rta_setup s4_ext_pol s4_light_3 s4_struct_nb s4_sim_nb (da_wavelength ?out ! i) = Inr S'
                  \<and> snd (excitation S') = (of_real (1 / sqrt 2), - \<i> / of_real (sqrt 2))
                  \<and> GetPowerFlux s4_ext_pol S' ''Inc'' 0 = Inr (forw_1, back_1)
                  \<and> GetPowerFlux s4_ext_pol S' ''Sub'' 0 = Inr (forw_2, back_2)
                  \<and> np_abs_div back_1 forw_1 = Inr R
                  \<and> np_abs_div forw_2 forw_1 = Inr T
                  \<and> da_values ?out ! i = [R, T, float64 (float64 (1 - R) - T)]"
    by auto
  have i: "1 < length (da_wavelength ?out)" by simp
  from all [rule_format, OF i]
  have row: "\<exists>S' forw_1 back_1 forw_2 back_2 R T.
              rta_setup s4_ext_pol s4_light_3 s4_struct_nb s4_sim_nb 600 = Inr S'
            \<and> snd (excitation S') = (of_real (1 / sqrt 2), - \<i> / of_real (sqrt 2))
            \<and> GetPowerFlux s4_ext_pol S' ''Inc'' 0 = Inr (forw_1, back_1)
            \<and> GetPowerFlux s4_ext_pol S' ''Sub'' 0 = Inr (forw_2, back_2)
            \<and> np_abs_div back_1 forw_1 = Inr R
            \<and> np_abs_div forw_2 forw_1 = Inr T
            \<and> da_values ?out ! 1 = [R, T, float64 (float64 (1 - R) - T)]"
    by simp
  from run att rd s4_build_pol S row
  have "\<exists>out. s4_spectra s4_ext_pol str_nb s4_light_3 s4_struct_nb s4_opts_nb run_180222 = Inr out
        \<and> map_of (da_attrs out) ''light''
            = Some ''{'wl_min': 400.0, 'wl_max': 800.0, 'n_wl': 3, 'theta': 0.0, 'phi': 0.0, 'pol': [0.0, 1.0], 'NumBasis': 100}''
        \<and> literal_attr out ''light'' = Some (Inr (s4_light_dict s4_light_3))
        \<and> s4_build s4_ext_pol s4_light_3 s4_struct_nb s4_opts_nb = Inr s4_sim_nb
        \<and> snd (excitation s4_sim_nb) = (0, 1)
        \<and> (\<exists>S' forw_1 back_1 forw_2 back_2 R T.
              rta_setup s4_ext_pol s4_light_3 s4_struct_nb s4_sim_nb 600 = Inr S'
            \<and> snd (excitation S') = (of_real (1 / sqrt 2), - \<i> / of_real (sqrt 2))
            \<and> GetPowerFlux s4_ext_pol S' ''Inc'' 0 = Inr (forw_1, back_1)
            \<and> GetPowerFlux s4_ext_pol S' ''Sub'' 0 = Inr (forw_2, back_2)
            \<and> np_abs_div back_1 forw_1 = Inr R
            \<and> np_abs_div forw_2 forw_1 = Inr T
            \<and> da_values out ! 1 = [R, T, float64 (float64 (1 - R) - T)])"
    by blast
  with s4_spectra_pol_values rta_fluxes_pol cfg show ?thesis by blast
qed


section \<open>The EMUstack spectra\<close>

lemma returns_iff: "returns m \<longleftrightarrow> (\<exists>x. m = Inr x)"
  by (cases m) (simp_all add: returns_def)

lemma py_get_nat: "i < length xs \<Longrightarrow> py_get xs (int i) = Inr (xs ! i)"
  by (simp add: py_get_def)

lemma py_get_Inr: "py_get xs i = Inr x \<Longrightarrow> 0 \<le> i \<Longrightarrow> nat i < length xs \<and> x = xs ! nat i"
  by (auto simp: py_get_def split: if_splits)

lemma concat_nth_uniform:
  "(\<And>xs. xs \<in> set xss \<Longrightarrow> length xs = m) \<Longrightarrow> i < length xss \<Longrightarrow> k < m
   \<Longrightarrow> i * m + k < length (concat xss) \<and> concat xss ! (i * m + k) = xss ! i ! k"
proof (induction xss arbitrary: i)
  case Nil
  then show ?case by simp
next
  case (Cons xs xss)
  have lx: "length xs = m" using Cons.prems(1) by simp
  show ?case
  proof (cases i)
    case 0
    then show ?thesis using lx Cons.prems(3) by (simp add: nth_append)
  next
    case (Suc j)
    with Cons.prems have j: "j < length xss" by simp
    from Cons.IH [OF _ j Cons.prems(3)] Cons.prems(1)
    have IH: "j * m + k < length (concat xss) \<and> concat xss ! (j * m + k) = xss ! j ! k" by simp
    have "Suc j * m + k = m + (j * m + k)" by simp
    then show ?thesis using IH lx Suc by (simp add: nth_append)
  qed
qed


lemma collect_scat_traverse:
  "collect_scat ext p stks =
     bind_err (traverse (\<lambda>stk. scat_fluxes ext (layers stk) p) stks) (\<lambda>fs.
       Inr (concat (map fst fs), concat (map (\<lambda>x. fst (snd x)) fs),
            concat (map (\<lambda>x. snd (snd x)) fs)))"
proof (induction stks)
  case Nil
  then show ?case by simp
next
  case (Cons stk stks)
  show ?case
  proof (cases "scat_fluxes ext (layers stk) p")
    case (Inl e)
    then show ?thesis by (simp add: calc_scat_def)
  next
    case (Inr x)
    obtain a t r where x: "x = (a, t, r)" by (cases x)
    show ?thesis
    proof (cases "traverse (\<lambda>stk. scat_fluxes ext (layers stk) p) stks")
      case (Inl e)
      then show ?thesis using Inr x Cons.IH by (simp add: calc_scat_def)
    next
      case (Inr fs)
      then show ?thesis using \<open>scat_fluxes ext (layers stk) p = Inr x\<close> x Cons.IH
        by (simp add: calc_scat_def)
    qed
  qed
qed

lemma extract_totals_traverse:
  "extract_totals a_all t_all r_all ls idx =
     bind_err (traverse (\<lambda>i.
         bind_err (py_get a_all (ls - 1 + int i * ls)) (\<lambda>a.
         bind_err (py_get t_all (ls - 1 + int i * ls)) (\<lambda>t.
         bind_err (py_get r_all (int i)) (\<lambda>r. Inr (a, t, r))))) idx)
       (\<lambda>xs. Inr (map fst xs, map (\<lambda>x. fst (snd x)) xs, map (\<lambda>x. snd (snd x)) xs))"
proof (induction idx)
  case Nil
  then show ?case by simp
next
  case (Cons i idx)
  show ?case
    by (simp add: Cons.IH bind_err_def split: sum.splits)
qed

lemma extract_totals_length:
  "extract_totals a_all t_all r_all ls idx = Inr (a_tot, t_tot, r_tot)
   \<Longrightarrow> length a_tot = length idx \<and> length t_tot = length idx \<and> length r_tot = length idx"
  by (auto simp: extract_totals_traverse bind_err_Inr_iff dest: traverse_length)


lemma rta_spectra_Inr:
  assumes "rta_spectra ext stks p = Inr (v_R, v_T, v_A)"
  shows "length v_R = length stks \<and> length v_T = length stks \<and> length v_A = length stks
         \<and> stks \<noteq> []"
proof -
  from assms obtain a_all t_all r_all stack0 a_tot t_tot r_tot where
    g: "py_get stks 0 = Inr stack0"
    and e: "extract_totals a_all t_all r_all (int (length (layers stack0)) - 1) [0..<length stks]
          = Inr (a_tot, t_tot, r_tot)"
    and v: "v_R = r_tot" "v_T = t_tot" "v_A = a_tot"
    by (auto simp: rta_spectra_def bind_err_Inr_iff split: prod.splits)
  from g have "stks \<noteq> []" by (auto simp: py_get_def)
  with extract_totals_length [OF e] v show ?thesis by simp
qed



lemma py_get_concat:
  assumes "\<And>x. x \<in> set fs \<Longrightarrow> length (g x) = m" and "i < length fs" and "k < m"
  shows "py_get (concat (map g fs)) (int (i * m + k)) = Inr (g (fs ! i) ! k)"
proof -
  have "i * m + k < length (concat (map g fs)) \<and> concat (map g fs) ! (i * m + k) = map g fs ! i ! k"
  proof (rule concat_nth_uniform)
    fix xs assume "xs \<in> set (map g fs)"
    then show "length xs = m" using assms(1) by auto
  next
    show "i < length (map g fs)" using assms(2) by simp
  next
    show "k < m" by (rule assms(3))
  qed
  then have "py_get (concat (map g fs)) (int (i * m + k)) = Inr (concat (map g fs) ! (i * m + k))"
    by (simp only: py_get_nat)
  with \<open>_ \<and> _\<close> assms(2) show ?thesis by (simp only: nth_map)
qed

lemma map_nth_upt: "length fs = n \<Longrightarrow> map (\<lambda>i. g (fs ! i)) [0..<n] = map g fs"
  by (auto simp: list_eq_iff_nth_eq)

lemma rta_spectra_shaped:
  assumes fs: "traverse (\<lambda>stk. scat_fluxes ext (layers stk) p) stks = Inr fs"
    and shape: "\<And>x. x \<in> set fs \<Longrightarrow>
                  length (fst x) = 2 \<and> length (fst (snd x)) = 2 \<and> length (snd (snd x)) = 1"
    and ne: "stks \<noteq> []"
    and l3: "length (layers (hd stks)) = 3"
  shows "rta_spectra ext stks p =
           Inr (map (\<lambda>x. snd (snd x) ! 0) fs, map (\<lambda>x. fst (snd x) ! 1) fs, map (\<lambda>x. fst x ! 1) fs)"
proof -
  define a where "a = concat (map fst fs)"
  define t where "t = concat (map (\<lambda>x. fst (snd x)) fs)"
  define r where "r = concat (map (\<lambda>x. snd (snd x)) fs)"
  have n: "length fs = length stks" using traverse_length [OF fs] .
  have c: "collect_scat ext p stks = Inr (a, t, r)"
    by (simp add: collect_scat_traverse fs a_def t_def r_def)
  have g0: "py_get stks 0 = Inr (hd stks)"
    using ne by (cases stks) (simp_all add: py_get_def)
  define f where "f = (\<lambda>i. bind_err (py_get a (2 - 1 + int i * 2)) (\<lambda>a.
         bind_err (py_get t (2 - 1 + int i * 2)) (\<lambda>t.
         bind_err (py_get r (int i)) (\<lambda>r. Inr (a, t, r)))))"
  have each: "f i = Inr (fst (fs ! i) ! 1, fst (snd (fs ! i)) ! 1, snd (snd (fs ! i)) ! 0)"
    if "i \<in> set [0..<length stks]" for i
  proof -
    from that n have i: "i < length fs" by simp
    have idx: "2 - 1 + int i * 2 = int (i * 2 + 1)" by simp
    have A: "py_get a (int (i * 2 + 1)) = Inr (fst (fs ! i) ! 1)"
      unfolding a_def by (rule py_get_concat) (simp_all add: shape i)
    have T: "py_get t (int (i * 2 + 1)) = Inr (fst (snd (fs ! i)) ! 1)"
      unfolding t_def by (rule py_get_concat) (simp_all add: shape i)
    have "py_get r (int (i * 1 + 0)) = Inr (snd (snd (fs ! i)) ! 0)"
      unfolding r_def by (rule py_get_concat) (simp_all add: shape i)
    then have R: "py_get r (int i) = Inr (snd (snd (fs ! i)) ! 0)" by simp
    show ?thesis unfolding f_def idx by (simp only: A T R bind_err_simps)
  qed
  have "traverse f [0..<length stks]
          = Inr (map (\<lambda>i. (fst (fs ! i) ! 1, fst (snd (fs ! i)) ! 1, snd (snd (fs ! i)) ! 0))
                   [0..<length stks])"
    by (rule traverse_map) (rule each)
  then have e: "extract_totals a t r 2 [0..<length stks]
          = Inr (map (\<lambda>i. fst (fs ! i) ! 1) [0..<length stks],
                 map (\<lambda>i. fst (snd (fs ! i)) ! 1) [0..<length stks],
                 map (\<lambda>i. snd (snd (fs ! i)) ! 0) [0..<length stks])"
    unfolding extract_totals_traverse f_def by (simp add: comp_def)
  have e': "extract_totals a t r 2 [0..<length stks]
          = Inr (map (\<lambda>x. fst x ! 1) fs, map (\<lambda>x. fst (snd x) ! 1) fs, map (\<lambda>x. snd (snd x) ! 0) fs)"
    unfolding e
    using map_nth_upt [OF n, of "\<lambda>x. fst x ! 1"] map_nth_upt [OF n, of "\<lambda>x. fst (snd x) ! 1"]
      map_nth_upt [OF n, of "\<lambda>x. snd (snd x) ! 0"]
    by simp
  show ?thesis
    unfolding rta_spectra_def c using g0 l3 e' by simp
qed


lemma simulate_stack_layers: "simulate_stack ext l = Inr stk \<Longrightarrow> length (layers stk) = 3"
  by (auto simp: simulate_stack_def bind_err_Inr_iff Stack_def)

lemma sample_ok_iff:
  "sample_ok ext p l \<longleftrightarrow>
     (\<exists>stk a t r. simulate_stack ext l = Inr stk \<and> scat_fluxes ext (layers stk) p = Inr (a, t, r)
        \<and> length a = 2 \<and> length t = 2 \<and> length r = 1)"
  by (auto simp: sample_ok_def split: sum.splits)

lemma samples_ok_stacks:
  "list_all (sample_ok ext p) ls \<Longrightarrow> \<exists>stks. traverse (simulate_stack ext) ls = Inr stks"
  by (rule traverse_total) (auto simp: list_all_iff sample_ok_iff)

lemma stacks_fluxes:
  "traverse (simulate_stack ext) ls = Inr stks \<Longrightarrow> list_all (sample_ok ext p) ls \<Longrightarrow>
     \<exists>fs. traverse (\<lambda>stk. scat_fluxes ext (layers stk) p) stks = Inr fs
        \<and> list_all (\<lambda>x. length (fst x) = 2 \<and> length (fst (snd x)) = 2 \<and> length (snd (snd x)) = 1) fs"
proof (induction ls arbitrary: stks)
  case Nil
  then show ?case by simp
next
  case (Cons l ls)
  from Cons.prems(1) obtain stk stks' where
    stk: "simulate_stack ext l = Inr stk" and rest: "traverse (simulate_stack ext) ls = Inr stks'"
    and stks: "stks = stk # stks'"
    by (auto simp: bind_err_Inr_iff)
  from Cons.prems(2) stk obtain a t r where
    fl: "scat_fluxes ext (layers stk) p = Inr (a, t, r)"
    and sh: "length a = 2" "length t = 2" "length r = 1"
    by (auto simp: sample_ok_iff)
  from Cons.IH [OF rest] Cons.prems(2) obtain fs where
    "traverse (\<lambda>stk. scat_fluxes ext (layers stk) p) stks' = Inr fs"
    "list_all (\<lambda>x. length (fst x) = 2 \<and> length (fst (snd x)) = 2 \<and> length (snd (snd x)) = 1) fs"
    by auto
  with fl sh stks show ?case by simp
qed

lemma stacks_layers:
  "traverse (simulate_stack ext) ls = Inr stks \<Longrightarrow> stk \<in> set stks \<Longrightarrow> length (layers stk) = 3"
proof -
  assume t: "traverse (simulate_stack ext) ls = Inr stks" and "stk \<in> set stks"
  then obtain i where i: "i < length stks" and s: "stk = stks ! i" by (metis in_set_conv_nth)
  from traverse_length [OF t] i have "i < length ls" by simp
  from traverse_nth [OF t this] s show ?thesis by (simp add: simulate_stack_layers)
qed

text \<open>The sweep of the single-angle notebook when every sample is answered in shape.\<close>

lemma emu_sweep_shaped:
  assumes ok: "list_all (sample_ok ext (pol_mode light)) (light_list light (theta light) v_wl)"
    and ne: "v_wl \<noteq> []"
  shows "\<exists>stks fs.
           traverse (simulate_stack ext) (light_list light (theta light) v_wl) = Inr stks
         \<and> traverse (\<lambda>stk. scat_fluxes ext (layers stk) (pol_mode light)) stks = Inr fs
         \<and> emu_sweep ext light v_wl =
             Inr (map (\<lambda>x. snd (snd x) ! 0) fs, map (\<lambda>x. fst (snd x) ! 1) fs, map (\<lambda>x. fst x ! 1) fs)"
proof -
  from samples_ok_stacks [OF ok] obtain stks where
    st: "traverse (simulate_stack ext) (light_list light (theta light) v_wl) = Inr stks" by blast
  from stacks_fluxes [OF st ok] obtain fs where
    fs: "traverse (\<lambda>stk. scat_fluxes ext (layers stk) (pol_mode light)) stks = Inr fs"
    and sh: "list_all (\<lambda>x. length (fst x) = 2 \<and> length (fst (snd x)) = 2 \<and> length (snd (snd x)) = 1) fs"
    by blast
  have n: "length stks = length v_wl"
    using traverse_length [OF st] by (simp add: light_list_def)
  with ne have sne: "stks \<noteq> []" by auto
  then have "hd stks \<in> set stks" by simp
  from stacks_layers [OF st this] have l3: "length (layers (hd stks)) = 3" .
  have "rta_spectra ext stks (pol_mode light) =
           Inr (map (\<lambda>x. snd (snd x) ! 0) fs, map (\<lambda>x. fst (snd x) ! 1) fs, map (\<lambda>x. fst x ! 1) fs)"
    by (rule rta_spectra_shaped [OF fs _ sne l3]) (use sh in \<open>simp add: list_all_iff\<close>)
  with st fs show ?thesis
    by (simp add: emu_sweep_def executor_map_def)
qed

text \<open>
  Claim C8. The arrays that the single-angle driver returns are in the order of the
  wavelengths: when EMUstack answers every sample with lists of the three-layer shape,
  entry \<open>i\<close> of R, T and A is read from the stack simulated for the \<open>i\<close>-th wavelength
  (its reflection entry and the last entries of its transmission and absorption lists),
  and is what the driver returns for that wavelength alone.
\<close>

theorem results_in_input_order:
  assumes run: "emu_sweep ext light v_wl = Inr (v_R, v_T, v_A)"
    and ok: "list_all (sample_ok ext (pol_mode light)) (light_list light (theta light) v_wl)"
    and i: "i < length v_wl"
  shows "\<exists>stk a t r.
           simulate_stack ext (Light (v_wl ! i) (max_order_PWs light) (theta light) (phi light)) = Inr stk
         \<and> scat_fluxes ext (layers stk) (pol_mode light) = Inr (a, t, r)
         \<and> v_R ! i = r ! 0 \<and> v_T ! i = t ! 1 \<and> v_A ! i = a ! 1
         \<and> emu_sweep ext light [v_wl ! i] = Inr ([v_R ! i], [v_T ! i], [v_A ! i])"
proof -
  from i have ne: "v_wl \<noteq> []" by auto
  from emu_sweep_shaped [OF ok ne] run obtain stks fs where
    st: "traverse (simulate_stack ext) (light_list light (theta light) v_wl) = Inr stks"
    and fs: "traverse (\<lambda>stk. scat_fluxes ext (layers stk) (pol_mode light)) stks = Inr fs"
    and v: "v_R = map (\<lambda>x. snd (snd x) ! 0) fs" "v_T = map (\<lambda>x. fst (snd x) ! 1) fs"
      "v_A = map (\<lambda>x. fst x ! 1) fs"
    by auto
  have n: "length stks = length v_wl"
    using traverse_length [OF st] by (simp add: light_list_def)
  have m: "length fs = length v_wl" using traverse_length [OF fs] n by simp
  let ?l = "Light (v_wl ! i) (max_order_PWs light) (theta light) (phi light)"
  have li: "light_list light (theta light) v_wl ! i = ?l"
    using i by (simp add: light_list_def)
  have il: "i < length (light_list light (theta light) v_wl)" using i by (simp add: light_list_def)
  from traverse_nth [OF st il] li have s: "simulate_stack ext ?l = Inr (stks ! i)" by simp
  from i n have "i < length stks" by simp
  from traverse_nth [OF fs this]
  have f: "scat_fluxes ext (layers (stks ! i)) (pol_mode light) = Inr (fs ! i)" .
  obtain a t r where x: "fs ! i = (a, t, r)" by (cases "fs ! i")
  have vi: "v_R ! i = r ! 0" "v_T ! i = t ! 1" "v_A ! i = a ! 1"
    using v x i m by simp_all
  have ok1: "list_all (sample_ok ext (pol_mode light)) (light_list light (theta light) [v_wl ! i])"
    using ok il li by (simp add: list_all_iff light_list_def)
  from emu_sweep_shaped [OF ok1] s f x
  have "emu_sweep ext light [v_wl ! i] = Inr ([r ! 0], [t ! 1], [a ! 1])"
    by (auto simp: light_list_def bind_err_Inr_iff)
  with s f x vi show ?thesis by simp
qed

lemma emu_ok_lin: "sample_ok emu_ext_lin p (Light wl mo th ph)"
  by (simp add: sample_ok_def simulate_stack_def emu_ext_lin_def Stack_def)

theorem results_in_input_order_witness:
  "emu_sweep emu_ext_lin emu_light_3 [400, 600, 800]
     = Inr ([Fin (1 / 10), Fin (3 / 20), Fin (1 / 5)], [Fin (1 / 5), Fin (3 / 10), Fin (2 / 5)],
            [Fin (2 / 5), Fin (3 / 5), Fin (4 / 5)])
   \<and> emu_sweep emu_ext_lin emu_light_3 [600] = Inr ([Fin (3 / 20)], [Fin (3 / 10)], [Fin (3 / 5)])"
proof -
  have run: "emu_sweep emu_ext_lin emu_light_3 [400, 600, 800]
     = Inr ([Fin (1 / 10), Fin (3 / 20), Fin (1 / 5)], [Fin (1 / 5), Fin (3 / 10), Fin (2 / 5)],
            [Fin (2 / 5), Fin (3 / 5), Fin (4 / 5)])"
    by (simp add: emu_sweep_def executor_map_def light_list_def simulate_stack_def emu_ext_lin_def
        Stack_def rta_spectra_def calc_scat_def py_get_def emu_light_3_def upt_3)
  have ok: "list_all (sample_ok emu_ext_lin (pol_mode emu_light_3))
              (light_list emu_light_3 (theta emu_light_3) [400, 600, 800])"
    by (simp add: light_list_def emu_ok_lin)
  from results_in_input_order [OF run ok, of 1] run show ?thesis
    by auto
qed


section \<open>The wavelength-angle sweep and its table\<close>

lemma np_binop_same: "length xs = length ys \<Longrightarrow> np_binop f xs ys = Inr (map2 f xs ys)"
  by (simp add: np_binop_def)

lemma map2_cd_ratio:
  "length v_l = length v_r \<Longrightarrow>
     map2 np_div (map2 np_sub v_l v_r) (map2 np_add v_l v_r) = map2 cd_ratio v_l v_r"
  by (induction v_l v_r rule: list_induct2) (simp_all add: cd_ratio_def)

lemma np_cd_eq: "length v_l = length v_r \<Longrightarrow> np_cd v_l v_r = Inr (map2 cd_ratio v_l v_r)"
  by (simp add: np_cd_def np_binop_same map2_cd_ratio)

lemma angle_columns_eq:
  assumes te: "rta_spectra ext stks ''TE'' = Inr (R_te, T_te, A_te)"
    and tm: "rta_spectra ext stks ''TM'' = Inr (R_tm, T_tm, A_tm)"
    and rc: "rta_spectra ext stks ''R Circ'' = Inr (R_r, T_r, A_r)"
    and lc: "rta_spectra ext stks ''L Circ'' = Inr (R_l, T_l, A_l)"
  shows "angle_columns ext stks =
           Inr [R_te, T_te, A_te, R_tm, T_tm, A_tm,
                map2 cd_ratio R_l R_r, map2 cd_ratio T_l T_r, map2 cd_ratio A_l A_r,
                R_r, T_r, A_r, R_l, T_l, A_l]"
proof -
  note r = rta_spectra_Inr [OF rc] and l = rta_spectra_Inr [OF lc]
  have "np_cd R_l R_r = Inr (map2 cd_ratio R_l R_r)" using r l by (simp add: np_cd_eq)
  moreover have "np_cd T_l T_r = Inr (map2 cd_ratio T_l T_r)" using r l by (simp add: np_cd_eq)
  moreover have "np_cd A_l A_r = Inr (map2 cd_ratio A_l A_r)" using r l by (simp add: np_cd_eq)
  ultimately show ?thesis
    by (simp add: angle_columns_def te tm rc lc)
qed

lemma angle_columns_Inr:
  assumes "angle_columns ext stks = Inr cols"
  shows "\<exists>R_te T_te A_te R_tm T_tm A_tm R_r T_r A_r R_l T_l A_l.
           rta_spectra ext stks ''TE'' = Inr (R_te, T_te, A_te)
         \<and> rta_spectra ext stks ''TM'' = Inr (R_tm, T_tm, A_tm)
         \<and> rta_spectra ext stks ''R Circ'' = Inr (R_r, T_r, A_r)
         \<and> rta_spectra ext stks ''L Circ'' = Inr (R_l, T_l, A_l)
         \<and> cols = [R_te, T_te, A_te, R_tm, T_tm, A_tm,
                map2 cd_ratio R_l R_r, map2 cd_ratio T_l T_r, map2 cd_ratio A_l A_r,
                R_r, T_r, A_r, R_l, T_l, A_l]"
proof -
  from assms obtain te where te: "rta_spectra ext stks ''TE'' = Inr te"
    by (cases "rta_spectra ext stks ''TE''") (simp_all add: angle_columns_def)
  from assms te obtain tm where tm: "rta_spectra ext stks ''TM'' = Inr tm"
    by (cases "rta_spectra ext stks ''TM''") (simp_all add: angle_columns_def split: prod.splits)
  from assms te tm obtain rc where rc: "rta_spectra ext stks ''R Circ'' = Inr rc"
    by (cases "rta_spectra ext stks ''R Circ''") (simp_all add: angle_columns_def split: prod.splits)
  from assms te tm rc obtain lc where lc: "rta_spectra ext stks ''L Circ'' = Inr lc"
    by (cases "rta_spectra ext stks ''L Circ''") (simp_all add: angle_columns_def split: prod.splits)
  obtain R_te T_te A_te where 1: "te = (R_te, T_te, A_te)" by (cases te)
  obtain R_tm T_tm A_tm where 2: "tm = (R_tm, T_tm, A_tm)" by (cases tm)
  obtain R_r T_r A_r where 3: "rc = (R_r, T_r, A_r)" by (cases rc)
  obtain R_l T_l A_l where 4: "lc = (R_l, T_l, A_l)" by (cases lc)
  from angle_columns_eq [OF te [unfolded 1] tm [unfolded 2] rc [unfolded 3] lc [unfolded 4]] assms
  have "cols = [R_te, T_te, A_te, R_tm, T_tm, A_tm,
                map2 cd_ratio R_l R_r, map2 cd_ratio T_l T_r, map2 cd_ratio A_l A_r,
                R_r, T_r, A_r, R_l, T_l, A_l]" by simp
  with te tm rc lc 1 2 3 4 show ?thesis by blast
qed

lemma angle_columns_lengths:
  assumes "angle_columns ext stks = Inr cols" and "c \<in> set cols"
  shows "length c = length stks"
proof -
  from angle_columns_Inr [OF assms(1)] obtain R_te T_te A_te R_tm T_tm A_tm R_r T_r A_r R_l T_l A_l
    where te: "rta_spectra ext stks ''TE'' = Inr (R_te, T_te, A_te)"
      and tm: "rta_spectra ext stks ''TM'' = Inr (R_tm, T_tm, A_tm)"
      and rc: "rta_spectra ext stks ''R Circ'' = Inr (R_r, T_r, A_r)"
      and lc: "rta_spectra ext stks ''L Circ'' = Inr (R_l, T_l, A_l)"
      and cols: "cols = [R_te, T_te, A_te, R_tm, T_tm, A_tm,
                map2 cd_ratio R_l R_r, map2 cd_ratio T_l T_r, map2 cd_ratio A_l A_r,
                R_r, T_r, A_r, R_l, T_l, A_l]"
    by blast
  note L = rta_spectra_Inr [OF te] rta_spectra_Inr [OF tm] rta_spectra_Inr [OF rc]
    rta_spectra_Inr [OF lc]
  from assms(2) show ?thesis unfolding cols using L by auto
qed

lemma write_rows_ok:
  assumes "\<And>c. c \<in> set cols \<Longrightarrow> length c = n" and "\<And>i wl. (i, wl) \<in> set iw \<Longrightarrow> i < n"
  shows "write_rows cols th ph iw f
           = (None, f @ map (\<lambda>(i_wl, wl). Row wl th ph (map (\<lambda>c. c ! i_wl) cols)) iw)"
  using assms(2)
proof (induction iw arbitrary: f)
  case Nil
  then show ?case by simp
next
  case (Cons x iw)
  obtain i wl where x: "x = (i, wl)" by (cases x)
  with Cons.prems have i: "i < n" by auto
  have t: "traverse (\<lambda>v. py_get v (int i)) cols = Inr (map (\<lambda>c. c ! i) cols)"
    by (rule traverse_map) (simp add: py_get_nat assms(1) i)
  have "write_rows cols th ph iw (f @ [Row wl th ph (map (\<lambda>c. c ! i) cols)])
          = (None, (f @ [Row wl th ph (map (\<lambda>c. c ! i) cols)])
                   @ map (\<lambda>(i_wl, wl). Row wl th ph (map (\<lambda>c. c ! i_wl) cols)) iw)"
    by (rule Cons.IH) (use Cons.prems in auto)
  then show ?case using t x by simp
qed

lemma angle_tables_lengths:
  assumes "angle_tables ext light v_wl th = Inr cols" and "c \<in> set cols"
  shows "length c = length v_wl"
proof -
  from assms(1) obtain stks where
    st: "traverse (simulate_stack ext) (light_list light th v_wl) = Inr stks"
    and ac: "angle_columns ext stks = Inr cols"
    by (auto simp: angle_tables_def executor_map_def bind_err_Inr_iff)
  from traverse_length [OF st] have "length stks = length v_wl" by (simp add: light_list_def)
  with angle_columns_lengths [OF ac assms(2)] show ?thesis by simp
qed

lemma theta_step_Inl:
  "angle_tables ext light v_wl th = Inl e \<Longrightarrow> theta_step ext light v_wl th f = (Some e, f)"
  by (simp add: theta_step_def)

lemma theta_step_Inr:
  assumes "angle_tables ext light v_wl th = Inr cols"
  shows "theta_step ext light v_wl th f = (None, f @ angle_rows cols th (phi light) v_wl)"
proof -
  have "write_rows cols th (phi light) (enumerate 0 v_wl) f
           = (None, f @ map (\<lambda>(i_wl, wl). Row wl th (phi light) (map (\<lambda>c. c ! i_wl) cols))
                           (enumerate 0 v_wl))"
    by (rule write_rows_ok [where n = "length v_wl"])
      (auto simp: angle_tables_lengths [OF assms] in_set_enumerate_eq)
  with assms show ?thesis by (simp add: theta_step_def angle_rows_def)
qed

lemma theta_step_eq:
  "theta_step ext light v_wl th f =
     (case angle_tables ext light v_wl th of Inl e \<Rightarrow> Some e | Inr cols \<Rightarrow> None,
      f @ angle_rows_of ext light v_wl th)"
  by (cases "angle_tables ext light v_wl th")
    (simp_all add: theta_step_Inl theta_step_Inr angle_rows_of_def)

lemma theta_loop_ok:
  "(\<And>th. th \<in> set ths \<Longrightarrow> returns (angle_tables ext light v_wl th)) \<Longrightarrow>
     theta_loop ext light v_wl ths f = (None, f @ concat (map (angle_rows_of ext light v_wl) ths))"
proof (induction ths arbitrary: f)
  case Nil
  then show ?case by simp
next
  case (Cons th ths)
  from Cons.prems obtain cols where "angle_tables ext light v_wl th = Inr cols"
    by (auto simp: returns_iff)
  then show ?case using Cons by (simp add: theta_step_eq)
qed

lemma theta_loop_fail:
  "(\<And>t. t \<in> set pre \<Longrightarrow> returns (angle_tables ext light v_wl t)) \<Longrightarrow>
   angle_tables ext light v_wl th = Inl e \<Longrightarrow>
     theta_loop ext light v_wl (pre @ th # post) f
       = (Some e, f @ concat (map (angle_rows_of ext light v_wl) pre))"
proof (induction pre arbitrary: f)
  case Nil
  then show ?case by (simp add: theta_step_eq angle_rows_of_def)
next
  case (Cons t pre)
  from Cons.prems obtain cols where "angle_tables ext light v_wl t = Inr cols"
    by (auto simp: returns_iff)
  then show ?case using Cons by (simp add: theta_step_eq)
qed

lemma data_rows_append: "data_rows (f @ g) = data_rows f @ data_rows g"
  by (simp add: data_rows_def)

lemma data_rows_angle_rows: "data_rows (angle_rows cols th ph v_wl) = angle_rows cols th ph v_wl"
  by (auto simp: data_rows_def angle_rows_def filter_id_conv)

lemma length_angle_rows: "length (angle_rows cols th ph v_wl) = length v_wl"
  by (simp add: angle_rows_def)

lemma data_rows_angle_rows_of:
  "data_rows (angle_rows_of ext light v_wl th) = angle_rows_of ext light v_wl th"
proof (cases "angle_tables ext light v_wl th")
  case (Inl e)
  then show ?thesis by (simp add: angle_rows_of_def data_rows_def)
next
  case (Inr cols)
  then show ?thesis by (simp add: angle_rows_of_def data_rows_angle_rows)
qed

lemma length_angle_rows_of:
  "returns (angle_tables ext light v_wl th) \<Longrightarrow>
     length (angle_rows_of ext light v_wl th) = length v_wl"
  by (auto simp: angle_rows_of_def returns_iff length_angle_rows)

lemma data_rows_concat_angles:
  "(\<And>th. th \<in> set ths \<Longrightarrow> returns (angle_tables ext light v_wl th)) \<Longrightarrow>
     length (data_rows (concat (map (angle_rows_of ext light v_wl) ths))) = length ths * length v_wl"
proof (induction ths)
  case Nil
  then show ?case by (simp add: data_rows_def)
next
  case (Cons th ths)
  then show ?case
    by (simp add: data_rows_append data_rows_angle_rows_of length_angle_rows_of)
qed


lemma rta_spectra_ok:
  assumes st: "traverse (simulate_stack ext) ls = Inr stks"
    and ok: "list_all (sample_ok ext p) ls"
    and ne: "ls \<noteq> []"
  shows "returns (rta_spectra ext stks p)"
proof -
  from stacks_fluxes [OF st ok] obtain fs where
    fs: "traverse (\<lambda>stk. scat_fluxes ext (layers stk) p) stks = Inr fs"
    and sh: "list_all (\<lambda>x. length (fst x) = 2 \<and> length (fst (snd x)) = 2 \<and> length (snd (snd x)) = 1) fs"
    by blast
  from traverse_length [OF st] ne have sne: "stks \<noteq> []" by auto
  then have "hd stks \<in> set stks" by simp
  from stacks_layers [OF st this] have l3: "length (layers (hd stks)) = 3" .
  have "rta_spectra ext stks p =
           Inr (map (\<lambda>x. snd (snd x) ! 0) fs, map (\<lambda>x. fst (snd x) ! 1) fs, map (\<lambda>x. fst x ! 1) fs)"
    by (rule rta_spectra_shaped [OF fs _ sne l3]) (use sh in \<open>simp add: list_all_iff\<close>)
  then show ?thesis by (simp add: returns_def)
qed

lemma angle_tables_ok:
  assumes ok: "angle_ok ext light v_wl th" and ne: "v_wl \<noteq> []"
  shows "returns (angle_tables ext light v_wl th)"
proof -
  let ?ls = "light_list light th v_wl"
  have lne: "?ls \<noteq> []" using ne by (simp add: light_list_def)
  from ok have oks: "list_all (sample_ok ext ''TE'') ?ls" "list_all (sample_ok ext ''TM'') ?ls"
    "list_all (sample_ok ext ''R Circ'') ?ls" "list_all (sample_ok ext ''L Circ'') ?ls"
    by (simp_all add: angle_ok_def sweep_pols_def)
  from samples_ok_stacks [OF oks(1)] obtain stks where
    st: "traverse (simulate_stack ext) ?ls = Inr stks" by blast
  from rta_spectra_ok [OF st oks(1) lne] obtain te where te: "rta_spectra ext stks ''TE'' = Inr te"
    by (auto simp: returns_iff)
  from rta_spectra_ok [OF st oks(2) lne] obtain tm where tm: "rta_spectra ext stks ''TM'' = Inr tm"
    by (auto simp: returns_iff)
  from rta_spectra_ok [OF st oks(3) lne] obtain rc where rc: "rta_spectra ext stks ''R Circ'' = Inr rc"
    by (auto simp: returns_iff)
  from rta_spectra_ok [OF st oks(4) lne] obtain lc where lc: "rta_spectra ext stks ''L Circ'' = Inr lc"
    by (auto simp: returns_iff)
  obtain R_te T_te A_te where 1: "te = (R_te, T_te, A_te)" by (cases te)
  obtain R_tm T_tm A_tm where 2: "tm = (R_tm, T_tm, A_tm)" by (cases tm)
  obtain R_r T_r A_r where 3: "rc = (R_r, T_r, A_r)" by (cases rc)
  obtain R_l T_l A_l where 4: "lc = (R_l, T_l, A_l)" by (cases lc)
  from angle_columns_eq [OF te [unfolded 1] tm [unfolded 2] rc [unfolded 3] lc [unfolded 4]] st
  show ?thesis
    by (simp add: angle_tables_def executor_map_def returns_def)
qed

lemma angle_tables_raises:
  assumes "l \<in> set (light_list light th v_wl)" and "simulate_stack ext l = Inl e"
  shows "\<exists>e'. angle_tables ext light v_wl th = Inl e'"
proof -
  from traverse_fails [of l _ "simulate_stack ext" e, OF assms] obtain e' where
    "traverse (simulate_stack ext) (light_list light th v_wl) = Inl e'" by blast
  then show ?thesis by (simp add: angle_tables_def executor_map_def)
qed

lemma emu_theta_sweep_complete:
  assumes w: "linspace (wl_min light) (wl_max light) (n_wl light) = Inr v_wl"
    and t: "linspace (theta_min light) (theta_max light) (n_theta light) = Inr v_theta"
    and ok: "\<And>th. th \<in> set v_theta \<Longrightarrow> returns (angle_tables ext light v_wl th)"
  shows "emu_theta_sweep ext light
           = (None, [Header] @ concat (map (angle_rows_of ext light v_wl) v_theta) @ [Newline])"
  using theta_loop_ok [of v_theta ext light v_wl "[Header]", OF ok]
  by (simp add: emu_theta_sweep_def w t)

lemma emu_theta_sweep_raises:
  assumes w: "linspace (wl_min light) (wl_max light) (n_wl light) = Inr v_wl"
    and t: "linspace (theta_min light) (theta_max light) (n_theta light) = Inr (pre @ th # post)"
    and ok: "\<And>t. t \<in> set pre \<Longrightarrow> returns (angle_tables ext light v_wl t)"
    and bad: "angle_tables ext light v_wl th = Inl e"
  shows "emu_theta_sweep ext light
           = (Some e, [Header] @ concat (map (angle_rows_of ext light v_wl) pre))"
  using theta_loop_fail [of pre ext light v_wl th e post "[Header]", OF ok bad]
  by (simp add: emu_theta_sweep_def w t)

lemma data_rows_table:
  assumes "\<And>th. th \<in> set ths \<Longrightarrow> returns (angle_tables ext light v_wl th)"
  shows "length (data_rows ([Header] @ concat (map (angle_rows_of ext light v_wl) ths) @ tail))
           = length ths * length v_wl + length (data_rows tail)"
  using data_rows_concat_angles [of ths ext light v_wl, OF assms]
  by (simp add: data_rows_append) (simp add: data_rows_def)

lemma upt_2: "[0..<2] = [0, 1]"
  by (simp add: upt_rec numeral_2_eq_2)

lemma linspace_2: "linspace a b 2 = Inr [a, b]"
  by (simp add: linspace_def upt_2)


lemma emu_sweep_ok:
  assumes ok: "list_all (sample_ok ext (pol_mode light)) (light_list light (theta light) v_wl)"
    and ne: "v_wl \<noteq> []"
  shows "\<exists>v_R v_T v_A. emu_sweep ext light v_wl = Inr (v_R, v_T, v_A)
           \<and> length v_R = length v_wl \<and> length v_T = length v_wl \<and> length v_A = length v_wl"
proof -
  from emu_sweep_shaped [OF ok ne] obtain stks fs where
    st: "traverse (simulate_stack ext) (light_list light (theta light) v_wl) = Inr stks"
    and fs: "traverse (\<lambda>stk. scat_fluxes ext (layers stk) (pol_mode light)) stks = Inr fs"
    and e: "emu_sweep ext light v_wl =
             Inr (map (\<lambda>x. snd (snd x) ! 0) fs, map (\<lambda>x. fst (snd x) ! 1) fs, map (\<lambda>x. fst x ! 1) fs)"
    by blast
  have "length fs = length v_wl"
    using traverse_length [OF st] traverse_length [OF fs] by (simp add: light_list_def)
  with e show ?thesis by simp
qed

text \<open>
  Claim C3. The number of samples is the product of the lengths of the sweep axes. With at
  least one wavelength and a solver that answers every sample (for EMUstack: with lists
  of the three-layer shape), the S4 sweep and the EMUstack single-angle sweep return R, T
  and A of length \<open>n_wl\<close> each, and the wavelength-angle notebook runs to its end and has
  written \<open>n_wl * n_theta\<close> data rows.
\<close>

theorem sweep_sample_counts:
  "(1 \<le> n_wl light4
      \<and> linspace (wl_min light4) (wl_max light4) (n_wl light4) = Inr v_wl4
      \<and> list_all (\<lambda>wl. returns (rta ext4 light4 struct4 S wl)) v_wl4
    \<longrightarrow> (\<exists>v_R v_T v_A. s4_sweep ext4 light4 struct4 S v_wl4 = Inr (v_R, v_T, v_A)
           \<and> length v_R = nat (n_wl light4) \<and> length v_T = nat (n_wl light4)
           \<and> length v_A = nat (n_wl light4)))
   \<and> (1 \<le> n_wl light
      \<and> linspace (wl_min light) (wl_max light) (n_wl light) = Inr v_wl
      \<and> list_all (sample_ok ext (pol_mode light)) (light_list light (theta light) v_wl)
    \<longrightarrow> (\<exists>v_R v_T v_A. emu_sweep ext light v_wl = Inr (v_R, v_T, v_A)
           \<and> length v_R = nat (n_wl light) \<and> length v_T = nat (n_wl light)
           \<and> length v_A = nat (n_wl light)))
   \<and> (1 \<le> n_wl light
      \<and> linspace (wl_min light) (wl_max light) (n_wl light) = Inr v_wl
      \<and> linspace (theta_min light) (theta_max light) (n_theta light) = Inr v_theta
      \<and> list_all (angle_ok ext light v_wl) v_theta
    \<longrightarrow> fst (emu_theta_sweep ext light) = None
        \<and> length (data_rows (snd (emu_theta_sweep ext light)))
            = nat (n_wl light) * nat (n_theta light))"
proof (intro conjI impI)
  assume a: "1 \<le> n_wl light4
      \<and> linspace (wl_min light4) (wl_max light4) (n_wl light4) = Inr v_wl4
      \<and> list_all (\<lambda>wl. returns (rta ext4 light4 struct4 S wl)) v_wl4"
  then have len: "length v_wl4 = nat (n_wl light4)" by (auto dest: linspace_length)
  with a have ne: "v_wl4 \<noteq> []" by auto
  have "\<exists>r. rta ext4 light4 struct4 S wl = Inr r" if "wl \<in> set v_wl4" for wl
    using a that by (auto simp: list_all_iff returns_iff)
  from s4_sweep_total [OF ne this] obtain v_R v_T v_A where
    sw: "s4_sweep ext4 light4 struct4 S v_wl4 = Inr (v_R, v_T, v_A)" by blast
  from s4_sweep_Inr(1-3) [OF sw] len sw
  show "\<exists>v_R v_T v_A. s4_sweep ext4 light4 struct4 S v_wl4 = Inr (v_R, v_T, v_A)
           \<and> length v_R = nat (n_wl light4) \<and> length v_T = nat (n_wl light4)
           \<and> length v_A = nat (n_wl light4)"
    by simp
next
  assume a: "1 \<le> n_wl light
      \<and> linspace (wl_min light) (wl_max light) (n_wl light) = Inr v_wl
      \<and> list_all (sample_ok ext (pol_mode light)) (light_list light (theta light) v_wl)"
  then have len: "length v_wl = nat (n_wl light)" by (auto dest: linspace_length)
  with a have ne: "v_wl \<noteq> []" by auto
  from a have ok: "list_all (sample_ok ext (pol_mode light)) (light_list light (theta light) v_wl)"
    by simp
  from emu_sweep_ok [OF ok ne] len
  show "\<exists>v_R v_T v_A. emu_sweep ext light v_wl = Inr (v_R, v_T, v_A)
           \<and> length v_R = nat (n_wl light) \<and> length v_T = nat (n_wl light)
           \<and> length v_A = nat (n_wl light)"
    by simp
next
  assume a: "1 \<le> n_wl light
      \<and> linspace (wl_min light) (wl_max light) (n_wl light) = Inr v_wl
      \<and> linspace (theta_min light) (theta_max light) (n_theta light) = Inr v_theta
      \<and> list_all (angle_ok ext light v_wl) v_theta"
  then have w: "linspace (wl_min light) (wl_max light) (n_wl light) = Inr v_wl"
    and t: "linspace (theta_min light) (theta_max light) (n_theta light) = Inr v_theta"
    by simp_all
  have len: "length v_wl = nat (n_wl light)" "length v_theta = nat (n_theta light)"
    using w t by (auto dest: linspace_length)
  with a have ne: "v_wl \<noteq> []" by auto
  have ok: "returns (angle_tables ext light v_wl th)" if "th \<in> set v_theta" for th
    using a that by (auto simp: list_all_iff intro: angle_tables_ok [OF _ ne])
  note run = emu_theta_sweep_complete [OF w t ok]
  show "fst (emu_theta_sweep ext light) = None" by (simp add: run)
  show "length (data_rows (snd (emu_theta_sweep ext light)))
            = nat (n_wl light) * nat (n_theta light)"
    using data_rows_table [of v_theta ext light v_wl "[Newline]", OF ok] len
    by (simp add: run data_rows_def)
qed

lemma rta_const_returns: "returns (rta s4_ext_const light s4_struct_nb S wl)"
  using rta_const [of light S wl] by (auto simp: returns_iff)


theorem sweep_sample_counts_witness:
  "(\<exists>v_R v_T v_A. s4_sweep s4_ext_const s4_light_3 s4_struct_nb s4_sim_nb [400, 600, 800]
        = Inr (v_R, v_T, v_A) \<and> length v_R = 3 \<and> length v_T = 3 \<and> length v_A = 3)
   \<and> (\<exists>v_R v_T v_A. emu_sweep emu_ext_lin emu_light_3 [400, 600, 800] = Inr (v_R, v_T, v_A)
        \<and> length v_R = 3 \<and> length v_T = 3 \<and> length v_A = 3)
   \<and> fst (emu_theta_sweep emu_ext_lin emu_light_3) = None
   \<and> length (data_rows (snd (emu_theta_sweep emu_ext_lin emu_light_3))) = 3 * 2"
proof -
  have 1: "1 \<le> n_wl s4_light_3
      \<and> linspace (wl_min s4_light_3) (wl_max s4_light_3) (n_wl s4_light_3) = Inr [400, 600, 800]
      \<and> list_all (\<lambda>wl. returns (rta s4_ext_const s4_light_3 s4_struct_nb s4_sim_nb wl)) [400, 600, 800]"
    by (simp add: rta_const_returns) (simp add: s4_light_3_def s4_light_nb_def linspace_3)
  have 2: "1 \<le> n_wl emu_light_3
      \<and> linspace (wl_min emu_light_3) (wl_max emu_light_3) (n_wl emu_light_3) = Inr [400, 600, 800]
      \<and> list_all (sample_ok emu_ext_lin (pol_mode emu_light_3))
           (light_list emu_light_3 (theta emu_light_3) [400, 600, 800])"
    by (simp add: emu_light_3_def linspace_3 light_list_def emu_ok_lin)
  have 3: "1 \<le> n_wl emu_light_3
      \<and> linspace (wl_min emu_light_3) (wl_max emu_light_3) (n_wl emu_light_3) = Inr [400, 600, 800]
      \<and> linspace (theta_min emu_light_3) (theta_max emu_light_3) (n_theta emu_light_3) = Inr [0, 10]
      \<and> list_all (angle_ok emu_ext_lin emu_light_3 [400, 600, 800]) [0, 10]"
    by (simp add: emu_light_3_def linspace_3 linspace_2 light_list_def emu_ok_lin angle_ok_def
        sweep_pols_def)
  have n: "nat (n_wl s4_light_3) = 3" "nat (n_wl emu_light_3) = 3" "nat (n_theta emu_light_3) = 2"
    by (simp_all add: s4_light_3_def s4_light_nb_def emu_light_3_def)
  from sweep_sample_counts [of s4_light_3 "[400, 600, 800]" s4_ext_const s4_struct_nb s4_sim_nb
      emu_light_3 "[400, 600, 800]" emu_ext_lin "[0, 10]"] 1 2 3
  show ?thesis unfolding n by blast
qed


section \<open>Failures of the solver\<close>

lemma traverse_raises:
  assumes "x \<in> set xs" and "f x = Inl e"
  shows "\<exists>e' x'. x' \<in> set xs \<and> f x' = Inl e' \<and> traverse f xs = Inl e'"
proof -
  from traverse_fails [of x xs f e, OF assms] obtain e' where t: "traverse f xs = Inl e'" by blast
  from traverse_Inl [OF t] t show ?thesis by blast
qed

lemma emu_spectra_raises:
  assumes w: "linspace (wl_min light) (wl_max light) (n_wl light) = Inr v_wl"
    and l: "l \<in> set (light_list light (theta light) v_wl)"
    and bad: "simulate_stack ext l = Inl e"
  shows "\<exists>e' l'. l' \<in> set (light_list light (theta light) v_wl) \<and> simulate_stack ext l' = Inl e'
           \<and> emu_spectra ext py_str light struct emu now = Inl e'"
proof -
  from traverse_raises [of l _ "simulate_stack ext" e, OF l bad] obtain e' l' where
    "l' \<in> set (light_list light (theta light) v_wl)" "simulate_stack ext l' = Inl e'"
    "traverse (simulate_stack ext) (light_list light (theta light) v_wl) = Inl e'"
    by blast
  then show ?thesis
    by (auto simp: emu_spectra_def emu_sweep_def executor_map_def w)
qed

lemma s4_spectra_raises:
  assumes w: "linspace (wl_min light) (wl_max light) (n_wl light) = Inr v_wl"
    and S: "s4_build ext light struct s4 = Inr S"
    and wl: "wl \<in> set v_wl"
    and bad: "rta ext light struct S wl = Inl e"
  shows "\<exists>e' wl'. wl' \<in> set v_wl \<and> rta ext light struct S wl' = Inl e'
           \<and> s4_spectra ext py_str light struct s4 now = Inl e'"
proof -
  let ?f = "\<lambda>wl. bind_err (rta ext light struct S wl) (\<lambda>r. Inr (fst r))"
  from bad have "?f wl = Inl e" by simp
  from traverse_raises [of wl v_wl ?f e, OF wl this] obtain e' wl' where
    1: "wl' \<in> set v_wl" and 2: "?f wl' = Inl e'" and 3: "traverse ?f v_wl = Inl e'"
    by blast
  from 2 have "rta ext light struct S wl' = Inl e'" by (simp add: bind_err_Inl_iff)
  with 1 3 show ?thesis
    by (auto simp: s4_spectra_def s4_sweep_def executor_map_def w S)
qed

text \<open>
  Claim C7, as amended. An exception of a solver call is not handled anywhere and ends
  the run, with no second attempt. In the wavelength-angle notebook, when the angles
  before \<open>th\<close> complete and the computation of angle \<open>th\<close> raises \<open>e\<close> (as it does when a
  worker raises), the run ends with \<open>e\<close>, and the header and the \<open>n_wl\<close> rows of every
  earlier angle have been written to the table; nothing of angle \<open>th\<close> or of a later one
  is. The single-angle notebooks of both engines end with an exception of a failed sample
  and save nothing.
\<close>

theorem solver_failure_propagates:
  "(linspace (wl_min light) (wl_max light) (n_wl light) = Inr v_wl
      \<and> linspace (theta_min light) (theta_max light) (n_theta light) = Inr (pre @ th # post)
      \<and> list_all (\<lambda>t. returns (angle_tables ext light v_wl t)) pre
      \<and> angle_tables ext light v_wl th = Inl e
    \<longrightarrow> emu_theta_sweep ext light
          = (Some e, Header # concat (map (angle_rows_of ext light v_wl) pre))
        \<and> length (data_rows (snd (emu_theta_sweep ext light))) = length pre * nat (n_wl light))
   \<and> (l \<in> set (light_list light th v_wl) \<and> simulate_stack ext l = Inl e
    \<longrightarrow> (\<exists>e'. angle_tables ext light v_wl th = Inl e'))
   \<and> (linspace (wl_min light) (wl_max light) (n_wl light) = Inr v_wl
      \<and> l \<in> set (light_list light (theta light) v_wl) \<and> simulate_stack ext l = Inl e
    \<longrightarrow> (\<exists>e' l'. l' \<in> set (light_list light (theta light) v_wl)
           \<and> simulate_stack ext l' = Inl e'
           \<and> emu_spectra ext py_str light struct emu now = Inl e'))
   \<and> (linspace (wl_min light4) (wl_max light4) (n_wl light4) = Inr v_wl4
      \<and> s4_build ext4 light4 struct4 s4 = Inr S
      \<and> wl \<in> set v_wl4 \<and> rta ext4 light4 struct4 S wl = Inl e4
    \<longrightarrow> (\<exists>e' wl'. wl' \<in> set v_wl4 \<and> rta ext4 light4 struct4 S wl' = Inl e'
           \<and> s4_spectra ext4 py_str light4 struct4 s4 now = Inl e'))"
proof (intro conjI impI)
  assume a: "linspace (wl_min light) (wl_max light) (n_wl light) = Inr v_wl
      \<and> linspace (theta_min light) (theta_max light) (n_theta light) = Inr (pre @ th # post)
      \<and> list_all (\<lambda>t. returns (angle_tables ext light v_wl t)) pre
      \<and> angle_tables ext light v_wl th = Inl e"
  then have w: "linspace (wl_min light) (wl_max light) (n_wl light) = Inr v_wl"
    and t: "linspace (theta_min light) (theta_max light) (n_theta light) = Inr (pre @ th # post)"
    and bad: "angle_tables ext light v_wl th = Inl e"
    by simp_all
  have ok: "returns (angle_tables ext light v_wl t)" if "t \<in> set pre" for t
    using a that by (simp add: list_all_iff)
  have run: "emu_theta_sweep ext light
          = (Some e, [Header] @ concat (map (angle_rows_of ext light v_wl) pre))"
    by (rule emu_theta_sweep_raises [OF w t ok bad])
  then show "emu_theta_sweep ext light
          = (Some e, Header # concat (map (angle_rows_of ext light v_wl) pre))"
    by simp
  have "length v_wl = nat (n_wl light)" using w by (rule linspace_length)
  with data_rows_table [of pre ext light v_wl "[]", OF ok]
  show "length (data_rows (snd (emu_theta_sweep ext light))) = length pre * nat (n_wl light)"
    by (simp add: run data_rows_def)
next
  assume "l \<in> set (light_list light th v_wl) \<and> simulate_stack ext l = Inl e"
  then show "\<exists>e'. angle_tables ext light v_wl th = Inl e'"
    using angle_tables_raises [of l light th v_wl ext e] by blast
next
  assume "linspace (wl_min light) (wl_max light) (n_wl light) = Inr v_wl
      \<and> l \<in> set (light_list light (theta light) v_wl) \<and> simulate_stack ext l = Inl e"
  then show "\<exists>e' l'. l' \<in> set (light_list light (theta light) v_wl)
           \<and> simulate_stack ext l' = Inl e'
           \<and> emu_spectra ext py_str light struct emu now = Inl e'"
    using emu_spectra_raises [of light v_wl l ext e py_str struct emu now] by blast
next
  assume "linspace (wl_min light4) (wl_max light4) (n_wl light4) = Inr v_wl4
      \<and> s4_build ext4 light4 struct4 s4 = Inr S
      \<and> wl \<in> set v_wl4 \<and> rta ext4 light4 struct4 S wl = Inl e4"
  then show "\<exists>e' wl'. wl' \<in> set v_wl4 \<and> rta ext4 light4 struct4 S wl' = Inl e'
           \<and> s4_spectra ext4 py_str light4 struct4 s4 now = Inl e'"
    using s4_spectra_raises [of light4 v_wl4 ext4 struct4 s4 S wl e4 py_str now] by blast
qed

lemmas emu_eval =
  emu_theta_sweep_def emu_light_3_def linspace_3 linspace_2 theta_step_def
  angle_tables_def executor_map_def light_list_def simulate_stack_def Stack_def
  angle_columns_def rta_spectra_def calc_scat_def py_get_def np_cd_def np_binop_def np_sub_def
  enumerate_eq_zip upt_3

text \<open>
  With a mode solver that raises at 10 degrees and the angles 0 and 10, the run ends with
  the solver's exception after the three rows of angle 0 were written.
\<close>

theorem partial_table_counterexample:
  "simulate_stack emu_ext_fail (Light 400 2 10 0) = Inl (SolverError ''calc_modes'')
   \<and> emu_theta_sweep emu_ext_fail emu_light_3
     = (Some (SolverError ''calc_modes''),
        [Header,
         Row 400 0 0 [Fin (1 / 10), Fin (1 / 5), Fin (2 / 5), Fin (1 / 10), Fin (1 / 5), Fin (2 / 5),
                      Fin 0, Fin 0, Fin 0,
                      Fin (1 / 10), Fin (1 / 5), Fin (2 / 5), Fin (1 / 10), Fin (1 / 5), Fin (2 / 5)],
         Row 600 0 0 [Fin (3 / 20), Fin (3 / 10), Fin (3 / 5), Fin (3 / 20), Fin (3 / 10), Fin (3 / 5),
                      Fin 0, Fin 0, Fin 0,
                      Fin (3 / 20), Fin (3 / 10), Fin (3 / 5), Fin (3 / 20), Fin (3 / 10), Fin (3 / 5)],
         Row 800 0 0 [Fin (1 / 5), Fin (2 / 5), Fin (4 / 5), Fin (1 / 5), Fin (2 / 5), Fin (4 / 5),
                      Fin 0, Fin 0, Fin 0,
                      Fin (1 / 5), Fin (2 / 5), Fin (4 / 5), Fin (1 / 5), Fin (2 / 5), Fin (4 / 5)]])"
  by (simp add: emu_eval emu_ext_fail_def emu_ext_lin_def)


theorem solver_failure_propagates_witness:
  "emu_theta_sweep emu_ext_fail emu_light_tilted
     = (Some (SolverError ''calc_modes''),
        Header # concat (map (angle_rows_of emu_ext_fail emu_light_tilted [400, 600, 800]) [0]))
   \<and> length (data_rows (snd (emu_theta_sweep emu_ext_fail emu_light_tilted))) = 3
   \<and> (\<exists>e'. angle_tables emu_ext_fail emu_light_tilted [400, 600, 800] 10 = Inl e')
   \<and> (\<exists>e' l'. l' \<in> set (light_list emu_light_tilted (theta emu_light_tilted) [400, 600, 800])
           \<and> simulate_stack emu_ext_fail l' = Inl e'
           \<and> emu_spectra emu_ext_fail str_nb emu_light_tilted emu_struct_nb emu_opts_nb run_180222
                = Inl e')
   \<and> (\<exists>e' wl'. wl' \<in> set [400, 600, 800]
           \<and> rta s4_ext_dark s4_light_3 s4_struct_nb s4_sim_nb wl' = Inl e'
           \<and> s4_spectra s4_ext_dark str_nb s4_light_3 s4_struct_nb s4_opts_nb run_180222 = Inl e')"
proof -
  have w: "linspace (wl_min emu_light_tilted) (wl_max emu_light_tilted) (n_wl emu_light_tilted)
             = Inr [400, 600, 800]"
    by (simp add: emu_light_tilted_def emu_light_3_def linspace_3)
  have t: "linspace (theta_min emu_light_tilted) (theta_max emu_light_tilted)
             (n_theta emu_light_tilted) = Inr ([0] @ 10 # [])"
    by (simp add: emu_light_tilted_def emu_light_3_def linspace_2)
  have ok: "list_all (\<lambda>t. returns (angle_tables emu_ext_fail emu_light_tilted [400, 600, 800] t)) [0]"
    by (simp add: returns_def emu_eval emu_ext_fail_def emu_ext_lin_def emu_light_tilted_def)
  have bad: "angle_tables emu_ext_fail emu_light_tilted [400, 600, 800] 10
               = Inl (SolverError ''calc_modes'')"
    by (simp add: emu_eval emu_ext_fail_def emu_ext_lin_def emu_light_tilted_def)
  have l: "Light 400 2 10 0 \<in> set (light_list emu_light_tilted 10 [400, 600, 800])"
    "Light 400 2 10 0 \<in> set (light_list emu_light_tilted (theta emu_light_tilted) [400, 600, 800])"
    by (simp_all add: light_list_def emu_light_tilted_def emu_light_3_def)
  have sim: "simulate_stack emu_ext_fail (Light 400 2 10 0) = Inl (SolverError ''calc_modes'')"
    by (simp add: simulate_stack_def emu_ext_fail_def emu_ext_lin_def)
  have w4: "linspace (wl_min s4_light_3) (wl_max s4_light_3) (n_wl s4_light_3) = Inr [400, 600, 800]"
    by (simp add: s4_light_3_def s4_light_nb_def linspace_3)
  have S: "s4_build s4_ext_dark s4_light_3 s4_struct_nb s4_opts_nb = Inr s4_sim_nb"
    by (simp add: s4_build_def s4_ext_dark_def s4_ext_const_def py_get_def py_float_div_def
        s4_light_3_def s4_light_nb_def s4_struct_nb_def s4_opts_nb_def s4_sim_nb_def)
  have r: "rta s4_ext_dark s4_light_3 s4_struct_nb s4_sim_nb 400 = Inl ZeroDivisionError"
    by (simp add: rta_def rta_setup_def rta_fluxes_def s4_ext_dark_def s4_ext_const_def py_get_def
        np_abs_div_def py_complex_div_def Let_def)
  note T = solver_failure_propagates [where light = emu_light_tilted and v_wl = "[400, 600, 800]"
      and pre = "[0]" and th = 10 and post = "[]" and ext = emu_ext_fail
      and e = "SolverError ''calc_modes''" and l = "Light 400 2 10 0" and py_str = str_nb
      and struct = emu_struct_nb and emu = emu_opts_nb and now = run_180222
      and ?light4.0 = s4_light_3 and ?v_wl4.0 = "[400, 600, 800]" and ?ext4.0 = s4_ext_dark
      and ?struct4.0 = s4_struct_nb and ?s4.0 = s4_opts_nb and S = s4_sim_nb and wl = 400
      and ?e4.0 = ZeroDivisionError]
  note T1 = T [THEN conjunct1, THEN mp, OF conjI [OF w conjI [OF t conjI [OF ok bad]]]]
  note T2 = T [THEN conjunct2, THEN conjunct1, THEN mp, OF conjI [OF l(1) sim]]
  note T3 = T [THEN conjunct2, THEN conjunct2, THEN conjunct1, THEN mp,
      OF conjI [OF w conjI [OF l(2) sim]]]
  note T4 = T [THEN conjunct2, THEN conjunct2, THEN conjunct2, THEN mp,
      OF conjI [OF w4 conjI [OF S conjI [OF _ r]]]]
  have n: "nat (n_wl emu_light_tilted) = 3"
    by (simp add: emu_light_tilted_def emu_light_3_def)
  note T1 [THEN conjunct1]
  moreover from T1 [THEN conjunct2] n
  have "length (data_rows (snd (emu_theta_sweep emu_ext_fail emu_light_tilted))) = 3"
    by simp
  moreover have "(400::real) \<in> set [400, 600, 800]" by simp
  note T4 [OF this]
  ultimately show ?thesis using T2 T3 by blast
qed

text \<open>
  Claim C1, as amended. The three dichroism columns of an angle are \<open>(L - R) / (L + R)\<close>
  taken entry by entry on the arrays that \<open>rta_spectra\<close> returns for \<open>'L Circ'\<close> and
  \<open>'R Circ'\<close>; the division of two arrays of one length never raises; on equal finite
  inputs with a non-zero sum the ratio is 0; where the sum is zero the ratio is NaN when
  the difference is zero too, and an infinity with the sign of the difference otherwise.
\<close>

theorem circular_dichroism:
  "(angle_columns ext stks = Inr cols
     \<longrightarrow> (\<exists>R_r T_r A_r R_l T_l A_l.
            rta_spectra ext stks ''R Circ'' = Inr (R_r, T_r, A_r)
          \<and> rta_spectra ext stks ''L Circ'' = Inr (R_l, T_l, A_l)
          \<and> cols ! 6 = map2 cd_ratio R_l R_r
          \<and> cols ! 7 = map2 cd_ratio T_l T_r
          \<and> cols ! 8 = map2 cd_ratio A_l A_r))
   \<and> (length v_l = length v_r \<longrightarrow> np_cd v_l v_r = Inr (map2 cd_ratio v_l v_r))
   \<and> (x + x \<noteq> 0 \<longrightarrow> cd_ratio (Fin x) (Fin x) = Fin 0)
   \<and> (l + r = 0 \<longrightarrow> np_add (Fin l) (Fin r) = Fin 0
        \<and> cd_ratio (Fin l) (Fin r) = (if l = r then NaN else if r < l then PosInf else NegInf))"
proof (intro conjI impI)
  assume "angle_columns ext stks = Inr cols"
  from angle_columns_Inr [OF this] obtain R_te T_te A_te R_tm T_tm A_tm R_r T_r A_r R_l T_l A_l
    where rc: "rta_spectra ext stks ''R Circ'' = Inr (R_r, T_r, A_r)"
      and lc: "rta_spectra ext stks ''L Circ'' = Inr (R_l, T_l, A_l)"
      and cols: "cols = [R_te, T_te, A_te, R_tm, T_tm, A_tm,
                map2 cd_ratio R_l R_r, map2 cd_ratio T_l T_r, map2 cd_ratio A_l A_r,
                R_r, T_r, A_r, R_l, T_l, A_l]"
    by blast
  have "cols ! 6 = map2 cd_ratio R_l R_r" "cols ! 7 = map2 cd_ratio T_l T_r"
    "cols ! 8 = map2 cd_ratio A_l A_r"
    by (simp_all add: cols)
  with rc lc show "\<exists>R_r T_r A_r R_l T_l A_l.
            rta_spectra ext stks ''R Circ'' = Inr (R_r, T_r, A_r)
          \<and> rta_spectra ext stks ''L Circ'' = Inr (R_l, T_l, A_l)
          \<and> cols ! 6 = map2 cd_ratio R_l R_r
          \<and> cols ! 7 = map2 cd_ratio T_l T_r
          \<and> cols ! 8 = map2 cd_ratio A_l A_r"
    by blast
next
  assume "length v_l = length v_r"
  then show "np_cd v_l v_r = Inr (map2 cd_ratio v_l v_r)" by (rule np_cd_eq)
next
  assume "x + x \<noteq> 0"
  then show "cd_ratio (Fin x) (Fin x) = Fin 0" by (simp add: cd_ratio_def np_sub_def)
next
  assume "l + r = 0"
  then show "np_add (Fin l) (Fin r) = Fin 0" by simp
next
  assume "l + r = 0"
  then show "cd_ratio (Fin l) (Fin r) = (if l = r then NaN else if r < l then PosInf else NegInf)"
    by (auto simp: cd_ratio_def np_sub_def)
qed

text \<open>
  A fully transmitting structure has R = 0 and A = 0 for both circular polarizations:
  the sums are zero, the run completes, and the rows hold NaN in the R and A dichroism
  columns.
\<close>

theorem zero_sum_counterexample:
  "np_add (Fin 0) (Fin 0) = Fin 0
   \<and> np_cd [Fin 0] [Fin 0] = Inr [NaN]
   \<and> emu_theta_sweep emu_ext_clear emu_light_3
     = (None,
        [Header,
         Row 400 0 0 [Fin 0, Fin 1, Fin 0, Fin 0, Fin 1, Fin 0, NaN, Fin 0, NaN,
                      Fin 0, Fin 1, Fin 0, Fin 0, Fin 1, Fin 0],
         Row 600 0 0 [Fin 0, Fin 1, Fin 0, Fin 0, Fin 1, Fin 0, NaN, Fin 0, NaN,
                      Fin 0, Fin 1, Fin 0, Fin 0, Fin 1, Fin 0],
         Row 800 0 0 [Fin 0, Fin 1, Fin 0, Fin 0, Fin 1, Fin 0, NaN, Fin 0, NaN,
                      Fin 0, Fin 1, Fin 0, Fin 0, Fin 1, Fin 0],
         Row 400 10 0 [Fin 0, Fin 1, Fin 0, Fin 0, Fin 1, Fin 0, NaN, Fin 0, NaN,
                       Fin 0, Fin 1, Fin 0, Fin 0, Fin 1, Fin 0],
         Row 600 10 0 [Fin 0, Fin 1, Fin 0, Fin 0, Fin 1, Fin 0, NaN, Fin 0, NaN,
                       Fin 0, Fin 1, Fin 0, Fin 0, Fin 1, Fin 0],
         Row 800 10 0 [Fin 0, Fin 1, Fin 0, Fin 0, Fin 1, Fin 0, NaN, Fin 0, NaN,
                       Fin 0, Fin 1, Fin 0, Fin 0, Fin 1, Fin 0],
         Newline])"
  by (simp add: emu_eval emu_ext_clear_def emu_ext_lin_def)

theorem circular_dichroism_witness:
  "(\<exists>R_r T_r A_r R_l T_l A_l.
       rta_spectra emu_ext_lin [Stack [(400, 0), (400, 0), (400, 0)]] ''R Circ'' = Inr (R_r, T_r, A_r)
     \<and> rta_spectra emu_ext_lin [Stack [(400, 0), (400, 0), (400, 0)]] ''L Circ'' = Inr (R_l, T_l, A_l)
     \<and> [Fin 0] = map2 cd_ratio R_l R_r \<and> [Fin 0] = map2 cd_ratio T_l T_r
     \<and> [Fin 0] = map2 cd_ratio A_l A_r)
   \<and> np_cd [Fin (1 / 10), Fin 0] [Fin (1 / 10), Fin 0] = Inr [Fin 0, NaN]
   \<and> cd_ratio (Fin (1 / 10)) (Fin (1 / 10)) = Fin 0
   \<and> cd_ratio (Fin (1 / 2)) (Fin (- (1 / 2))) = PosInf"
proof -
  have c: "angle_columns emu_ext_lin [Stack [(400, 0), (400, 0), (400, 0)]]
     = Inr [[Fin (1 / 10)], [Fin (1 / 5)], [Fin (2 / 5)], [Fin (1 / 10)], [Fin (1 / 5)], [Fin (2 / 5)],
            [Fin 0], [Fin 0], [Fin 0],
            [Fin (1 / 10)], [Fin (1 / 5)], [Fin (2 / 5)], [Fin (1 / 10)], [Fin (1 / 5)], [Fin (2 / 5)]]"
    by (simp add: emu_eval emu_ext_lin_def)
  have v: "map2 cd_ratio [Fin (1 / 10), Fin 0] [Fin (1 / 10), Fin 0] = [Fin 0, NaN]"
    by (simp add: cd_ratio_def np_sub_def)
  from circular_dichroism [of emu_ext_lin "[Stack [(400, 0), (400, 0), (400, 0)]]"
      "[[Fin (1 / 10)], [Fin (1 / 5)], [Fin (2 / 5)], [Fin (1 / 10)], [Fin (1 / 5)], [Fin (2 / 5)],
            [Fin 0], [Fin 0], [Fin 0],
            [Fin (1 / 10)], [Fin (1 / 5)], [Fin (2 / 5)], [Fin (1 / 10)], [Fin (1 / 5)], [Fin (2 / 5)]]"
      "[Fin (1 / 10), Fin 0]" "[Fin (1 / 10), Fin 0]" "1 / 10" "1 / 2" "- (1 / 2)"] c v
  show ?thesis
    by simp
qed


section \<open>The local-field map\<close>

lemma take_drop_concat:
  "(\<And>r. r \<in> set rows \<Longrightarrow> length r = c) \<Longrightarrow> i < length rows
   \<Longrightarrow> take c (drop (i * c) (concat rows)) = rows ! i"
proof (induction rows arbitrary: i)
  case Nil
  then show ?case by simp
next
  case (Cons r rows)
  have lr: "length r = c" using Cons.prems(1) by simp
  show ?case
  proof (cases i)
    case 0
    then show ?thesis using lr by simp
  next
    case (Suc j)
    with Cons.prems have j: "j < length rows" by simp
    have "take c (drop (j * c) (concat rows)) = rows ! j"
      by (rule Cons.IH) (use Cons.prems(1) j in auto)
    then show ?thesis using Suc lr by simp
  qed
qed

lemma length_concat_uniform:
  "(\<And>r. r \<in> set rows \<Longrightarrow> length r = c) \<Longrightarrow> length (concat rows) = length rows * c"
  by (induction rows) simp_all

lemma np_reshape_concat:
  assumes "\<And>r. r \<in> set rows \<Longrightarrow> length r = c"
  shows "np_reshape (concat rows) (length rows) c = Inr rows"
proof -
  have "map (\<lambda>i. take c (drop (i * c) (concat rows))) [0..<length rows] = rows"
    by (rule nth_equalityI) (simp_all add: take_drop_concat assms)
  then show ?thesis
    by (simp add: np_reshape_def length_concat_uniform assms)
qed

lemma lf_values:
  "map2 AbsE (map fst (lf_grid xs ys)) (map snd (lf_grid xs ys))
     = concat (map (\<lambda>x. map (AbsE x) ys) xs)"
proof -
  have "map2 AbsE (map fst (lf_grid xs ys)) (map snd (lf_grid xs ys))
          = map (\<lambda>(x, y). AbsE x y) (lf_grid xs ys)"
    by (simp add: zip_map_fst_snd)
  also have "\<dots> = concat (map (\<lambda>x. map (AbsE x) ys) xs)"
    by (simp add: lf_grid_def map_concat comp_def)
  finally show ?thesis .
qed

lemma transpose_table:
  assumes "length xs = n" and "length ys = n"
  shows "transpose (map (\<lambda>x. map (AbsE x) ys) xs)
           = map (\<lambda>j. map (\<lambda>i. AbsE (xs ! i) (ys ! j)) [0..<n]) [0..<n]"
proof -
  let ?rows = "map (\<lambda>x. map (AbsE x) ys) xs"
  have "transpose ?rows = map (\<lambda>i. map (\<lambda>j. ?rows ! j ! i) [0..<length ?rows]) [0..<n]"
    by (rule transpose_rectangle) (use assms in auto)
  also have "\<dots> = map (\<lambda>j. map (\<lambda>i. AbsE (xs ! i) (ys ! j)) [0..<n]) [0..<n]"
    using assms by simp
  finally show ?thesis .
qed

lemma lf_ignores:
  "lf ext struct stk p z n_points lay_interest = lf ext struct stk p z n' lay'"
  by (simp add: lf_def)

text \<open>
  Claim C10. \<open>lf\<close> does not depend on its arguments \<open>n_points\<close> and \<open>lay_interest\<close>: its
  result is that for \<open>n_points = 500\<close> and \<open>lay_interest = 1\<close>. When the scattering
  computation and the interpolator of layer 1 return and the period is not zero, the
  result is a map of 500 rows of 500 values: entry \<open>i\<close> of row \<open>j\<close> is the magnitude
  interpolated in layer 1 at the \<open>i\<close>-th of 500 abscissae and the \<open>j\<close>-th of 500
  ordinates.
\<close>

theorem lf_fixed_grid:
  assumes sc: "calc_scat ext stk p = Inr stk'"
    and fi: "fields_interpolator_in_plane ext stk' 1 z = Inr AbsE"
    and px: "nd_period_x struct \<noteq> 0"
    and xs: "linspace 0 1 500 = Inr xs"
    and ys: "linspace (- (nd_period_y struct / nd_period_x struct)) 0 500 = Inr ys"
  shows "lf ext struct stk p z n_points lay_interest = lf ext struct stk p z 500 1
       \<and> (\<exists>m. lf ext struct stk p z n_points lay_interest = Inr m
             \<and> length m = 500 \<and> list_all (\<lambda>row. length row = 500) m
             \<and> m = map (\<lambda>j. map (\<lambda>i. AbsE (xs ! i) (ys ! j)) [0..<500]) [0..<500])"
proof -
  have lx: "length xs = 500" and ly: "length ys = 500"
    using linspace_length [OF xs] linspace_length [OF ys] by simp_all
  let ?rows = "map (\<lambda>x. map (AbsE x) ys) xs"
  have "np_reshape (concat ?rows) (length ?rows) 500 = Inr ?rows"
    by (rule np_reshape_concat) (use ly in auto)
  then have r: "np_reshape (concat ?rows) 500 500 = Inr ?rows" using lx by simp
  have "lf ext struct stk p z n_points lay_interest = Inr (transpose ?rows)"
    using sc fi px xs ys r by (simp add: lf_def lf_values Let_def py_float_div_def)
  then have "lf ext struct stk p z n_points lay_interest
               = Inr (map (\<lambda>j. map (\<lambda>i. AbsE (xs ! i) (ys ! j)) [0..<500]) [0..<500])"
    by (simp add: transpose_table [OF lx ly])
  then show ?thesis
    by (simp add: lf_ignores [of _ _ _ _ _ n_points lay_interest 500 1] list_all_iff)
qed

lemma linspace_500: "\<exists>v. linspace a b 500 = Inr v"
  by (rule linspace_total) simp

theorem lf_fixed_grid_witness:
  "lf emu_ext_lin struct_nb (Stack [(400, 0), (400, 0), (400, 0)]) ''TM'' 50 7 3
     = lf emu_ext_lin struct_nb (Stack [(400, 0), (400, 0), (400, 0)]) ''TM'' 50 500 1
   \<and> (\<exists>m. lf emu_ext_lin struct_nb (Stack [(400, 0), (400, 0), (400, 0)]) ''TM'' 50 7 3 = Inr m
          \<and> length m = 500 \<and> list_all (\<lambda>row. length row = 500) m)"
proof -
  let ?stk = "Stack [(400::real, 0::real), (400, 0), (400, 0)]"
  have sc: "calc_scat emu_ext_lin ?stk ''TM''
     = Inr (?stk\<lparr>scat_pol := Some ''TM'', a_list := [Fin 0, Fin (2 / 5)],
                  t_list := [Fin 0, Fin (1 / 5)], r_list := [Fin (1 / 10)]\<rparr>)"
    by (simp add: calc_scat_def emu_ext_lin_def Stack_def)
  have fi: "fields_interpolator_in_plane emu_ext_lin
      (?stk\<lparr>scat_pol := Some ''TM'', a_list := [Fin 0, Fin (2 / 5)],
                  t_list := [Fin 0, Fin (1 / 5)], r_list := [Fin (1 / 10)]\<rparr>) 1 50
      = Inr (\<lambda>x y. x - y)"
    by (simp add: emu_ext_lin_def)
  have px: "nd_period_x struct_nb \<noteq> 0" by (simp add: struct_nb_def)
  from linspace_500 obtain xs where xs: "linspace 0 1 500 = Inr xs" by blast
  from linspace_500 obtain ys where
    ys: "linspace (- (nd_period_y struct_nb / nd_period_x struct_nb)) 0 500 = Inr ys" by blast
  from lf_fixed_grid [OF sc fi px xs ys, of 7 3] show ?thesis by blast
qed


section \<open>The saved configuration read back\<close>






end
